(* ===== verification/Prelude.thy ===== *)
theory Prelude
  imports Main "HOL-Library.Word" "HOL-Library.Signed_Division"
begin

text \<open>
  What every component of the development shares: Go's fixed-width integers as \<open>int\<close> with
  the wrap-around written out (\<open>i64\<close>, \<open>i32\<close>), its shifts and its truncating division,
  \<open>time.Time\<close> and \<open>time.Duration\<close>, the type of fallible results, and the generic lemmas
  on bits and lists that the component proofs rest on. Go's \<open>int\<close> is 64 bits wide on the
  platforms the plugin is built for, so it is read as \<open>int64\<close> throughout.
\<close>

unbundle bit_operations_syntax

section \<open>Collections of facts\<close>

named_theorems go_int \<open>facts that remove a wrap-around that cannot happen\<close>
named_theorems step_simps \<open>what one operation does to the fields it leaves alone\<close>

section \<open>Machine integers\<close>

text \<open>Two's complement reading of the low 64 (32) bits: what an \<open>int64\<close> (\<open>int32\<close>)
  variable holds after an arithmetic operation whose mathematical result is the argument.\<close>

definition i64 :: "int \<Rightarrow> int" where
  "i64 x = (x + 2 ^ 63) mod 2 ^ 64 - 2 ^ 63"

definition i32 :: "int \<Rightarrow> int" where
  "i32 x = (x + 2 ^ 31) mod 2 ^ 32 - 2 ^ 31"

definition in_i64 :: "int \<Rightarrow> bool" where
  "in_i64 x \<longleftrightarrow> - (2 ^ 63) \<le> x \<and> x < 2 ^ 63"

definition in_i32 :: "int \<Rightarrow> bool" where
  "in_i32 x \<longleftrightarrow> - (2 ^ 31) \<le> x \<and> x < 2 ^ 31"

lemma i64_id [go_int]: "- (2 ^ 63) \<le> x \<Longrightarrow> x < 2 ^ 63 \<Longrightarrow> i64 x = x"
  by (simp add: i64_def)

lemma i32_id [go_int]: "- (2 ^ 31) \<le> x \<Longrightarrow> x < 2 ^ 31 \<Longrightarrow> i32 x = x"
  by (simp add: i32_def)

lemma in_i64_i64: "in_i64 (i64 x)"
  by (simp add: i64_def in_i64_def)

lemma i64_lower: "- (2 ^ 63) \<le> i64 x" and i64_upper: "i64 x < 2 ^ 63"
  by (simp_all add: i64_def)

text \<open>The definition is the usual one: the signed reading of a 64-bit word.\<close>

lemma i64_sint: "i64 x = sint (word_of_int x :: 64 word)"
  by (simp add: i64_def sint_sbintrunc' signed_take_bit_eq_take_bit_shift take_bit_eq_mod)

lemma i32_sint: "i32 x = sint (word_of_int x :: 32 word)"
  by (simp add: i32_def sint_sbintrunc' signed_take_bit_eq_take_bit_shift take_bit_eq_mod)

text \<open>Go's shifts. \<open>x << n\<close> drops what leaves the 64 bits; \<open>x >> n\<close> on a signed operand
  is arithmetic. A negative count panics in Go: every count of the program is shown to be
  non-negative where it is used.\<close>

definition shl64 :: "int \<Rightarrow> int \<Rightarrow> int" where
  "shl64 x n = i64 (push_bit (nat n) x)"

definition shr64 :: "int \<Rightarrow> int \<Rightarrow> int" where
  "shr64 x n = drop_bit (nat n) x"

definition shl32 :: "int \<Rightarrow> int \<Rightarrow> int" where
  "shl32 x n = i32 (push_bit (nat n) x)"

lemma shl64_id [go_int]:
  "0 \<le> x \<Longrightarrow> x * 2 ^ nat n < 2 ^ 63 \<Longrightarrow> shl64 x n = x * 2 ^ nat n"
  by (simp add: shl64_def push_bit_eq_mult i64_id order_trans [of _ 0])

lemma shl64_one [go_int]: "0 \<le> n \<Longrightarrow> n < 63 \<Longrightarrow> shl64 1 n = 2 ^ nat n"
proof -
  assume n: "0 \<le> n" "n < 63"
  then have "(2 :: int) ^ nat n < 2 ^ 63"
    by (intro power_strict_increasing) auto
  with shl64_id [of 1 n] show ?thesis by simp
qed

lemma shr64_div: "shr64 x n = x div 2 ^ nat n"
  by (simp add: shr64_def drop_bit_eq_div)

lemma and_mask_mod: "(x :: int) AND (2 ^ n - 1) = x mod 2 ^ n"
  by (metis mask_eq_exp_minus_1 take_bit_eq_mask take_bit_eq_mod)

text \<open>Two fields that do not overlap: OR is addition.\<close>

lemma or_low_field:
  fixes a b :: int
  assumes "0 \<le> b" and "b < 2 ^ n"
  shows "a * 2 ^ n OR b = a * 2 ^ n + b"
proof -
  have "take_bit n b = b"
    using assms by (simp add: take_bit_int_eq_self)
  moreover have "push_bit n a AND take_bit n b = 0"
    by (simp add: bit_eq_iff bit_simps)
  ultimately have "a * 2 ^ n AND b = 0"
    by (simp add: push_bit_eq_mult)
  then show ?thesis
    by (simp add: disjunctive_add_eq_or)
qed

text \<open>Go's division truncates; on a non-negative dividend it is \<open>div\<close>, which never grows.\<close>

lemma sdiv_nonneg: "0 \<le> (a :: int) \<Longrightarrow> 0 < b \<Longrightarrow> a sdiv b = a div b"
  by (auto simp: signed_divide_int_def sgn_if)

lemma smod_nonneg: "0 \<le> (a :: int) \<Longrightarrow> 0 < b \<Longrightarrow> a smod b = a mod b"
  by (auto simp: signed_modulo_int_def sgn_if)

lemma div_le_self: "0 \<le> (a :: int) \<Longrightarrow> 0 < b \<Longrightarrow> a div b \<le> a"
  using zdiv_mono2 [of a 1 b] by simp

lemma div_mult_le_self: "0 < (b :: int) \<Longrightarrow> a div b * b \<le> a"
  using pos_mod_sign [of b a] div_mult_mod_eq [of a b] by linarith

lemma i64_sdiv:
  assumes "0 \<le> a" and "a < 2 ^ 63" and "0 < b"
  shows "i64 (a sdiv b) = a div b"
proof -
  have "0 \<le> a div b" using assms by (simp add: pos_imp_zdiv_nonneg_iff)
  with div_le_self [OF assms(1,3)] assms show ?thesis
    by (simp add: sdiv_nonneg i64_id)
qed

section \<open>Durations and points in time\<close>

text \<open>A \<open>time.Duration\<close> is an \<open>int64\<close> number of nanoseconds.\<close>

abbreviation (input) Nanosecond :: int where "Nanosecond \<equiv> 1"
abbreviation (input) Microsecond :: int where "Microsecond \<equiv> 1000"
abbreviation (input) Millisecond :: int where "Millisecond \<equiv> 1000000"
abbreviation (input) Second :: int where "Second \<equiv> 1000000000"
abbreviation (input) Minute :: int where "Minute \<equiv> 60000000000"
abbreviation (input) Hour :: int where "Hour \<equiv> 3600000000000"

text \<open>
  A \<open>time.Time\<close>: nanoseconds since the Unix epoch on the wall clock, and, for a value
  that comes from \<open>time.Now\<close>, the monotonic reading. Two readings of \<open>time.Now\<close> are
  compared and subtracted on the monotonic clock, everything else on the wall clock.
\<close>

record time =
  wall :: int
  mono :: "int option"

definition time_Unix :: "int \<Rightarrow> int \<Rightarrow> time" where
  "time_Unix sec nsec = \<lparr>wall = sec * Second + nsec, mono = None\<rparr>"

definition zero_time :: time where
  "zero_time = \<lparr>wall = - 62135596800 * Second, mono = None\<rparr>"

definition UnixNano :: "time \<Rightarrow> int" where
  "UnixNano t = i64 (wall t)"

definition UnixMilli :: "time \<Rightarrow> int" where
  "UnixMilli t = i64 (wall t div Millisecond)"

definition time_Unix_seconds :: "time \<Rightarrow> int" where
  "time_Unix_seconds t = i64 (wall t div Second)"

definition time_Add :: "time \<Rightarrow> int \<Rightarrow> time" where
  "time_Add t d = \<lparr>wall = wall t + d, mono = map_option (\<lambda>m. m + d) (mono t)\<rparr>"

text \<open>\<open>t.Sub(u)\<close> saturates at the ends of \<open>int64\<close>.\<close>

definition clamp64 :: "int \<Rightarrow> int" where
  "clamp64 x = max (- (2 ^ 63)) (min (2 ^ 63 - 1) x)"

definition time_diff :: "time \<Rightarrow> time \<Rightarrow> int" where
  "time_diff t u = (case (mono t, mono u) of (Some a, Some b) \<Rightarrow> a - b | _ \<Rightarrow> wall t - wall u)"

definition time_Sub :: "time \<Rightarrow> time \<Rightarrow> int" where
  "time_Sub t u = clamp64 (time_diff t u)"

definition time_After :: "time \<Rightarrow> time \<Rightarrow> bool" where
  "time_After t u \<longleftrightarrow> time_diff t u > 0"

definition time_IsZero :: "time \<Rightarrow> bool" where
  "time_IsZero t \<longleftrightarrow> wall t = wall zero_time"

text \<open>A reading of the clock.\<close>

definition reading :: "int \<Rightarrow> int \<Rightarrow> time" where
  "reading w m = \<lparr>wall = w, mono = Some m\<rparr>"

lemma reading_sel [simp]: "wall (reading w m) = w" "mono (reading w m) = Some m"
  by (simp_all add: reading_def)

text \<open>Splitting milliseconds into seconds and nanoseconds, as the program does before
  \<open>time.Unix\<close>, loses nothing, also before 1970 (Go's division truncates).\<close>

definition unix_ms :: "int \<Rightarrow> time" where
  "unix_ms ms = time_Unix (ms sdiv 1000) (i64 (i64 (ms smod 1000) * 1000000))"

lemma smod_1000_bounds: "- 1000 < (x :: int) smod 1000" "(x :: int) smod 1000 < 1000"
proof -
  have "\<bar>x smod 1000\<bar> < 1000"
    by (simp add: signed_modulo_int_def abs_mult abs_sgn_eq)
  then show "- 1000 < x smod 1000" "x smod 1000 < 1000" by linarith+
qed

lemma wall_unix_ms: "wall (unix_ms ms) = ms * Millisecond"
proof -
  have m: "i64 (i64 (ms smod 1000) * 1000000) = (ms smod 1000) * 1000000"
    using smod_1000_bounds [of ms] by (simp add: i64_id)
  have "ms sdiv 1000 * 1000 + ms smod 1000 = ms"
    by (rule sdiv_mult_smod_eq)
  then show ?thesis
    by (simp add: unix_ms_def time_Unix_def m)
qed

section \<open>Fallible results\<close>

text \<open>A Go result \<open>(value, error)\<close>: \<open>Inl\<close> of the error or \<open>Inr\<close> of the value.\<close>

type_synonym ('e, 'a) result = "'e + 'a"

definition is_ok :: "('e, 'a) result \<Rightarrow> bool" where
  "is_ok r = (case r of Inl _ \<Rightarrow> False | Inr _ \<Rightarrow> True)"

lemma is_ok_simps [simp]: "is_ok (Inr v)" "\<not> is_ok (Inl e)"
  by (simp_all add: is_ok_def)

text \<open>\<open>if cond { return err }\<close> followed by the rest of a validation.\<close>

definition reject_if :: "bool \<Rightarrow> 'e \<Rightarrow> 'e option \<Rightarrow> 'e option" where
  "reject_if c e rest = (if c then Some e else rest)"

lemma reject_if_None [simp]: "reject_if c e rest = None \<longleftrightarrow> \<not> c \<and> rest = None"
  by (simp add: reject_if_def)

text \<open>\<open>if err := f(); err != nil { return err }\<close> followed by the rest.\<close>

definition first_error :: "'e option \<Rightarrow> 'e option \<Rightarrow> 'e option" where
  "first_error a b = (case a of Some e \<Rightarrow> Some e | None \<Rightarrow> b)"

lemma first_error_None [simp]: "first_error a b = None \<longleftrightarrow> a = None \<and> b = None"
  by (simp add: first_error_def split: option.splits)

section \<open>Lists\<close>

lemma sorted_wrt_less_distinct: "sorted_wrt (<) (xs :: 'a::order list) \<Longrightarrow> distinct xs"
  by (induction xs) auto

end
