(* ===== verification/Float64.thy ===== *)
theory Float64
  imports Prelude "HOL-Library.Log_Nat" Complex_Main
begin

text \<open>
  Go's \<open>float64\<close> as the program uses it: conversions from \<open>int64\<close>, division, addition and
  the conversion back to \<open>int\<close>, on numbers far from the ends of the exponent range. A
  \<open>float64\<close> is the rational number it stands for, and every operation is the exact one
  followed by \<open>fround\<close>, rounding to the nearest number with a 53-bit significand, ties to
  even. Subnormal and infinite values are outside this model: the program forms rates of
  64-bit counters and durations only, whose quotients lie between \<open>2 ^ -64\<close> and \<open>2 ^ 64\<close>.
\<close>

section \<open>Rounding to 53 bits\<close>

text \<open>The exponent \<open>e\<close> with \<open>2 ^ e \<le> q < 2 ^ (e + 1)\<close>, from the bit lengths of numerator and
  denominator.\<close>

definition pow2 :: "int \<Rightarrow> rat" where
  "pow2 e = (if 0 \<le> e then 2 ^ nat e else 1 / 2 ^ nat (- e))"

definition ilog2 :: "rat \<Rightarrow> int" where
  "ilog2 q = (let (n, d) = quotient_of q; k = bitlen n - bitlen d
              in if pow2 k \<le> q then k else k - 1)"

definition round_even :: "rat \<Rightarrow> int" where
  "round_even x = (let f = floor x; r = x - of_int f in
     if r < 1 / 2 then f
     else if r > 1 / 2 then f + 1
     else if even f then f else f + 1)"

definition fround_pos :: "rat \<Rightarrow> rat" where
  "fround_pos q = (let e = ilog2 q - 52 in of_int (round_even (q / pow2 e)) * pow2 e)"

definition fround :: "rat \<Rightarrow> rat" where
  "fround q = (if q = 0 then 0 else if 0 < q then fround_pos q else - fround_pos (- q))"

section \<open>The operations of the program\<close>

type_synonym float64 = rat

text \<open>\<open>float64(n)\<close>, \<open>a / b\<close> (the program guards every divisor against zero), \<open>a + b\<close> and \<open>int(f)\<close>,
  which truncates.\<close>

definition float_of_int :: "int \<Rightarrow> float64" where
  "float_of_int n = fround (of_int n)"

definition float_div :: "float64 \<Rightarrow> float64 \<Rightarrow> float64" where
  "float_div a b = fround (a / b)"

definition float_mult :: "float64 \<Rightarrow> float64 \<Rightarrow> float64" where
  "float_mult a b = fround (a * b)"

definition float_add :: "float64 \<Rightarrow> float64 \<Rightarrow> float64" where
  "float_add a b = fround (a + b)"

definition int_of_float :: "float64 \<Rightarrow> int" where
  "int_of_float f = (if 0 \<le> f then floor f else ceiling f)"

text \<open>\<open>time.Duration.Seconds\<close>: whole seconds and the remaining nanoseconds, converted apart.\<close>

definition duration_Seconds :: "int \<Rightarrow> float64" where
  "duration_Seconds d =
     float_add (float_of_int (d sdiv Second))
               (float_div (float_of_int (d smod Second)) (float_of_int Second))"

section \<open>What the components rely on\<close>

text \<open>Rounding is monotone and keeps every number whose significand fits in 53 bits. Clients
  use only these two laws.\<close>

locale rounding =
  fixes rnd :: "rat \<Rightarrow> rat"
  assumes rnd_mono: "p \<le> q \<Longrightarrow> rnd p \<le> rnd q"
    and rnd_exact: "\<bar>k\<bar> \<le> 2 ^ 53 \<Longrightarrow> rnd (of_int k / 2 ^ j) = of_int k / 2 ^ j"
begin

lemma rnd_int: "\<bar>k\<bar> \<le> 2 ^ 53 \<Longrightarrow> rnd (of_int k) = of_int k"
  using rnd_exact [of k 0] by simp

lemma rnd_zero: "rnd 0 = 0"
  using rnd_int [of 0] by simp

lemma rnd_one: "rnd 1 = 1"
  using rnd_int [of 1] by simp

lemma rnd_nonneg: "0 \<le> q \<Longrightarrow> 0 \<le> rnd q"
  using rnd_mono [of 0 q] by (simp add: rnd_zero)

lemma rnd_ge_int: "\<bar>k\<bar> \<le> 2 ^ 53 \<Longrightarrow> of_int k \<le> q \<Longrightarrow> of_int k \<le> rnd q"
  using rnd_mono [of "of_int k" q] by (simp add: rnd_int)

lemma rnd_le_int: "\<bar>k\<bar> \<le> 2 ^ 53 \<Longrightarrow> q \<le> of_int k \<Longrightarrow> rnd q \<le> of_int k"
  using rnd_mono [of q "of_int k"] by (simp add: rnd_int)

text \<open>A quotient of counters is a rate between 0 and 1.\<close>

lemma rnd_unit:
  assumes "0 \<le> q" and "q \<le> 1"
  shows "0 \<le> rnd q \<and> rnd q \<le> 1"
  using rnd_nonneg [OF assms(1)] rnd_le_int [of 1 q] assms(2) by simp

text \<open>Rounding does not carry a number over the next multiple of \<open>2 ^ -j\<close> when that multiple
  has a short significand.\<close>

lemma rnd_le_dyadic: "\<bar>k\<bar> \<le> 2 ^ 53 \<Longrightarrow> q \<le> of_int k / 2 ^ j \<Longrightarrow> rnd q \<le> of_int k / 2 ^ j"
  using rnd_mono [of q "of_int k / 2 ^ j"] by (simp add: rnd_exact)

end


section \<open>Rounding satisfies them\<close>

lemma pow2_powi: "pow2 e = 2 powi e"
  by (simp add: pow2_def power_int_def power_one_over [symmetric] inverse_eq_divide)

lemma pow2_pos [simp]: "0 < pow2 e" and pow2_nonzero [simp]: "pow2 e \<noteq> 0"
  by (simp_all add: pow2_def)

lemma pow2_nonneg [simp]: "0 \<le> pow2 e"
  using pow2_pos [of e] by linarith

lemma pow2_add: "pow2 (a + b) = pow2 a * pow2 b"
  by (simp add: pow2_powi power_int_add)

lemma pow2_diff: "pow2 (a - b) = pow2 a / pow2 b"
  by (simp add: pow2_powi power_int_diff)

lemma pow2_nat: "pow2 (int n) = 2 ^ n"
  by (simp add: pow2_def)

lemma pow2_52: "pow2 52 = 2 ^ 52" and pow2_53: "pow2 53 = 2 ^ 53"
  by (simp_all add: pow2_def)

lemma pow2_strict: "a < b \<Longrightarrow> pow2 a < pow2 b"
  by (simp add: pow2_powi power_int_strict_increasing)

lemma pow2_less_iff: "pow2 a < pow2 b \<longleftrightarrow> a < b"
  using pow2_strict [of a b] pow2_strict [of b a] by (cases a b rule: linorder_cases) auto

lemma pow2_le_iff: "pow2 a \<le> pow2 b \<longleftrightarrow> a \<le> b"
  using pow2_less_iff [of b a] by linarith

text \<open>\<open>ilog2\<close> finds the exponent.\<close>

lemma bitlen_quotient:
  assumes "0 < n" and "0 < d"
  shows "pow2 (bitlen n - bitlen d - 1) \<le> of_int n / of_int d"
    and "of_int n / of_int d < pow2 (bitlen n - bitlen d + 1)"
proof -
  have bn: "1 \<le> bitlen n" and bd: "1 \<le> bitlen d"
    using assms by (auto simp: bitlen_alt_def)
  have n1: "pow2 (bitlen n - 1) \<le> of_int n" and n2: "of_int n < pow2 (bitlen n)"
    using bitlen_bounds [OF assms(1)] bn by (simp_all add: pow2_def)
  have d1: "pow2 (bitlen d - 1) \<le> of_int d" and d2: "of_int d < pow2 (bitlen d)"
    using bitlen_bounds [OF assms(2)] bd by (simp_all add: pow2_def)
  have "pow2 (bitlen n - bitlen d - 1) = pow2 (bitlen n - 1) / pow2 (bitlen d)"
    by (simp flip: pow2_diff) (simp add: algebra_simps)
  also have "\<dots> \<le> of_int n / of_int d"
    using n1 d2 assms by (intro frac_le) auto
  finally show "pow2 (bitlen n - bitlen d - 1) \<le> of_int n / of_int d" .
  have "of_int n / of_int d < pow2 (bitlen n) / pow2 (bitlen d - 1)"
    using n2 d1 assms by (intro frac_less) auto
  also have "\<dots> = pow2 (bitlen n - bitlen d + 1)"
    by (simp flip: pow2_diff) (simp add: algebra_simps)
  finally show "of_int n / of_int d < pow2 (bitlen n - bitlen d + 1)" .
qed

lemma ilog2_bounds:
  assumes "0 < q"
  shows "pow2 (ilog2 q) \<le> q" and "q < pow2 (ilog2 q + 1)"
proof -
  obtain n d where nd: "quotient_of q = (n, d)" by fastforce
  have q: "q = of_int n / of_int d" and d: "0 < d"
    using quotient_of_div [OF nd] quotient_of_denom_pos [OF nd] by auto
  then have n: "0 < n"
    using assms by (simp add: zero_less_divide_iff)
  show "pow2 (ilog2 q) \<le> q" and "q < pow2 (ilog2 q + 1)"
    using bitlen_quotient [OF n d] by (auto simp: ilog2_def nd Let_def simp flip: q)
qed

lemma ilog2_unique:
  assumes "0 < q" and "pow2 e \<le> q" and "q < pow2 (e + 1)"
  shows "ilog2 q = e"
proof -
  have "pow2 e < pow2 (ilog2 q + 1)" and "pow2 (ilog2 q) < pow2 (e + 1)"
    using ilog2_bounds [OF assms(1)] assms(2,3) by linarith+
  then show ?thesis by (simp add: pow2_less_iff)
qed

lemma ilog2_mono:
  assumes "0 < p" and "p \<le> q"
  shows "ilog2 p \<le> ilog2 q"
proof -
  have "pow2 (ilog2 p) < pow2 (ilog2 q + 1)"
    using ilog2_bounds [of p] ilog2_bounds [of q] assms by linarith
  then show ?thesis by (simp add: pow2_less_iff)
qed

lemma round_even_int [simp]: "round_even (of_int k) = k"
  by (simp add: round_even_def Let_def)

lemma round_even_near: "round_even x = \<lfloor>x\<rfloor> \<or> round_even x = \<lfloor>x\<rfloor> + 1"
  by (simp add: round_even_def Let_def)

lemma round_even_mono:
  assumes "x \<le> y"
  shows "round_even x \<le> round_even y"
proof (cases "\<lfloor>x\<rfloor> = \<lfloor>y\<rfloor>")
  case True
  with assms show ?thesis by (auto simp: round_even_def Let_def)
next
  case False
  with floor_mono [OF assms] have "\<lfloor>x\<rfloor> + 1 \<le> \<lfloor>y\<rfloor>" by linarith
  with round_even_near [of x] round_even_near [of y] show ?thesis by linarith
qed


text \<open>On positive numbers.\<close>

lemma pow2_scale: "pow2 e = 2 ^ 52 * pow2 (e - 52)" "pow2 (e + 1) = 2 ^ 53 * pow2 (e - 52)"
  by (simp_all add: pow2_diff pow2_add pow2_52, simp_all add: pow2_def)

lemma scaled_bounds:
  assumes "0 < q"
  shows "2 ^ 52 \<le> q / pow2 (ilog2 q - 52)" and "q / pow2 (ilog2 q - 52) < 2 ^ 53"
proof -
  from ilog2_bounds [OF assms] show "2 ^ 52 \<le> q / pow2 (ilog2 q - 52)"
    and "q / pow2 (ilog2 q - 52) < 2 ^ 53"
    using pow2_scale [of "ilog2 q"] by (simp_all add: pos_le_divide_eq pos_divide_less_eq)
qed

lemma round_scaled_bounds:
  assumes "0 < q"
  shows "2 ^ 52 \<le> round_even (q / pow2 (ilog2 q - 52))"
    and "round_even (q / pow2 (ilog2 q - 52)) \<le> 2 ^ 53"
proof -
  have "round_even (of_int (2 ^ 52)) \<le> round_even (q / pow2 (ilog2 q - 52))"
    and "round_even (q / pow2 (ilog2 q - 52)) \<le> round_even (of_int (2 ^ 53))"
    using scaled_bounds [OF assms] by (intro round_even_mono; simp)+
  then show "2 ^ 52 \<le> round_even (q / pow2 (ilog2 q - 52))"
    and "round_even (q / pow2 (ilog2 q - 52)) \<le> 2 ^ 53"
    unfolding round_even_int by simp_all
qed

lemma fround_pos_bounds:
  assumes "0 < q"
  shows "pow2 (ilog2 q) \<le> fround_pos q" and "fround_pos q \<le> pow2 (ilog2 q + 1)"
proof -
  let ?m = "round_even (q / pow2 (ilog2 q - 52))" and ?s = "pow2 (ilog2 q - 52)"
  have "pow2 (ilog2 q) = of_int (2 ^ 52) * ?s" and "pow2 (ilog2 q + 1) = of_int (2 ^ 53) * ?s"
    using pow2_scale [of "ilog2 q"] by simp_all
  moreover have "(of_int (2 ^ 52) :: rat) \<le> of_int ?m" and "(of_int ?m :: rat) \<le> of_int (2 ^ 53)"
    using round_scaled_bounds [OF assms] by (simp_all only: of_int_le_iff)
  ultimately show "pow2 (ilog2 q) \<le> fround_pos q" and "fround_pos q \<le> pow2 (ilog2 q + 1)"
    by (auto simp: fround_pos_def Let_def intro!: mult_right_mono)
qed

lemma fround_pos_mono:
  assumes "0 < p" and "p \<le> q"
  shows "fround_pos p \<le> fround_pos q"
proof (cases "ilog2 p = ilog2 q")
  case True
  have "p / pow2 (ilog2 q - 52) \<le> q / pow2 (ilog2 q - 52)"
    using assms by (simp add: divide_right_mono)
  then show ?thesis
    by (simp add: fround_pos_def Let_def True mult_right_mono round_even_mono)
next
  case False
  with ilog2_mono [OF assms] have "pow2 (ilog2 p + 1) \<le> pow2 (ilog2 q)"
    by (simp add: pow2_le_iff)
  with fround_pos_bounds [of p] fround_pos_bounds [of q] assms show ?thesis by linarith
qed

lemma fround_pos_exact:
  assumes "0 < k" and "k \<le> 2 ^ 53"
  shows "fround_pos (of_int k / 2 ^ j) = of_int k / 2 ^ j"
proof -
  let ?q = "of_int k / 2 ^ j :: rat"
  let ?e = "ilog2 ?q" and ?r = "52 - ilog2 ?q - int j"
  have q: "0 < ?q" using assms by simp
  have "pow2 (?e + int j) \<le> of_int k"
    using ilog2_bounds(1) [OF q] by (simp add: pow2_add pow2_nat pos_le_divide_eq)
  also have "\<dots> \<le> pow2 53"
    using assms(2) by (simp add: pow2_53)
  finally have e: "?e + int j \<le> 53" by (simp add: pow2_le_iff)
  have scaled: "?q / pow2 (?e - 52) = of_int k * pow2 ?r"
    by (simp add: pow2_diff pow2_nat)
  have "\<exists>m. of_int k * pow2 ?r = of_int m"
  proof (cases "?e + int j = 53")
    case True
    then have "pow2 53 \<le> of_int k"
      using \<open>pow2 (?e + int j) \<le> of_int k\<close> by simp
    then have "k = 2 ^ 53"
      using assms(2) by (simp add: pow2_53)
    moreover have "?r = -1" using True by simp
    ultimately have "of_int k * pow2 ?r = of_int (2 ^ 52)"
      by (simp only:) (simp add: pow2_def)
    then show ?thesis by blast
  next
    case False
    then have "of_int k * pow2 ?r = of_int (k * 2 ^ nat ?r)"
      using e by (simp add: pow2_def)
    then show ?thesis by blast
  qed
  then obtain m where "of_int k * pow2 ?r = of_int m" by blast
  with scaled have m: "?q / pow2 (?e - 52) = of_int m" by simp
  then have "fround_pos ?q = of_int m * pow2 (?e - 52)"
    by (simp add: fround_pos_def Let_def)
  also have "\<dots> = ?q" by (simp flip: m)
  finally show ?thesis .
qed

lemma fround_pos_pos: "0 < q \<Longrightarrow> 0 < fround_pos q"
  using fround_pos_bounds(1) [of q] pow2_pos [of "ilog2 q"] by linarith

interpretation fround: rounding fround
proof unfold_locales
  show "fround p \<le> fround q" if "p \<le> q" for p q
    using that fround_pos_mono [of p q] fround_pos_mono [of "- q" "- p"]
      fround_pos_pos [of q] fround_pos_pos [of "- p"]
    by (auto simp: fround_def)
  show "fround (of_int k / 2 ^ j) = of_int k / 2 ^ j" if "\<bar>k\<bar> \<le> 2 ^ 53" for k j
    using that fround_pos_exact [of k j] fround_pos_exact [of "- k" j]
    by (auto simp: fround_def divide_less_0_iff zero_less_divide_iff)
qed


section \<open>Durations in whole seconds\<close>

text \<open>Below \<open>2 ^ 22\<close> seconds (48 days) \<open>int(d.Seconds())\<close> is the whole number of seconds:
  the fraction, at most \<open>1 - 10 ^ -9\<close>, is not rounded up to the next second.\<close>

lemma int_of_Seconds:
  assumes "0 \<le> d" and "d < 2 ^ 22 * Second"
  shows "int_of_float (duration_Seconds d) = d div Second"
proof -
  let ?s = "d div Second" and ?n = "d mod Second"
  let ?f = "fround (of_int ?n / of_int Second)"
  have s: "0 \<le> ?s" "?s < 2 ^ 22" and n: "0 \<le> ?n" "?n < Second"
    using assms by auto
  have "of_int ?n / of_int Second \<le> (of_int (2 ^ 30 - 1) / 2 ^ 30 :: rat)"
  proof -
    have "?n * 2 ^ 30 \<le> (2 ^ 30 - 1) * Second" using n by simp
    then have "(of_int (?n * 2 ^ 30) :: rat) \<le> of_int ((2 ^ 30 - 1) * Second)"
      by (simp only: of_int_le_iff)
    then show ?thesis by (simp add: field_simps)
  qed
  then have f: "0 \<le> ?f" "?f \<le> of_int (2 ^ 30 - 1) / 2 ^ 30"
    using fround.rnd_nonneg [of "of_int ?n / of_int Second"] n
      fround.rnd_le_dyadic [of "2 ^ 30 - 1" "of_int ?n / of_int Second" 30] by simp_all
  then have "of_int ?s + ?f \<le> of_int (?s * 2 ^ 30 + (2 ^ 30 - 1)) / 2 ^ 30"
    by (simp add: field_simps)
  then have "fround (of_int ?s + ?f) \<le> of_int (?s * 2 ^ 30 + (2 ^ 30 - 1)) / 2 ^ 30"
    using s by (intro fround.rnd_le_dyadic) auto
  also have "\<dots> < of_int (?s + 1)" by (simp add: field_simps)
  finally have hi: "fround (of_int ?s + ?f) < of_int (?s + 1)" .
  have lo: "of_int ?s \<le> fround (of_int ?s + ?f)"
    using f s by (intro fround.rnd_ge_int) auto
  have "duration_Seconds d = fround (of_int ?s + ?f)"
    using s n fround.rnd_int [of ?s] fround.rnd_int [of ?n] fround.rnd_int [of Second]
      sdiv_nonneg [OF assms(1), of Second] smod_nonneg [OF assms(1), of Second]
    by (simp add: duration_Seconds_def float_add_def float_div_def float_of_int_def)
  then show ?thesis
    using hi lo s by (simp add: int_of_float_def floor_eq_iff order_trans [OF _ lo])
qed

lemma duration_Seconds_zero [simp]: "duration_Seconds 0 = 0"
  using fround.rnd_zero fround.rnd_int [of Second]
  by (simp add: duration_Seconds_def float_add_def float_div_def float_of_int_def)

end
