(* ===== verification/Metrics.thy ===== *)
theory Metrics
  imports Float64 "HOL-Library.Multiset"
begin

text \<open>
  \<open>metrics.go\<close> and the type \<open>Metrics\<close> of \<open>types.go\<close>: the counters, latencies and rates
  of one generator. Every method takes its lock for its whole body, so each is one step
  from a metrics value to the next; a reading of \<open>time.Now\<close> is an argument.
\<close>

section \<open>State\<close>

record Metrics =
  IDsGenerated :: int
  ClockDriftEvents :: int
  WorkerIDConflicts :: int
  SequenceOverflows :: int
  GenerationLatency :: int
  AverageLatency :: int
  P95Latency :: int
  P99Latency :: int
  MaxLatency :: int
  MinLatency :: int
  CacheHitRate :: float64
  CacheHits :: int
  CacheMisses :: int
  CacheRefills :: int
  IDGenerationRate :: float64
  PeakGenerationRate :: float64
  GenerationErrors :: int
  RedisErrors :: int
  TimeoutErrors :: int
  ValidationErrors :: int
  RedisConnectionPool :: int
  ActiveConnections :: int
  IdleConnections :: int
  StartTime :: time
  LastGenerationTime :: time
  UptimeDuration :: int
  LatencyHistogram :: "string \<rightharpoonup> int"

text \<open>A composite literal leaves the fields it does not name at their zero values.\<close>

definition zero_Metrics :: Metrics where
  "zero_Metrics = \<lparr>IDsGenerated = 0, ClockDriftEvents = 0, WorkerIDConflicts = 0,
     SequenceOverflows = 0, GenerationLatency = 0, AverageLatency = 0, P95Latency = 0,
     P99Latency = 0, MaxLatency = 0, MinLatency = 0, CacheHitRate = 0, CacheHits = 0,
     CacheMisses = 0, CacheRefills = 0, IDGenerationRate = 0, PeakGenerationRate = 0,
     GenerationErrors = 0, RedisErrors = 0, TimeoutErrors = 0, ValidationErrors = 0,
     RedisConnectionPool = 0, ActiveConnections = 0, IdleConnections = 0,
     StartTime = zero_time, LastGenerationTime = zero_time, UptimeDuration = 0,
     LatencyHistogram = Map.empty\<rparr>"

definition NewSnowflakeMetrics :: "time \<Rightarrow> Metrics" where
  "NewSnowflakeMetrics now = zero_Metrics\<lparr>StartTime := now, LatencyHistogram := Map.empty,
     MinLatency := Hour\<rparr>"

section \<open>Recording\<close>

text \<open>The bucket labels; the Greek mu is the two bytes CE BC of its UTF-8 encoding.\<close>

definition micro_s :: string where
  "micro_s = [CHR 0xCE, CHR 0xBC, CHR ''s'']"

definition latencyBucket :: "int \<Rightarrow> string" where
  "latencyBucket latency =
     (if latency < Microsecond then ''0-1'' @ micro_s
      else if latency < 10 * Microsecond then ''1-10'' @ micro_s
      else if latency < 100 * Microsecond then ''10-100'' @ micro_s
      else if latency < Millisecond then ''100'' @ micro_s @ ''-1ms''
      else if latency < 5 * Millisecond then ''1-5ms''
      else if latency < 10 * Millisecond then ''5-10ms''
      else if latency < 50 * Millisecond then ''10-50ms''
      else ''50ms+'')"

definition updateLatencyHistogram :: "int \<Rightarrow> Metrics \<Rightarrow> Metrics" where
  "updateLatencyHistogram latency m =
     (let bucket = latencyBucket latency;
          old = (case LatencyHistogram m bucket of None \<Rightarrow> 0 | Some v \<Rightarrow> v)
      in m\<lparr>LatencyHistogram := (LatencyHistogram m)(bucket \<mapsto> i64 (old + 1))\<rparr>)"

definition recordLatency :: "int \<Rightarrow> Metrics \<Rightarrow> Metrics" where
  "recordLatency latency m =
     (let m = m\<lparr>GenerationLatency := latency\<rparr>;
          m = (if latency > MaxLatency m then m\<lparr>MaxLatency := latency\<rparr> else m)
      in if latency < MinLatency m then m\<lparr>MinLatency := latency\<rparr> else m)"

definition recordCacheAccess :: "bool \<Rightarrow> Metrics \<Rightarrow> Metrics" where
  "recordCacheAccess cacheHit m =
     (let m = (if cacheHit then m\<lparr>CacheHits := i64 (CacheHits m + 1)\<rparr>
               else m\<lparr>CacheMisses := i64 (CacheMisses m + 1)\<rparr>);
          totalCacheAccess = i64 (CacheHits m + CacheMisses m)
      in if totalCacheAccess > 0
         then m\<lparr>CacheHitRate := float_div (float_of_int (CacheHits m))
                                         (float_of_int totalCacheAccess)\<rparr>
         else m)"

definition recordRate :: "Metrics \<Rightarrow> Metrics" where
  "recordRate m =
     (if duration_Seconds (UptimeDuration m) > 0
      then let m = m\<lparr>IDGenerationRate := float_div (float_of_int (IDsGenerated m))
                                                  (duration_Seconds (UptimeDuration m))\<rparr>
           in if IDGenerationRate m > PeakGenerationRate m
              then m\<lparr>PeakGenerationRate := IDGenerationRate m\<rparr> else m
      else m)"

definition RecordIDGeneration :: "time \<Rightarrow> int \<Rightarrow> bool \<Rightarrow> Metrics \<Rightarrow> Metrics" where
  "RecordIDGeneration now latency cacheHit m =
     (let m = m\<lparr>IDsGenerated := i64 (IDsGenerated m + 1)\<rparr>;
          m = m\<lparr>LastGenerationTime := now\<rparr>;
          m = m\<lparr>UptimeDuration := time_Sub (LastGenerationTime m) (StartTime m)\<rparr>;
          m = recordLatency latency m;
          m = recordCacheAccess cacheHit m;
          m = updateLatencyHistogram latency m
      in recordRate m)"

definition RecordCacheRefill :: "Metrics \<Rightarrow> Metrics" where
  "RecordCacheRefill m = m\<lparr>CacheRefills := i64 (CacheRefills m + 1)\<rparr>"

definition RecordError :: "string \<Rightarrow> Metrics \<Rightarrow> Metrics" where
  "RecordError errorType m =
     (if errorType = ''generation'' then m\<lparr>GenerationErrors := i64 (GenerationErrors m + 1)\<rparr>
      else if errorType = ''redis'' then m\<lparr>RedisErrors := i64 (RedisErrors m + 1)\<rparr>
      else if errorType = ''timeout'' then m\<lparr>TimeoutErrors := i64 (TimeoutErrors m + 1)\<rparr>
      else if errorType = ''validation'' then m\<lparr>ValidationErrors := i64 (ValidationErrors m + 1)\<rparr>
      else m)"

definition RecordClockDrift :: "Metrics \<Rightarrow> Metrics" where
  "RecordClockDrift m = m\<lparr>ClockDriftEvents := i64 (ClockDriftEvents m + 1)\<rparr>"

definition RecordSequenceOverflow :: "Metrics \<Rightarrow> Metrics" where
  "RecordSequenceOverflow m = m\<lparr>SequenceOverflows := i64 (SequenceOverflows m + 1)\<rparr>"

definition UpdateConnectionMetrics :: "int \<Rightarrow> int \<Rightarrow> int \<Rightarrow> Metrics \<Rightarrow> Metrics" where
  "UpdateConnectionMetrics poolSize active idle m =
     m\<lparr>RedisConnectionPool := poolSize, ActiveConnections := active, IdleConnections := idle\<rparr>"

section \<open>Percentiles\<close>

text \<open>\<open>CalculatePercentiles\<close> sorts the caller's slice in place, so it returns the slice too.
  \<open>sort.Slice\<close> is not stable, which equal durations cannot tell.\<close>

fun sumLatencies :: "int \<Rightarrow> int list \<Rightarrow> int" where
  "sumLatencies acc [] = acc"
| "sumLatencies acc (latency # rest) = sumLatencies (i64 (acc + latency)) rest"

definition percentileIndex :: "int \<Rightarrow> rat \<Rightarrow> int" where
  "percentileIndex n p =
     (let idx = int_of_float (float_mult (float_of_int n) (fround p))
      in if idx \<ge> n then n - 1 else idx)"

definition CalculatePercentiles :: "int list \<Rightarrow> Metrics \<Rightarrow> int list \<times> Metrics" where
  "CalculatePercentiles latencies m =
     (if latencies = [] then (latencies, m)
      else let latencies = sort latencies;
               n = int (length latencies);
               sumL = sumLatencies 0 latencies;
               m = m\<lparr>AverageLatency := i64 (sumL sdiv n)\<rparr>;
               m = m\<lparr>P95Latency := latencies ! nat (percentileIndex n (95 / 100))\<rparr>;
               m = m\<lparr>P99Latency := latencies ! nat (percentileIndex n (99 / 100))\<rparr>
           in (latencies, m))"

section \<open>Snapshot and reset\<close>

text \<open>The copy loop over the histogram: every entry, and no other.\<close>

definition copyHistogram :: "(string \<rightharpoonup> int) \<Rightarrow> (string \<rightharpoonup> int)" where
  "copyHistogram h = (\<lambda>k. case h k of None \<Rightarrow> None | Some v \<Rightarrow> Some v)"

definition GetSnapshot :: "Metrics \<Rightarrow> Metrics" where
  "GetSnapshot m = zero_Metrics\<lparr>
     IDsGenerated := IDsGenerated m, ClockDriftEvents := ClockDriftEvents m,
     WorkerIDConflicts := WorkerIDConflicts m, SequenceOverflows := SequenceOverflows m,
     GenerationLatency := GenerationLatency m, AverageLatency := AverageLatency m,
     P95Latency := P95Latency m, P99Latency := P99Latency m, MaxLatency := MaxLatency m,
     MinLatency := MinLatency m, CacheHitRate := CacheHitRate m, CacheHits := CacheHits m,
     CacheMisses := CacheMisses m, CacheRefills := CacheRefills m,
     IDGenerationRate := IDGenerationRate m, PeakGenerationRate := PeakGenerationRate m,
     GenerationErrors := GenerationErrors m, RedisErrors := RedisErrors m,
     TimeoutErrors := TimeoutErrors m, ValidationErrors := ValidationErrors m,
     RedisConnectionPool := RedisConnectionPool m, ActiveConnections := ActiveConnections m,
     IdleConnections := IdleConnections m, StartTime := StartTime m,
     LastGenerationTime := LastGenerationTime m, UptimeDuration := UptimeDuration m,
     LatencyHistogram := copyHistogram (LatencyHistogram m)\<rparr>"

definition Reset :: "time \<Rightarrow> Metrics \<Rightarrow> Metrics" where
  "Reset now m = m\<lparr>IDsGenerated := 0, ClockDriftEvents := 0, WorkerIDConflicts := 0,
     SequenceOverflows := 0, GenerationLatency := 0, AverageLatency := 0, P95Latency := 0,
     P99Latency := 0, MaxLatency := 0, MinLatency := Hour, CacheHitRate := 0, CacheHits := 0,
     CacheMisses := 0, CacheRefills := 0, IDGenerationRate := 0, PeakGenerationRate := 0,
     GenerationErrors := 0, RedisErrors := 0, TimeoutErrors := 0, ValidationErrors := 0,
     RedisConnectionPool := 0, ActiveConnections := 0, IdleConnections := 0,
     StartTime := now, LastGenerationTime := zero_time, UptimeDuration := 0,
     LatencyHistogram := Map.empty\<rparr>"


section \<open>The snapshot is complete, a reset is a fresh start\<close>

lemma copyHistogram_id [simp]: "copyHistogram h = h"
  by (auto simp: copyHistogram_def fun_eq_iff split: option.splits)

lemma GetSnapshot_complete: "GetSnapshot m = m"
  by (cases m) (simp add: GetSnapshot_def zero_Metrics_def)

lemma Reset_fresh: "Reset now m = NewSnowflakeMetrics now"
  by (cases m) (simp add: Reset_def NewSnowflakeMetrics_def zero_Metrics_def)

section \<open>The histogram\<close>

definition bucketLabels :: "string list" where
  "bucketLabels = [''0-1'' @ micro_s, ''1-10'' @ micro_s, ''10-100'' @ micro_s,
     ''100'' @ micro_s @ ''-1ms'', ''1-5ms'', ''5-10ms'', ''10-50ms'', ''50ms+'']"

lemma latencyBucket_label: "latencyBucket latency \<in> set bucketLabels"
  by (simp add: latencyBucket_def bucketLabels_def)

lemma bucketLabels_distinct: "distinct bucketLabels"
  by (simp add: bucketLabels_def micro_s_def)

definition histCount :: "(string \<rightharpoonup> int) \<Rightarrow> string \<Rightarrow> int" where
  "histCount h k = (case h k of None \<Rightarrow> 0 | Some v \<Rightarrow> v)"

definition histTotal :: "(string \<rightharpoonup> int) \<Rightarrow> int" where
  "histTotal h = (\<Sum>k\<leftarrow>bucketLabels. histCount h k)"

lemma updateLatencyHistogram_hist:
  "LatencyHistogram (updateLatencyHistogram latency m) =
     (LatencyHistogram m)(latencyBucket latency \<mapsto>
        i64 (histCount (LatencyHistogram m) (latencyBucket latency) + 1))"
  by (simp add: updateLatencyHistogram_def histCount_def Let_def)

lemma histCount_upd [simp]: "histCount (h(k \<mapsto> v)) k' = (if k' = k then v else histCount h k')"
  by (simp add: histCount_def)

lemma sum_list_bump:
  assumes "distinct ks" and "k \<in> set ks"
  shows "(\<Sum>x\<leftarrow>ks. if x = k then f k + 1 else f x) = (\<Sum>x\<leftarrow>ks. f x) + (1 :: int)"
  using assms
proof (induction ks)
  case Nil
  then show ?case by simp
next
  case (Cons y ks)
  show ?case
  proof (cases "y = k")
    case True
    with Cons.prems have "map (\<lambda>x. if x = k then f k + 1 else f x) ks = map f ks"
      by (intro map_cong) auto
    then have "(\<Sum>x\<leftarrow>ks. if x = k then f k + 1 else f x) = (\<Sum>x\<leftarrow>ks. f x)"
      by (rule arg_cong)
    with True show ?thesis by simp
  next
    case False
    with Cons show ?thesis by simp
  qed
qed

lemma histTotal_bump:
  "histTotal (h(latencyBucket latency \<mapsto> histCount h (latencyBucket latency) + 1)) = histTotal h + 1"
  using sum_list_bump [OF bucketLabels_distinct latencyBucket_label, of latency "histCount h"]
  by (simp add: histTotal_def)

section \<open>The invariant of a metrics value\<close>

text \<open>Hits and misses are the generated IDs, and so is the total of the histogram; the rates
  are what the counters say; the peak is at least the current rate.\<close>

definition metrics_ok :: "Metrics \<Rightarrow> bool" where
  "metrics_ok m \<longleftrightarrow>
     0 \<le> CacheHits m \<and> 0 \<le> CacheMisses m \<and>
     CacheHits m + CacheMisses m = IDsGenerated m \<and> IDsGenerated m < 2 ^ 63 \<and>
     histTotal (LatencyHistogram m) = IDsGenerated m \<and>
     (\<forall>k. 0 \<le> histCount (LatencyHistogram m) k \<and> histCount (LatencyHistogram m) k \<le> IDsGenerated m) \<and>
     dom (LatencyHistogram m) \<subseteq> set bucketLabels \<and>
     CacheHitRate m = (if IDsGenerated m = 0 then 0
       else float_div (float_of_int (CacheHits m)) (float_of_int (IDsGenerated m))) \<and>
     IDGenerationRate m \<le> PeakGenerationRate m \<and>
     0 \<le> MaxLatency m \<and> MinLatency m \<le> Hour"

lemma metrics_ok_new: "metrics_ok (NewSnowflakeMetrics now)"
  by (simp add: metrics_ok_def NewSnowflakeMetrics_def zero_Metrics_def histTotal_def
      histCount_def bucketLabels_def)


text \<open>What one recorded generation does, field by field. Each part first, then the method.\<close>

lemma recordLatency_frame [step_simps]:
  "IDsGenerated (recordLatency latency m) = IDsGenerated m"
  "CacheHitRate (recordLatency latency m) = CacheHitRate m"
  "CacheHits (recordLatency latency m) = CacheHits m"
  "CacheMisses (recordLatency latency m) = CacheMisses m"
  "IDGenerationRate (recordLatency latency m) = IDGenerationRate m"
  "PeakGenerationRate (recordLatency latency m) = PeakGenerationRate m"
  "StartTime (recordLatency latency m) = StartTime m"
  "LastGenerationTime (recordLatency latency m) = LastGenerationTime m"
  "UptimeDuration (recordLatency latency m) = UptimeDuration m"
  "LatencyHistogram (recordLatency latency m) = LatencyHistogram m"
  by (simp_all add: recordLatency_def Let_def)

lemma recordLatency_sets [step_simps]:
  "GenerationLatency (recordLatency latency m) = latency"
  "MaxLatency (recordLatency latency m) = max (MaxLatency m) latency"
  "MinLatency (recordLatency latency m) = min (MinLatency m) latency"
  by (auto simp: recordLatency_def Let_def max_def min_def)

lemma recordCacheAccess_frame [step_simps]:
  "IDsGenerated (recordCacheAccess hit m) = IDsGenerated m"
  "GenerationLatency (recordCacheAccess hit m) = GenerationLatency m"
  "MaxLatency (recordCacheAccess hit m) = MaxLatency m"
  "MinLatency (recordCacheAccess hit m) = MinLatency m"
  "IDGenerationRate (recordCacheAccess hit m) = IDGenerationRate m"
  "PeakGenerationRate (recordCacheAccess hit m) = PeakGenerationRate m"
  "StartTime (recordCacheAccess hit m) = StartTime m"
  "LastGenerationTime (recordCacheAccess hit m) = LastGenerationTime m"
  "UptimeDuration (recordCacheAccess hit m) = UptimeDuration m"
  "LatencyHistogram (recordCacheAccess hit m) = LatencyHistogram m"
  by (simp_all add: recordCacheAccess_def Let_def)

lemma recordCacheAccess_sets [step_simps]:
  "CacheHits (recordCacheAccess hit m) = (if hit then i64 (CacheHits m + 1) else CacheHits m)"
  "CacheMisses (recordCacheAccess hit m) = (if hit then CacheMisses m else i64 (CacheMisses m + 1))"
  by (simp_all add: recordCacheAccess_def Let_def)

lemma recordCacheAccess_rate [step_simps]:
  "CacheHitRate (recordCacheAccess hit m) =
     (let h = CacheHits (recordCacheAccess hit m);
          n = i64 (h + CacheMisses (recordCacheAccess hit m))
      in if n > 0 then float_div (float_of_int h) (float_of_int n) else CacheHitRate m)"
  by (simp add: recordCacheAccess_def Let_def)

lemma updateLatencyHistogram_frame [step_simps]:
  "IDsGenerated (updateLatencyHistogram latency m) = IDsGenerated m"
  "GenerationLatency (updateLatencyHistogram latency m) = GenerationLatency m"
  "MaxLatency (updateLatencyHistogram latency m) = MaxLatency m"
  "MinLatency (updateLatencyHistogram latency m) = MinLatency m"
  "CacheHitRate (updateLatencyHistogram latency m) = CacheHitRate m"
  "CacheHits (updateLatencyHistogram latency m) = CacheHits m"
  "CacheMisses (updateLatencyHistogram latency m) = CacheMisses m"
  "IDGenerationRate (updateLatencyHistogram latency m) = IDGenerationRate m"
  "PeakGenerationRate (updateLatencyHistogram latency m) = PeakGenerationRate m"
  "StartTime (updateLatencyHistogram latency m) = StartTime m"
  "LastGenerationTime (updateLatencyHistogram latency m) = LastGenerationTime m"
  "UptimeDuration (updateLatencyHistogram latency m) = UptimeDuration m"
  by (simp_all add: updateLatencyHistogram_def Let_def)

lemma recordRate_frame [step_simps]:
  "IDsGenerated (recordRate m) = IDsGenerated m"
  "GenerationLatency (recordRate m) = GenerationLatency m"
  "MaxLatency (recordRate m) = MaxLatency m"
  "MinLatency (recordRate m) = MinLatency m"
  "CacheHitRate (recordRate m) = CacheHitRate m"
  "CacheHits (recordRate m) = CacheHits m"
  "CacheMisses (recordRate m) = CacheMisses m"
  "StartTime (recordRate m) = StartTime m"
  "LastGenerationTime (recordRate m) = LastGenerationTime m"
  "UptimeDuration (recordRate m) = UptimeDuration m"
  "LatencyHistogram (recordRate m) = LatencyHistogram m"
  by (simp_all add: recordRate_def Let_def)

lemma recordRate_peak:
  "IDGenerationRate m \<le> PeakGenerationRate m \<Longrightarrow>
     IDGenerationRate (recordRate m) \<le> PeakGenerationRate (recordRate m)"
  by (simp add: recordRate_def Let_def)

lemma RecordIDGeneration_counters:
  "IDsGenerated (RecordIDGeneration now latency hit m) = i64 (IDsGenerated m + 1)"
  "CacheHits (RecordIDGeneration now latency hit m) =
     (if hit then i64 (CacheHits m + 1) else CacheHits m)"
  "CacheMisses (RecordIDGeneration now latency hit m) =
     (if hit then CacheMisses m else i64 (CacheMisses m + 1))"
  by (simp_all add: RecordIDGeneration_def Let_def step_simps)

lemma RecordIDGeneration_latency:
  "GenerationLatency (RecordIDGeneration now latency hit m) = latency"
  "MaxLatency (RecordIDGeneration now latency hit m) = max (MaxLatency m) latency"
  "MinLatency (RecordIDGeneration now latency hit m) = min (MinLatency m) latency"
  by (simp_all add: RecordIDGeneration_def Let_def step_simps)

lemma RecordIDGeneration_histogram:
  "LatencyHistogram (RecordIDGeneration now latency hit m) =
     (LatencyHistogram m)(latencyBucket latency \<mapsto>
        i64 (histCount (LatencyHistogram m) (latencyBucket latency) + 1))"
  by (simp add: RecordIDGeneration_def Let_def step_simps updateLatencyHistogram_hist)

lemma RecordIDGeneration_hit_rate:
  "CacheHitRate (RecordIDGeneration now latency hit m) =
     (let h = CacheHits (RecordIDGeneration now latency hit m);
          n = i64 (h + CacheMisses (RecordIDGeneration now latency hit m))
      in if n > 0 then float_div (float_of_int h) (float_of_int n) else CacheHitRate m)"
  by (simp add: RecordIDGeneration_def Let_def step_simps)

lemma RecordIDGeneration_peak:
  "IDGenerationRate m \<le> PeakGenerationRate m \<Longrightarrow>
     IDGenerationRate (RecordIDGeneration now latency hit m)
       \<le> PeakGenerationRate (RecordIDGeneration now latency hit m)"
  by (simp add: RecordIDGeneration_def Let_def recordRate_peak step_simps)

lemma metrics_ok_bounds:
  assumes "metrics_ok m"
  shows "0 \<le> CacheHits m" "CacheHits m \<le> IDsGenerated m"
    "0 \<le> CacheMisses m" "CacheMisses m \<le> IDsGenerated m"
    "0 \<le> IDsGenerated m" "IDsGenerated m < 2 ^ 63"
  using assms by (auto simp: metrics_ok_def)

lemma metrics_ok_record:
  assumes ok: "metrics_ok m" and room: "IDsGenerated m + 1 < 2 ^ 63"
  shows "metrics_ok (RecordIDGeneration now latency hit m)"
proof -
  note b = metrics_ok_bounds [OF ok]
  let ?h = "histCount (LatencyHistogram m) (latencyBucket latency)"
  have h: "0 \<le> ?h" "?h \<le> IDsGenerated m"
    using ok by (auto simp: metrics_ok_def)
  have wrap: "i64 (IDsGenerated m + 1) = IDsGenerated m + 1"
    "i64 (CacheHits m + 1) = CacheHits m + 1" "i64 (CacheMisses m + 1) = CacheMisses m + 1"
    "i64 (?h + 1) = ?h + 1"
    using b h room by (auto intro!: i64_id)
  have split: "CacheHits m + CacheMisses m = IDsGenerated m"
    using ok by (simp add: metrics_ok_def)
  have tot: "histTotal (LatencyHistogram (RecordIDGeneration now latency hit m)) = IDsGenerated m + 1"
    using ok histTotal_bump [of "LatencyHistogram m" latency]
    by (simp add: RecordIDGeneration_histogram wrap metrics_ok_def)
  have cnt: "0 \<le> histCount (LatencyHistogram (RecordIDGeneration now latency hit m)) k \<and>
      histCount (LatencyHistogram (RecordIDGeneration now latency hit m)) k \<le> IDsGenerated m + 1" for k
    using ok h by (auto simp: RecordIDGeneration_histogram wrap metrics_ok_def intro: order_trans)
  have sum: "CacheHits (RecordIDGeneration now latency hit m) +
      CacheMisses (RecordIDGeneration now latency hit m) = IDsGenerated m + 1"
    using split by (simp add: RecordIDGeneration_counters wrap)
  then have rate: "CacheHitRate (RecordIDGeneration now latency hit m) =
      float_div (float_of_int (CacheHits (RecordIDGeneration now latency hit m)))
        (float_of_int (IDsGenerated m + 1))"
    using b by (simp add: RecordIDGeneration_hit_rate Let_def wrap)
  have dom: "dom (LatencyHistogram (RecordIDGeneration now latency hit m)) \<subseteq> set bucketLabels"
    using ok latencyBucket_label by (auto simp: RecordIDGeneration_histogram metrics_ok_def)
  have lat: "0 \<le> MaxLatency m" "MinLatency m \<le> Hour"
    and peak: "IDGenerationRate m \<le> PeakGenerationRate m"
    using ok by (simp_all add: metrics_ok_def)
  show ?thesis
    unfolding metrics_ok_def
    using b room sum tot cnt rate dom lat RecordIDGeneration_peak [OF peak]
    by (simp add: RecordIDGeneration_counters RecordIDGeneration_latency wrap
        le_max_iff_disj min_le_iff_disj)
qed

text \<open>The other methods touch none of the fields the invariant is about.\<close>

lemma metrics_ok_frame:
  "metrics_ok m \<Longrightarrow> metrics_ok (RecordCacheRefill m)"
  "metrics_ok m \<Longrightarrow> metrics_ok (RecordError e m)"
  "metrics_ok m \<Longrightarrow> metrics_ok (RecordClockDrift m)"
  "metrics_ok m \<Longrightarrow> metrics_ok (RecordSequenceOverflow m)"
  "metrics_ok m \<Longrightarrow> metrics_ok (UpdateConnectionMetrics p a i m)"
  "metrics_ok m \<Longrightarrow> metrics_ok (snd (CalculatePercentiles ls m))"
  by (simp_all add: metrics_ok_def RecordCacheRefill_def RecordError_def RecordClockDrift_def
      RecordSequenceOverflow_def UpdateConnectionMetrics_def CalculatePercentiles_def Let_def)


section \<open>A sequence of recorded generations\<close>

fun recordAll :: "Metrics \<Rightarrow> (time \<times> int \<times> bool) list \<Rightarrow> Metrics" where
  "recordAll m [] = m"
| "recordAll m ((now, latency, hit) # rs) = recordAll (RecordIDGeneration now latency hit m) rs"

lemma recordAll_ok:
  assumes "metrics_ok m" and "IDsGenerated m + int (length rs) < 2 ^ 63"
  shows "metrics_ok (recordAll m rs) \<and> IDsGenerated (recordAll m rs) = IDsGenerated m + int (length rs)
    \<and> CacheHits (recordAll m rs) = CacheHits m + int (length (filter (snd \<circ> snd) rs))"
  using assms
proof (induction m rs rule: recordAll.induct)
  case (1 m)
  then show ?case by simp
next
  case (2 m now latency hit rs)
  let ?m = "RecordIDGeneration now latency hit m"
  have ok: "metrics_ok ?m"
    using "2.prems" by (intro metrics_ok_record) auto
  have ids: "IDsGenerated ?m = IDsGenerated m + 1"
    and hits: "CacheHits ?m = CacheHits m + (if hit then 1 else 0)"
    using "2.prems" metrics_ok_bounds [OF "2.prems"(1)]
    by (auto simp: RecordIDGeneration_counters intro!: i64_id)
  from "2.IH" [OF ok] "2.prems"(2) show ?case
    by (simp add: ids hits)
qed

lemma recordAll_latencies:
  "MaxLatency (recordAll m rs) = fold max (map (fst \<circ> snd) rs) (MaxLatency m)"
  "MinLatency (recordAll m rs) = fold min (map (fst \<circ> snd) rs) (MinLatency m)"
  by (induction m rs rule: recordAll.induct)
     (simp_all add: RecordIDGeneration_latency max.commute min.commute)



section \<open>Percentiles\<close>

text \<open>A fraction below 1 whose product with the length stays below the length.\<close>

lemma percentileIndex_bounds:
  assumes "0 < n" and "n < 2 ^ 45" and "0 \<le> p" and "p \<le> of_int k / 2 ^ 7" and "0 < k" and "k < 2 ^ 7"
  shows "0 \<le> percentileIndex n p" and "percentileIndex n p < n"
    and "percentileIndex n p = \<lfloor>float_mult (float_of_int n) (fround p)\<rfloor>"
proof -
  let ?f = "float_mult (float_of_int n) (fround p)"
  have n: "float_of_int n = of_int n"
    using assms by (simp add: float_of_int_def fround.rnd_int)
  have "fround p \<le> of_int k / 2 ^ 7"
    using assms by (intro fround.rnd_le_dyadic) auto
  then have "of_int n * fround p \<le> of_int n * (of_int k / 2 ^ 7)"
    using assms(1) by (intro mult_left_mono) auto
  also have "\<dots> = of_int (n * k) / 2 ^ 7" by simp
  finally have "of_int n * fround p \<le> of_int (n * k) / 2 ^ 7" .
  moreover have "n * k \<le> 2 ^ 45 * 2 ^ 7"
    using assms by (intro mult_mono) auto
  ultimately have "?f \<le> of_int (n * k) / 2 ^ 7"
    unfolding float_mult_def n using assms by (intro fround.rnd_le_dyadic) auto
  also have "\<dots> < of_int n"
    using assms by (simp add: pos_divide_less_eq)
  finally have lt: "?f < of_int n" .
  have ge: "0 \<le> ?f"
    unfolding float_mult_def n using assms fround.rnd_nonneg by simp
  then have "int_of_float ?f = \<lfloor>?f\<rfloor>" "0 \<le> \<lfloor>?f\<rfloor>" "\<lfloor>?f\<rfloor> < n"
    using lt by (simp_all add: int_of_float_def floor_less_iff)
  then show "0 \<le> percentileIndex n p" and "percentileIndex n p < n"
    and "percentileIndex n p = \<lfloor>?f\<rfloor>"
    by (simp_all add: percentileIndex_def)
qed

lemma percentileIndex_95:
  assumes "0 < n" and "n < 2 ^ 45"
  shows "0 \<le> percentileIndex n (95 / 100)" "percentileIndex n (95 / 100) < n"
    "percentileIndex n (95 / 100) = \<lfloor>float_mult (float_of_int n) (fround (95 / 100))\<rfloor>"
  using percentileIndex_bounds [OF assms, of "95 / 100" 122] by simp_all

lemma percentileIndex_99:
  assumes "0 < n" and "n < 2 ^ 45"
  shows "0 \<le> percentileIndex n (99 / 100)" "percentileIndex n (99 / 100) < n"
    "percentileIndex n (99 / 100) = \<lfloor>float_mult (float_of_int n) (fround (99 / 100))\<rfloor>"
  using percentileIndex_bounds [OF assms, of "99 / 100" 127] by simp_all

lemma percentileIndex_mono:
  assumes "0 < n" and "n < 2 ^ 45"
  shows "percentileIndex n (95 / 100) \<le> percentileIndex n (99 / 100)"
proof -
  have "of_int n * fround (95 / 100) \<le> of_int n * fround (99 / 100)"
    using assms by (intro mult_left_mono fround.rnd_mono) auto
  then have "float_mult (float_of_int n) (fround (95 / 100)) \<le> float_mult (float_of_int n) (fround (99 / 100))"
    using assms by (simp add: float_mult_def float_of_int_def fround.rnd_int fround.rnd_mono)
  then show ?thesis
    by (simp only: percentileIndex_95 [OF assms] percentileIndex_99 [OF assms] floor_mono)
qed


lemma sumLatencies_sum:
  assumes "\<forall>x \<in> set ls. 0 \<le> x" and "0 \<le> acc" and "acc + sum_list ls < 2 ^ 63"
  shows "sumLatencies acc ls = acc + sum_list ls"
  using assms
proof (induction acc ls rule: sumLatencies.induct)
  case (1 acc)
  then show ?case by simp
next
  case (2 acc x ls)
  have "0 \<le> sum_list ls"
    using "2.prems"(1) by (intro sum_list_nonneg) auto
  with "2.prems" have w: "i64 (acc + x) = acc + x"
    by (intro i64_id) auto
  have "sumLatencies (i64 (acc + x)) ls = i64 (acc + x) + sum_list ls"
    using "2.prems" by (intro "2.IH") (auto simp: w)
  then show ?case by (simp add: w)
qed

text \<open>At least \<open>i + 1\<close> elements of a sorted list are at most its element at position \<open>i\<close>.\<close>

lemma sorted_rank:
  assumes "sorted xs" and "i < length xs"
  shows "i < length (filter (\<lambda>x. x \<le> xs ! i) xs)"
proof -
  have "\<forall>x \<in> set (take (Suc i) xs). x \<le> xs ! i"
    using assms by (auto simp: in_set_conv_nth sorted_nth_mono)
  then have "filter (\<lambda>x. x \<le> xs ! i) (take (Suc i) xs) = take (Suc i) xs"
    by (simp add: filter_id_conv)
  moreover have "filter (\<lambda>x. x \<le> xs ! i) xs =
      filter (\<lambda>x. x \<le> xs ! i) (take (Suc i) xs) @ filter (\<lambda>x. x \<le> xs ! i) (drop (Suc i) xs)"
    by (simp flip: filter_append)
  ultimately show ?thesis using assms by simp
qed

lemma length_filter_sort: "length (filter P (sort xs)) = length (filter P xs)"
proof -
  have "mset (filter P (sort xs)) = mset (filter P xs)" by (simp add: mset_filter)
  then show ?thesis by (rule mset_eq_length)
qed



text \<open>A snapshot equals the metrics it is taken of, field by field and bucket by bucket,
  and a reset equals a fresh start at the time of the reset.\<close>

theorem snapshot_and_reset:
  "GetSnapshot m = m \<and> Reset now m = NewSnowflakeMetrics now"
  by (simp add: GetSnapshot_complete Reset_fresh)

end
