(* ===== verification/Prom_Metrics.thy ===== *)
theory Prom_Metrics
  imports Float64
begin

text \<open>
  The package's Prometheus collectors (\<open>prom_metrics.go\<close>): how they are declared, and the calls
  made on them. The client library is not part of the repository, so the model says which
  method is called on which collector, in which order, and nothing about what the library does
  with it: an operation appends its calls to a log.
\<close>

datatype prom_call =
  PromIDsGenerated \<comment> \<open>\<open>promIDsGeneratedTotal.Inc()\<close>\<close>
| PromGenerationErrors \<comment> \<open>\<open>promGenerationErrorsTotal.Inc()\<close>\<close>
| PromClockDriftEvents \<comment> \<open>\<open>promClockDriftEventsTotal.Inc()\<close>\<close>
| PromSequenceOverflows \<comment> \<open>\<open>promSequenceOverflowsTotal.Inc()\<close>\<close>
| PromWorkerIDFailures \<comment> \<open>\<open>promWorkerIDFailuresTotal.Inc()\<close>\<close>
| PromHeartbeatFailures \<comment> \<open>\<open>promWorkerIDHeartbeatFailuresTotal.Inc()\<close>\<close>
| PromLatency float64 \<comment> \<open>\<open>promGenerationLatency.Observe(seconds)\<close>\<close>
| PromWorkerIDGauge float64 \<comment> \<open>\<open>promWorkerIDGauge.Set(value)\<close>\<close>

section \<open>The declarations\<close>

datatype collector_kind = Counter | Histogram "float64 list" | Gauge

record collector =
  co_kind :: collector_kind
  co_Namespace :: string
  co_Subsystem :: string
  co_Name :: string
  co_Help :: string

definition eon_id_collector :: "collector_kind \<Rightarrow> string \<Rightarrow> string \<Rightarrow> collector" where
  "eon_id_collector kind name help =
     \<lparr>co_kind = kind, co_Namespace = ''lynx'', co_Subsystem = ''eon_id'', co_Name = name, co_Help = help\<rparr>"

definition latencyBuckets :: "float64 list" where
  "latencyBuckets = map fround [1 / 1000000, 1 / 100000, 1 / 10000, 1 / 1000, 1 / 200, 1 / 100, 1 / 20, 1 / 10]"

definition collectors :: "collector list" where
  "collectors =
     [eon_id_collector Counter ''ids_generated_total'' ''Total number of Snowflake IDs successfully generated.'',
      eon_id_collector Counter ''generation_errors_total'' ''Total number of ID generation failures.'',
      eon_id_collector Counter ''clock_drift_events_total''
        ''Total number of clock backward (drift) events detected during ID generation.'',
      eon_id_collector Counter ''sequence_overflows_total''
        ''Total number of sequence overflow events (sequence space exhausted within a millisecond).'',
      eon_id_collector Counter ''worker_id_failures_total''
        ''Total number of worker ID registration or heartbeat failures.'',
      eon_id_collector Counter ''worker_id_heartbeat_failures_total''
        ''Total number of worker ID heartbeat failures (each missed beat increments by 1).'',
      eon_id_collector (Histogram latencyBuckets) ''generation_latency_seconds''
        ''Latency of individual ID generation calls in seconds.'',
      eon_id_collector Gauge ''worker_id'' ''Current registered worker ID (-1 if not yet registered).'']"

text \<open>The full name of a collector, and what the library requires of a declaration.\<close>

definition fqName :: "collector \<Rightarrow> string" where
  "fqName c = co_Namespace c @ ''_'' @ co_Subsystem c @ ''_'' @ co_Name c"

definition metric_name :: "string \<Rightarrow> bool" where
  "metric_name s \<longleftrightarrow> s \<noteq> [] \<and>
     list_all (\<lambda>c. c = CHR ''_'' \<or> 97 \<le> (of_char c :: nat) \<and> (of_char c :: nat) \<le> 122) s"

definition declaration_ok :: "collector \<Rightarrow> bool" where
  "declaration_ok c \<longleftrightarrow> metric_name (fqName c) \<and>
     (case co_kind c of Histogram bs \<Rightarrow> sorted_wrt (<) bs | _ \<Rightarrow> True)"

text \<open>The program starts: \<open>promauto\<close> panics on a name that is taken or malformed and on buckets
  that do not increase, and finds neither here.\<close>

lemma latencyBuckets_increase: "sorted_wrt (<) latencyBuckets"
  by code_simp

lemma collectors_ok: "list_all declaration_ok collectors \<and> distinct (map fqName collectors)"
  by (simp add: collectors_def eon_id_collector_def declaration_ok_def fqName_def metric_name_def latencyBuckets_increase)

end
