(* ===== verification/Gen_Config.thy ===== *)
theory Gen_Config
  imports Prelude
begin

text \<open>
  The generator's own configuration (\<open>GeneratorConfig\<close> of \<open>generator.go\<close>) and its
  validation. A validation reads the clock and the host's calendar: \<open>host\<close> carries the
  readings of \<open>time.Now\<close> in the order in which one call makes them, and
  \<open>t.AddDate(years, 0, 0)\<close>, which depends on the host's time zone data.
\<close>

section \<open>The host\<close>

record host =
  clock :: "nat \<Rightarrow> time"
  addYears :: "int \<Rightarrow> time \<Rightarrow> time"

section \<open>Constants of types.go\<close>

definition DefaultEpoch :: int where "DefaultEpoch = 1609459200000"
definition DefaultDatacenterBits :: int where "DefaultDatacenterBits = 5"
definition DefaultWorkerBits :: int where "DefaultWorkerBits = 5"
definition DefaultSequenceBits :: int where "DefaultSequenceBits = 12"
definition DefaultMaxClockDrift :: int where "DefaultMaxClockDrift = 5 * Second"
definition DefaultSequenceCacheSize :: int where "DefaultSequenceCacheSize = 1000"
definition MaxClockBackwardWait :: int where "MaxClockBackwardWait = 5 * Second"
definition ClockDriftActionWait :: string where "ClockDriftActionWait = ''wait''"
definition ClockDriftActionError :: string where "ClockDriftActionError = ''error''"
definition ClockDriftActionIgnore :: string where "ClockDriftActionIgnore = ''ignore''"

definition DefaultRedisKeyPrefix :: string where "DefaultRedisKeyPrefix = ''lynx:eon-id:''"
definition DefaultWorkerIDTTL :: int where "DefaultWorkerIDTTL = 30 * Second"
definition DefaultHeartbeatInterval :: int where "DefaultHeartbeatInterval = 10 * Second"

lemmas action_defs = ClockDriftActionWait_def ClockDriftActionError_def ClockDriftActionIgnore_def

section \<open>Configuration and errors\<close>

record GeneratorConfig =
  CustomEpoch :: int
  DatacenterIDBits :: int
  WorkerIDBits :: int
  SequenceBits :: int
  EnableClockDriftProtection :: bool
  MaxClockDrift :: int
  ClockDriftAction :: string
  EnableSequenceCache :: bool
  SequenceCacheSize :: int
  EnableMetrics :: bool

definition DefaultGeneratorConfig :: GeneratorConfig where
  "DefaultGeneratorConfig = \<lparr>CustomEpoch = DefaultEpoch, DatacenterIDBits = 5, WorkerIDBits = 5,
     SequenceBits = 12, EnableClockDriftProtection = True, MaxClockDrift = DefaultMaxClockDrift,
     ClockDriftAction = ClockDriftActionWait, EnableSequenceCache = False,
     SequenceCacheSize = DefaultSequenceCacheSize, EnableMetrics = True\<rparr>"

text \<open>One constructor per \<open>fmt.Errorf\<close>, with the values its message prints.\<close>

datatype config_error =
  TotalBitsExceeded int
| DatacenterBitsRange int
| WorkerBitsRange int
| SequenceBitsRange int
| EpochInFuture int int
| EpochTooOld int int
| EpochShortLifetime int
| InvalidDriftAction string
| DriftNotPositive
| DriftTooLarge int
| DriftTooSmall int
| CacheSizeNotPositive
| CacheSizeExceeds int int
| CacheSizeTooSmall int
| ExcessiveDatacenters int int
| ExcessiveWorkers int int
| TooFewSequences int int
| UnbalancedSequence int int

section \<open>Validation\<close>

definition validateEpoch :: "host \<Rightarrow> GeneratorConfig \<Rightarrow> config_error option" where
  "validateEpoch h c =
     (let currentTimestamp = UnixMilli (clock h 0);
          fiftyYearsAgo = UnixMilli (addYears h (-50) (clock h 1));
          maxFutureTime = i64 (CustomEpoch c + (shl64 1 41 - 1))
      in reject_if (CustomEpoch c > currentTimestamp) (EpochInFuture (CustomEpoch c) currentTimestamp) (
         reject_if (CustomEpoch c < fiftyYearsAgo) (EpochTooOld (CustomEpoch c) fiftyYearsAgo) (
         reject_if (maxFutureTime < UnixMilli (addYears h 10 (clock h 2))) (EpochShortLifetime maxFutureTime)
         None)))"

definition validateClockDrift :: "GeneratorConfig \<Rightarrow> config_error option" where
  "validateClockDrift c =
     reject_if (ClockDriftAction c \<notin> {ClockDriftActionWait, ClockDriftActionError, ClockDriftActionIgnore})
       (InvalidDriftAction (ClockDriftAction c)) (
     if EnableClockDriftProtection c then
       reject_if (MaxClockDrift c \<le> 0) DriftNotPositive (
       reject_if (MaxClockDrift c > 1 * Hour) (DriftTooLarge (MaxClockDrift c)) (
       reject_if (MaxClockDrift c < 100 * Millisecond) (DriftTooSmall (MaxClockDrift c)) None))
     else None)"

definition validateCache :: "GeneratorConfig \<Rightarrow> config_error option" where
  "validateCache c =
     (if EnableSequenceCache c then
        reject_if (SequenceCacheSize c \<le> 0) CacheSizeNotPositive (
        let maxSequence = shl64 1 (SequenceBits c) in
        reject_if (SequenceCacheSize c > maxSequence) (CacheSizeExceeds (SequenceCacheSize c) maxSequence) (
        reject_if (SequenceCacheSize c < 10) (CacheSizeTooSmall (SequenceCacheSize c)) None))
      else None)"

definition totalBits :: "GeneratorConfig \<Rightarrow> int" where
  "totalBits c = i64 (i64 (DatacenterIDBits c + WorkerIDBits c) + SequenceBits c)"

definition validateBitAllocationEfficiency :: "GeneratorConfig \<Rightarrow> config_error option" where
  "validateBitAllocationEfficiency c =
     (let maxDatacenters = shl64 1 (DatacenterIDBits c);
          maxWorkers = shl64 1 (WorkerIDBits c);
          maxSequence = shl64 1 (SequenceBits c)
      in reject_if (DatacenterIDBits c > 0 \<and> maxDatacenters > 1024)
           (ExcessiveDatacenters (DatacenterIDBits c) maxDatacenters) (
         reject_if (maxWorkers > 65536) (ExcessiveWorkers (WorkerIDBits c) maxWorkers) (
         reject_if (maxSequence < 100) (TooFewSequences (SequenceBits c) maxSequence) (
         reject_if (SequenceBits c < totalBits c sdiv 3) (UnbalancedSequence (SequenceBits c) (totalBits c))
         None))))"

definition Validate :: "host \<Rightarrow> GeneratorConfig \<Rightarrow> config_error option" where
  "Validate h c =
     reject_if (totalBits c > 22) (TotalBitsExceeded (totalBits c)) (
     reject_if (DatacenterIDBits c < 0 \<or> DatacenterIDBits c > 10) (DatacenterBitsRange (DatacenterIDBits c)) (
     reject_if (WorkerIDBits c < 1 \<or> WorkerIDBits c > 20) (WorkerBitsRange (WorkerIDBits c)) (
     reject_if (SequenceBits c < 1 \<or> SequenceBits c > 20) (SequenceBitsRange (SequenceBits c)) (
     first_error (validateEpoch h c) (
     first_error (validateClockDrift c) (
     first_error (validateCache c) (
     validateBitAllocationEfficiency c)))))))"

section \<open>What validation accepts\<close>

text \<open>The accepted layouts, without the code's redundant checks: a sequence of at least 7 bits
  (128 per millisecond) leaves at most 15 for the other two fields.\<close>

definition layout_ok :: "int \<Rightarrow> int \<Rightarrow> int \<Rightarrow> bool" where
  "layout_ok d w s \<longleftrightarrow> 0 \<le> d \<and> d \<le> 10 \<and> 1 \<le> w \<and> 7 \<le> s \<and> s \<le> 20 \<and> d + w + s \<le> 22"

definition epoch_ok :: "host \<Rightarrow> int \<Rightarrow> bool" where
  "epoch_ok h e \<longleftrightarrow> e \<le> UnixMilli (clock h 0) \<and> UnixMilli (addYears h (-50) (clock h 1)) \<le> e
     \<and> UnixMilli (addYears h 10 (clock h 2)) \<le> i64 (e + (2 ^ 41 - 1))"

definition drift_ok :: "bool \<Rightarrow> int \<Rightarrow> string \<Rightarrow> bool" where
  "drift_ok enabled d action \<longleftrightarrow>
     action \<in> {ClockDriftActionWait, ClockDriftActionError, ClockDriftActionIgnore}
     \<and> (enabled \<longrightarrow> 100 * Millisecond \<le> d \<and> d \<le> Hour)"

definition cache_ok :: "bool \<Rightarrow> int \<Rightarrow> int \<Rightarrow> bool" where
  "cache_ok enabled n s \<longleftrightarrow> (enabled \<longrightarrow> 10 \<le> n \<and> n \<le> 2 ^ nat s)"

lemma validateEpoch_ok: "validateEpoch h c = None \<longleftrightarrow> epoch_ok h (CustomEpoch c)"
  by (auto simp: validateEpoch_def epoch_ok_def Let_def shl64_one)

lemma validateClockDrift_ok:
  "validateClockDrift c = None \<longleftrightarrow>
     drift_ok (EnableClockDriftProtection c) (MaxClockDrift c) (ClockDriftAction c)"
  by (auto simp: validateClockDrift_def drift_ok_def)

lemma validateCache_ok:
  assumes "0 \<le> SequenceBits c" and "SequenceBits c \<le> 20"
  shows "validateCache c = None \<longleftrightarrow>
     cache_ok (EnableSequenceCache c) (SequenceCacheSize c) (SequenceBits c)"
  using assms by (auto simp: validateCache_def cache_ok_def Let_def shl64_one)

lemma pow2_nat_le_iff: "0 \<le> n \<Longrightarrow> (2 :: int) ^ nat n \<le> 2 ^ k \<longleftrightarrow> n \<le> int k"
  by (simp add: nat_le_iff)

lemma pow2_nat_ge_100: "0 \<le> n \<Longrightarrow> 100 \<le> (2 :: int) ^ nat n \<longleftrightarrow> 7 \<le> n"
proof
  assume n: "0 \<le> n" "100 \<le> (2 :: int) ^ nat n"
  show "7 \<le> n"
  proof (rule ccontr)
    assume "\<not> 7 \<le> n"
    with n have "nat n \<le> 6" by linarith
    then have "(2 :: int) ^ nat n \<le> 2 ^ 6" by (intro power_increasing) auto
    with n show False by simp
  qed
next
  assume "0 \<le> n" "7 \<le> n"
  then have "(2 :: int) ^ 7 \<le> 2 ^ nat n" by (intro power_increasing) auto
  then show "100 \<le> (2 :: int) ^ nat n" by simp
qed


lemma validateBitAllocationEfficiency_ok:
  assumes "0 \<le> DatacenterIDBits c" "DatacenterIDBits c \<le> 10" "1 \<le> WorkerIDBits c"
    "1 \<le> SequenceBits c" "SequenceBits c \<le> 20" "WorkerIDBits c \<le> 20"
    "DatacenterIDBits c + WorkerIDBits c + SequenceBits c \<le> 22"
  shows "validateBitAllocationEfficiency c = None \<longleftrightarrow> 7 \<le> SequenceBits c"
proof -
  have t: "totalBits c = DatacenterIDBits c + WorkerIDBits c + SequenceBits c"
    using assms by (simp add: totalBits_def i64_id)
  have d: "(2 :: int) ^ nat (DatacenterIDBits c) \<le> 2 ^ 10"
    using assms by (subst pow2_nat_le_iff) auto
  have w: "7 \<le> SequenceBits c \<Longrightarrow> (2 :: int) ^ nat (WorkerIDBits c) \<le> 2 ^ 16"
    using assms by (subst pow2_nat_le_iff) auto
  have s: "100 \<le> (2 :: int) ^ nat (SequenceBits c) \<longleftrightarrow> 7 \<le> SequenceBits c"
    using assms by (simp add: pow2_nat_ge_100)
  show ?thesis
    using assms d w s
    by (auto simp: validateBitAllocationEfficiency_def Let_def shl64_one t sdiv_nonneg)
qed

lemma Validate_accepts_aux:
  "Validate h c = None \<longleftrightarrow>
    layout_ok (DatacenterIDBits c) (WorkerIDBits c) (SequenceBits c) \<and>
    epoch_ok h (CustomEpoch c) \<and>
    drift_ok (EnableClockDriftProtection c) (MaxClockDrift c) (ClockDriftAction c) \<and>
    cache_ok (EnableSequenceCache c) (SequenceCacheSize c) (SequenceBits c)"
    (is "_ \<longleftrightarrow> ?rhs")
proof (cases "0 \<le> DatacenterIDBits c \<and> DatacenterIDBits c \<le> 10 \<and> 1 \<le> WorkerIDBits c \<and>
    WorkerIDBits c \<le> 20 \<and> 1 \<le> SequenceBits c \<and> SequenceBits c \<le> 20")
  case True
  then have t: "totalBits c = DatacenterIDBits c + WorkerIDBits c + SequenceBits c"
    by (simp add: totalBits_def i64_id)
  show ?thesis
    using True validateBitAllocationEfficiency_ok [of c] validateCache_ok [of c]
    by (auto simp: Validate_def t layout_ok_def validateEpoch_ok validateClockDrift_ok)
next
  case False
  then have "\<not> layout_ok (DatacenterIDBits c) (WorkerIDBits c) (SequenceBits c)"
    by (auto simp: layout_ok_def)
  with False show ?thesis
    by (auto simp: Validate_def)
qed

end
