(* ===== verification/Id_Layout.thy ===== *)
theory Id_Layout
  imports Prelude
begin

text \<open>
  The bit layout of an ID, on bare integers: what the shifts and ORs of \<open>tryGenerateID\<close>
  compute and what the shifts and masks of \<open>ParseID\<close> recover, for any widths of the
  datacenter, worker and sequence fields (\<open>d\<close>, \<open>w\<close> and \<open>s\<close> bits). \<open>packed\<close> is the
  positional number the layout stands for; the generator's expressions are related to it
  once here, and every property of IDs is proved about \<open>packed\<close>.
\<close>

section \<open>The code's expressions\<close>

text \<open>\<open>((timestamp - epoch) << tShift) | (dc << dShift) | (worker << wShift) | sequence\<close>\<close>

definition composeID :: "int \<Rightarrow> int \<Rightarrow> int \<Rightarrow> int \<Rightarrow> int \<Rightarrow> int \<Rightarrow> int \<Rightarrow> int" where
  "composeID tShift dShift wShift rel dc worker sequence =
     ((shl64 rel tShift OR shl64 dc dShift) OR shl64 worker wShift) OR sequence"

section \<open>The positional number\<close>

definition packed :: "nat \<Rightarrow> nat \<Rightarrow> nat \<Rightarrow> int \<Rightarrow> int \<Rightarrow> int \<Rightarrow> int \<Rightarrow> int" where
  "packed d w s t dc wk sq = ((t * 2 ^ d + dc) * 2 ^ w + wk) * 2 ^ s + sq"

definition fields_ok :: "nat \<Rightarrow> nat \<Rightarrow> nat \<Rightarrow> int \<Rightarrow> int \<Rightarrow> int \<Rightarrow> int \<Rightarrow> bool" where
  "fields_ok d w s t dc wk sq \<longleftrightarrow> 0 \<le> t \<and> t * 2 ^ (d + w + s) < 2 ^ 63 \<and>
     0 \<le> dc \<and> dc < 2 ^ d \<and> 0 \<le> wk \<and> wk < 2 ^ w \<and> 0 \<le> sq \<and> sq < 2 ^ s"

lemma field_append_bounds:
  fixes a b :: int
  assumes "0 \<le> b" and "b < 2 ^ n"
  shows "a * 2 ^ n \<le> a * 2 ^ n + b" and "a * 2 ^ n + b < (a + 1) * 2 ^ n"
  using assms by (simp_all add: algebra_simps)

lemma field_append_nonneg: "0 \<le> (a :: int) \<Longrightarrow> 0 \<le> b \<Longrightarrow> 0 \<le> a * 2 ^ n + b"
  by simp

text \<open>The number is below the next timestamp's first number, so it is below \<open>2 ^ 63\<close>.\<close>

lemma packed_bounds:
  assumes "fields_ok d w s t dc wk sq"
  shows "t * 2 ^ (d + w + s) \<le> packed d w s t dc wk sq"
    and "packed d w s t dc wk sq < (t + 1) * 2 ^ (d + w + s)"
proof -
  let ?a = "t * 2 ^ d + dc" let ?b = "?a * 2 ^ w + wk"
  note f = assms [unfolded fields_ok_def]
  have a: "t * 2 ^ d \<le> ?a" "?a + 1 \<le> (t + 1) * 2 ^ d"
    using field_append_bounds [of dc d t] f by auto
  have b: "?a * 2 ^ w \<le> ?b" "?b + 1 \<le> (?a + 1) * 2 ^ w"
    using field_append_bounds [of wk w ?a] f by auto
  have c: "?b * 2 ^ s \<le> packed d w s t dc wk sq" "packed d w s t dc wk sq < (?b + 1) * 2 ^ s"
    using field_append_bounds [of sq s ?b] f by (auto simp: packed_def)
  have e: "x * 2 ^ (d + w + s) = x * 2 ^ d * 2 ^ w * 2 ^ s" for x :: int
    by (simp add: power_add)
  have "t * 2 ^ d * 2 ^ w * 2 ^ s \<le> ?a * 2 ^ w * 2 ^ s"
    using a by (intro mult_right_mono) auto
  also have "\<dots> \<le> ?b * 2 ^ s"
    using b by (intro mult_right_mono) auto
  finally show "t * 2 ^ (d + w + s) \<le> packed d w s t dc wk sq"
    unfolding e using c by linarith
  have "(?b + 1) * 2 ^ s \<le> (?a + 1) * 2 ^ w * 2 ^ s"
    using b by (intro mult_right_mono) auto
  also have "\<dots> \<le> (t + 1) * 2 ^ d * 2 ^ w * 2 ^ s"
    using a by (intro mult_right_mono) auto
  finally show "packed d w s t dc wk sq < (t + 1) * 2 ^ (d + w + s)"
    unfolding e using c by linarith
qed

lemma packed_nonneg: "fields_ok d w s t dc wk sq \<Longrightarrow> 0 \<le> packed d w s t dc wk sq"
  by (simp add: fields_ok_def packed_def)

lemma packed_less:
  assumes "fields_ok d w s t dc wk sq" and "d + w + s \<le> 63"
  shows "packed d w s t dc wk sq < 2 ^ 63"
proof -
  have "t * 2 ^ (d + w + s) < 2 ^ (63 - (d + w + s)) * 2 ^ (d + w + s)"
    using assms by (simp add: fields_ok_def flip: power_add)
  then have "t + 1 \<le> 2 ^ (63 - (d + w + s))" by simp
  then have "(t + 1) * 2 ^ (d + w + s) \<le> 2 ^ (63 - (d + w + s)) * 2 ^ (d + w + s)"
    by (intro mult_right_mono) auto
  also have "\<dots> = 2 ^ 63" using assms(2) by (simp flip: power_add)
  finally show ?thesis using packed_bounds(2) [OF assms(1)] by linarith
qed

section \<open>Taking it apart\<close>

lemma append_div: "0 \<le> (b :: int) \<Longrightarrow> b < 2 ^ n \<Longrightarrow> (a * 2 ^ n + b) div 2 ^ n = a"
  by simp

lemma append_mod: "0 \<le> (b :: int) \<Longrightarrow> b < 2 ^ n \<Longrightarrow> (a * 2 ^ n + b) mod 2 ^ n = b"
  by simp

lemma div_pow_add: "(x :: int) div 2 ^ (m + n) = x div 2 ^ n div 2 ^ m"
  by (metis mult.commute power_add zdiv_zmult2_eq zero_le_numeral zero_le_power)

lemma packed_fields:
  assumes "fields_ok d w s t dc wk sq"
  shows "packed d w s t dc wk sq mod 2 ^ s = sq"
    and "packed d w s t dc wk sq div 2 ^ s mod 2 ^ w = wk"
    and "packed d w s t dc wk sq div 2 ^ (w + s) mod 2 ^ d = dc"
    and "packed d w s t dc wk sq div 2 ^ (d + w + s) = t"
  using assms by (simp_all add: fields_ok_def packed_def div_pow_add)

text \<open>And every number is put together again from its fields.\<close>

lemma packed_unpacked:
  "packed d w s (x div 2 ^ (d + w + s)) (x div 2 ^ (w + s) mod 2 ^ d) (x div 2 ^ s mod 2 ^ w)
     (x mod 2 ^ s) = x"
  by (simp only: packed_def div_pow_add div_mult_mod_eq)

lemma unpacked_ok:
  assumes "0 \<le> x" and "x < 2 ^ 63"
  shows "fields_ok d w s (x div 2 ^ (d + w + s)) (x div 2 ^ (w + s) mod 2 ^ d)
     (x div 2 ^ s mod 2 ^ w) (x mod 2 ^ s)"
proof -
  have "x div 2 ^ (d + w + s) * 2 ^ (d + w + s) \<le> x"
    using div_mult_mod_eq [of x "2 ^ (d + w + s)"] pos_mod_sign [of "2 ^ (d + w + s)" x]
    by (smt (verit) zero_less_power)
  with assms show ?thesis
    by (auto simp: fields_ok_def pos_imp_zdiv_nonneg_iff)
qed

section \<open>The code computes it\<close>

lemma or_mult_pow2: "(a :: int) * 2 ^ n OR b * 2 ^ n = (a OR b) * 2 ^ n"
  by (metis push_bit_eq_mult push_bit_or)

lemma composeID_packed:
  assumes f: "fields_ok d w s t dc wk sq" and le: "d + w + s \<le> 62"
  shows "composeID (int (d + w + s)) (int (w + s)) (int s) t dc wk sq = packed d w s t dc wk sq"
proof -
  note g = f [unfolded fields_ok_def]
  have pd: "(2 :: int) ^ d * 2 ^ (w + s) \<le> 2 ^ 62" and pw: "(2 :: int) ^ w * 2 ^ s \<le> 2 ^ 62"
    using le power_increasing [of _ 62 "2 :: int"] by (simp_all flip: power_add)
  have "dc * 2 ^ (w + s) < 2 ^ d * 2 ^ (w + s)" and "wk * 2 ^ s < 2 ^ w * 2 ^ s"
    using g by simp_all
  moreover have "(2 :: int) ^ 62 < 2 ^ 63" by simp
  ultimately have "dc * 2 ^ (w + s) < 2 ^ 63" and "wk * 2 ^ s < 2 ^ 63"
    using pd pw by linarith+
  then have sh: "shl64 t (int (d + w + s)) = t * 2 ^ (d + w + s)"
    "shl64 dc (int (w + s)) = dc * 2 ^ (w + s)" "shl64 wk (int s) = wk * 2 ^ s"
    using g by (simp_all only: shl64_id nat_int)
  let ?a = "t * 2 ^ d + dc"
  have 1: "t * 2 ^ (d + w + s) OR dc * 2 ^ (w + s) = ?a * 2 ^ (w + s)"
    using or_mult_pow2 [of "t * 2 ^ d" "w + s" dc] or_low_field [of dc d t] g
    by (simp add: power_add mult.assoc)
  have 2: "?a * 2 ^ (w + s) OR wk * 2 ^ s = (?a * 2 ^ w + wk) * 2 ^ s"
    using or_mult_pow2 [of "?a * 2 ^ w" s wk] or_low_field [of wk w ?a] g
    by (simp add: power_add mult.assoc)
  show ?thesis
    using or_low_field [of sq s "?a * 2 ^ w + wk"] g
    by (simp only: composeID_def sh 1 2 packed_def)
qed

end
