(* ===== verification/Generator.thy ===== *)
theory Generator
  imports Metrics Prom_Metrics Gen_Config Id_Layout
begin

text \<open>
  The ID generator of \<open>generator.go\<close> (\<open>Generator\<close>, \<open>SID\<close> and \<open>ClockDriftError\<close> of
  \<open>types.go\<close>): construction, one locked attempt to generate an ID with its clock-drift,
  sequence, cache and overflow handling, parsing, and the small state operations. Every
  method that touches the state holds the generator's mutex from its first line to its
  return, so each is one function from state to state; a reading of the clock is an
  argument. The loop around the attempts is in \<open>Generate_Loop\<close>.
\<close>

section \<open>State\<close>

record Generator =
  g_datacenterID :: int
  g_workerID :: int
  g_customEpoch :: int
  g_workerIDBits :: int
  g_sequenceBits :: int
  g_timestampShift :: int
  g_datacenterShift :: int
  g_workerShift :: int
  g_maxDatacenterID :: int
  g_maxWorkerID :: int
  g_maxSequence :: int
  g_lastTimestamp :: int
  g_sequence :: int
  g_generatedCount :: int
  g_clockBackwardCount :: int
  g_enableClockDriftProtection :: bool
  g_maxClockDrift :: int
  g_clockDriftAction :: string
  g_lastClockCheck :: time
  g_enableSequenceCache :: bool
  g_sequenceCache :: "int list"
  g_cacheIndex :: int
  g_cacheSize :: int
  g_cacheValidCount :: int
  g_isShuttingDown :: bool
  g_isShuttingDownAtomic :: int
  g_timestampBits :: int
  g_maxIgnoreBackwardDriftMs :: int
  g_metrics :: "Metrics option"
  g_promCalls :: "prom_call list" \<comment> \<open>the calls made on the global collectors, in order\<close>

text \<open>One constructor per error the generator returns; \<open>ClockDriftError\<close> has its fields.\<close>

datatype gen_error =
  ClockDriftError time time int \<comment> \<open>current time, last timestamp, drift\<close>
| GeneratorShuttingDown
| UnknownDriftAction string
| WaitBudgetExceeded int
| NegativeID int
| TimestampOutOfRange int int int

datatype new_error =
  NilConfig
| InvalidGeneratorConfig config_error
| DatacenterIDRange int
| WorkerIDRange int
| CustomEpochInFuture

text \<open>\<open>if g.metrics != nil { g.metrics.Record...() }\<close> and a collector call.\<close>

definition onMetrics :: "(Metrics \<Rightarrow> Metrics) \<Rightarrow> Generator \<Rightarrow> Generator" where
  "onMetrics f g = g\<lparr>g_metrics := map_option f (g_metrics g)\<rparr>"

definition prom :: "prom_call \<Rightarrow> Generator \<Rightarrow> Generator" where
  "prom c g = g\<lparr>g_promCalls := g_promCalls g @ [c]\<rparr>"

section \<open>Construction\<close>

definition NewSnowflakeGeneratorCore ::
  "host \<Rightarrow> int \<Rightarrow> int \<Rightarrow> GeneratorConfig option \<Rightarrow> (new_error, Generator) result" where
  "NewSnowflakeGeneratorCore h datacenterID workerID config =
     (let config = (case config of None \<Rightarrow> DefaultGeneratorConfig | Some c \<Rightarrow> c) in
      case Validate h config of Some err \<Rightarrow> Inl (InvalidGeneratorConfig err) | None \<Rightarrow>
      let maxDatacenterID = i64 (shl64 1 (DatacenterIDBits config) - 1);
          maxWorkerID = i64 (shl64 1 (WorkerIDBits config) - 1)
      in if datacenterID < 0 \<or> datacenterID > maxDatacenterID then Inl (DatacenterIDRange maxDatacenterID)
      else if workerID < 0 \<or> workerID > maxWorkerID then Inl (WorkerIDRange maxWorkerID)
      else if CustomEpoch config > UnixMilli (clock h 3) then Inl CustomEpochInFuture
      else
      let timestampShift = i64 (i64 (DatacenterIDBits config + WorkerIDBits config) + SequenceBits config);
          datacenterShift = i64 (WorkerIDBits config + SequenceBits config);
          workerShift = SequenceBits config;
          timestampBits = i64 (64 - timestampShift);
          timestampBits = (if timestampBits < 41 then 41 else timestampBits)
      in Inr \<lparr>g_datacenterID = datacenterID, g_workerID = workerID,
           g_customEpoch = CustomEpoch config, g_workerIDBits = WorkerIDBits config,
           g_sequenceBits = SequenceBits config, g_timestampShift = timestampShift,
           g_datacenterShift = datacenterShift, g_workerShift = workerShift,
           g_maxDatacenterID = maxDatacenterID, g_maxWorkerID = maxWorkerID,
           g_maxSequence = i64 (shl64 1 (SequenceBits config) - 1),
           g_lastTimestamp = -1, g_sequence = 0, g_generatedCount = 0, g_clockBackwardCount = 0,
           g_enableClockDriftProtection = EnableClockDriftProtection config,
           g_maxClockDrift = MaxClockDrift config, g_clockDriftAction = ClockDriftAction config,
           g_lastClockCheck = zero_time, g_enableSequenceCache = EnableSequenceCache config,
           g_sequenceCache = (if EnableSequenceCache config
                              then replicate (nat (SequenceCacheSize config)) 0 else []),
           g_cacheIndex = 0, g_cacheSize = SequenceCacheSize config, g_cacheValidCount = 0,
           g_isShuttingDown = False, g_isShuttingDownAtomic = 0,
           g_timestampBits = timestampBits, g_maxIgnoreBackwardDriftMs = 3600000,
           g_metrics = (if EnableMetrics config then Some (NewSnowflakeMetrics (clock h 4)) else None),
           g_promCalls = []\<rparr>)"

section \<open>The sequence cache\<close>

text \<open>The two loops of \<open>refillSequenceCache\<close>: fill the slots from \<open>i\<close> on with the numbers from
  \<open>i + 1\<close> on, stopping at the largest sequence; then zero what is left.\<close>

function fillCache :: "nat \<Rightarrow> nat \<Rightarrow> int \<Rightarrow> int list \<Rightarrow> nat \<Rightarrow> int list \<times> nat" where
  "fillCache i n maxSeq cache validCount =
     (if i < n then
        let seq = int (i + 1)
        in if seq > maxSeq then (cache, validCount)
           else fillCache (i + 1) n maxSeq (cache[i := seq]) (validCount + 1)
      else (cache, validCount))"
  by pat_completeness auto
termination
  by (relation "measure (\<lambda>(i, n, m, c, v). n - i)") auto

function zeroCache :: "nat \<Rightarrow> int list \<Rightarrow> int list" where
  "zeroCache i cache = (if i < length cache then zeroCache (i + 1) (cache[i := 0]) else cache)"
  by pat_completeness auto
termination
  by (relation "measure (\<lambda>(i, c). length c - i)") auto

declare fillCache.simps [simp del] zeroCache.simps [simp del]

definition refillSequenceCache :: "Generator \<Rightarrow> Generator" where
  "refillSequenceCache g =
     (if \<not> g_enableSequenceCache g \<or> length (g_sequenceCache g) = 0 then g
      else
      let maxValidCount = g_maxSequence g;
          cacheSize = int (length (g_sequenceCache g));
          cacheSize = (if cacheSize > maxValidCount then maxValidCount else cacheSize);
          actualCacheSize = cacheSize;
          actualCacheSize = (if actualCacheSize > maxValidCount then maxValidCount else actualCacheSize);
          (filled, validCount) = fillCache 0 (nat actualCacheSize) (g_maxSequence g) (g_sequenceCache g) 0;
          g = g\<lparr>g_sequenceCache := zeroCache validCount filled\<rparr>;
          g = g\<lparr>g_cacheValidCount := int validCount\<rparr>;
          g = g\<lparr>g_cacheIndex := 0\<rparr>
      in onMetrics RecordCacheRefill g)"


section \<open>One attempt\<close>

text \<open>What an attempt returns, \<open>(id, needWait, waitDuration, cacheHit, error)\<close> in the code:
  an error, a wait, or an ID. \<open>IndexPanic\<close> is the run-time panic of reading the cache
  outside its bounds. A stage of the attempt either returns or continues with a value.\<close>

datatype attempt =
  Generated int bool
| NeedWait int
| Failed gen_error
| IndexPanic

datatype 'a flow = Return attempt | Continue 'a

definition getCurrentTimestamp :: "time \<Rightarrow> int" where
  "getCurrentTimestamp now = UnixNano now sdiv 1000000"

definition driftError :: "int \<Rightarrow> int \<Rightarrow> int \<Rightarrow> gen_error" where
  "driftError currentTs lastTs drift = ClockDriftError (unix_ms currentTs) (unix_ms lastTs) drift"

definition checkClockDriftNoSleep :: "time \<Rightarrow> int \<Rightarrow> Generator \<Rightarrow> gen_error option \<times> Generator" where
  "checkClockDriftNoSleep check currentTimestamp g =
     (if g_lastTimestamp g = -1 then (None, g)
      else
      let g = g\<lparr>g_lastClockCheck := check\<rparr>;
          driftMs = i64 (currentTimestamp - g_lastTimestamp g)
      in if driftMs < 0 then (None, g)
      else
      let drift = i64 (driftMs * Millisecond)
      in if drift > g_maxClockDrift g \<and> g_clockDriftAction g = ClockDriftActionError
         then (Some (driftError currentTimestamp (g_lastTimestamp g) drift), g)
         else (None, g))"

definition handleSequenceOverflow :: "bool \<Rightarrow> Generator \<Rightarrow> int option \<times> Generator" where
  "handleSequenceOverflow ignoreMode g =
     (let g = onMetrics RecordSequenceOverflow g;
          g = prom PromSequenceOverflows g
      in if \<not> ignoreMode then (None, g)
      else
      let next = i64 (g_lastTimestamp g + 1);
          g = g\<lparr>g_sequence := 0\<rparr>;
          g = (if g_enableSequenceCache g then refillSequenceCache g else g)
      in (Some next, g))"

text \<open>The clock went backwards: the action decides. \<open>Continue (ignoreMode, timestamp)\<close>.\<close>

definition handleBackwardClock :: "int \<Rightarrow> Generator \<Rightarrow> (bool \<times> int) flow \<times> Generator" where
  "handleBackwardClock timestamp g =
     (if timestamp < g_lastTimestamp g then
        let driftMs = i64 (g_lastTimestamp g - timestamp);
            drift = i64 (driftMs * Millisecond);
            g = g\<lparr>g_clockBackwardCount := i64 (g_clockBackwardCount g + 1)\<rparr>;
            g = onMetrics RecordClockDrift g;
            g = prom PromClockDriftEvents g;
            failure = Return (Failed (driftError timestamp (g_lastTimestamp g) drift))
        in if g_clockDriftAction g = ClockDriftActionError then (failure, g)
        else if g_clockDriftAction g = ClockDriftActionWait then
          (if drift > MaxClockBackwardWait then (failure, g)
           else
           let waitTime = i64 (drift + Millisecond);
               waitTime = (if waitTime > MaxClockBackwardWait then MaxClockBackwardWait else waitTime)
           in (Return (NeedWait waitTime), g))
        else if g_clockDriftAction g = ClockDriftActionIgnore then
          (let artificialDriftMs = i64 (g_lastTimestamp g - timestamp)
           in if artificialDriftMs > g_maxIgnoreBackwardDriftMs g then (failure, g)
              else (Continue (True, g_lastTimestamp g), g))
        else (Return (Failed (UnknownDriftAction (g_clockDriftAction g))), g)
      else (Continue (False, timestamp), g))"

text \<open>\<open>Continue (cacheHit, timestamp)\<close>; the code has the increment twice, after an invalid
  cached number and when the cache is exhausted or disabled.\<close>

definition incrementSequence :: "bool \<Rightarrow> int \<Rightarrow> Generator \<Rightarrow> (bool \<times> int) flow \<times> Generator" where
  "incrementSequence ignoreMode timestamp g =
     (let g = g\<lparr>g_sequence := i64 (g_sequence g + 1) AND g_maxSequence g\<rparr>
      in if g_sequence g = 0 then
           (case handleSequenceOverflow ignoreMode g of
              (Some next, g) \<Rightarrow> (Continue (False, next), g)
            | (None, g) \<Rightarrow> (Return (NeedWait 0), g))
         else (Continue (False, timestamp), g))"

definition nextSequence :: "bool \<Rightarrow> int \<Rightarrow> Generator \<Rightarrow> (bool \<times> int) flow \<times> Generator" where
  "nextSequence ignoreMode timestamp g =
     (if timestamp = g_lastTimestamp g then
        (if g_enableSequenceCache g \<and> g_cacheIndex g \<ge> 0 \<and> g_cacheIndex g < g_cacheValidCount g then
           (if nat (g_cacheIndex g) \<ge> length (g_sequenceCache g) then (Return IndexPanic, g)
            else
            let cachedSeq = g_sequenceCache g ! nat (g_cacheIndex g);
                g = g\<lparr>g_cacheIndex := i64 (g_cacheIndex g + 1)\<rparr>
            in if cachedSeq > 0 \<and> cachedSeq \<le> g_maxSequence g
               then (Continue (True, timestamp), g\<lparr>g_sequence := cachedSeq\<rparr>)
               else incrementSequence ignoreMode timestamp g)
         else incrementSequence ignoreMode timestamp g)
      else
      let g = g\<lparr>g_sequence := 0\<rparr>;
          g = (if g_enableSequenceCache g then refillSequenceCache g else g)
      in (Continue (False, timestamp), g))"

definition encodeID :: "Generator \<Rightarrow> int \<Rightarrow> int" where
  "encodeID g timestamp =
     composeID (g_timestampShift g) (g_datacenterShift g) (g_workerShift g)
       (i64 (timestamp - g_customEpoch g)) (g_datacenterID g) (g_workerID g) (g_sequence g)"

definition emitID :: "bool \<Rightarrow> int \<Rightarrow> Generator \<Rightarrow> attempt \<times> Generator" where
  "emitID cacheHit timestamp g =
     (let g = g\<lparr>g_lastTimestamp := timestamp\<rparr>;
          newID = encodeID g timestamp
      in (Generated newID cacheHit, g\<lparr>g_generatedCount := i64 (g_generatedCount g + 1)\<rparr>))"

text \<open>\<open>now\<close> is the reading in \<open>getCurrentTimestamp\<close>, \<open>check\<close> the one the drift check records.\<close>

definition tryGenerateID :: "time \<Rightarrow> time \<Rightarrow> Generator \<Rightarrow> attempt \<times> Generator" where
  "tryGenerateID now check g =
     (if g_isShuttingDown g
      then (Failed GeneratorShuttingDown, onMetrics (RecordError ''generation'') g)
      else
      let timestamp = getCurrentTimestamp now in
      case (if g_enableClockDriftProtection g then checkClockDriftNoSleep check timestamp g
            else (None, g)) of
        (Some err, g) \<Rightarrow> (Failed err, g)
      | (None, g) \<Rightarrow>
        (case handleBackwardClock timestamp g of
           (Return r, g) \<Rightarrow> (r, g)
         | (Continue (ignoreMode, timestamp), g) \<Rightarrow>
           (case nextSequence ignoreMode timestamp g of
              (Return r, g) \<Rightarrow> (r, g)
            | (Continue (cacheHit, timestamp), g) \<Rightarrow> emitID cacheHit timestamp g)))"

section \<open>Parsing and the small operations\<close>

record SID =
  sid_ID :: int
  sid_Timestamp :: time
  sid_DatacenterID :: int
  sid_WorkerID :: int
  sid_Sequence :: int

definition ParseID :: "Generator \<Rightarrow> int \<Rightarrow> (gen_error, SID) result" where
  "ParseID g x =
     (if x < 0 then Inl (NegativeID x)
      else
      let sequence = x AND g_maxSequence g;
          workerID = shr64 x (g_workerShift g) AND g_maxWorkerID g;
          datacenterID = shr64 x (g_datacenterShift g) AND g_maxDatacenterID g;
          timestamp = i64 (shr64 x (g_timestampShift g) + g_customEpoch g);
          maxTimestamp = i64 (g_customEpoch g + i64 (shl64 1 (g_timestampBits g) - 1))
      in if timestamp < g_customEpoch g \<or> timestamp > maxTimestamp
         then Inl (TimestampOutOfRange timestamp (g_customEpoch g) maxTimestamp)
         else Inr \<lparr>sid_ID = x, sid_Timestamp = unix_ms timestamp,
                   sid_DatacenterID = datacenterID, sid_WorkerID = workerID,
                   sid_Sequence = sequence\<rparr>)"

definition SetWorkerID :: "int \<Rightarrow> Generator \<Rightarrow> Generator" where
  "SetWorkerID workerID g =
     (if workerID < 0 \<or> workerID > g_maxWorkerID g then g else g\<lparr>g_workerID := workerID\<rparr>)"

record GeneratorStats =
  st_WorkerID :: int
  st_DatacenterID :: int
  st_GeneratedCount :: int
  st_ClockBackwardCount :: int
  st_LastGeneratedTime :: int

definition GetStats :: "Generator \<Rightarrow> GeneratorStats" where
  "GetStats g = \<lparr>st_WorkerID = g_workerID g, st_DatacenterID = g_datacenterID g,
     st_GeneratedCount = g_generatedCount g, st_ClockBackwardCount = g_clockBackwardCount g,
     st_LastGeneratedTime = g_lastTimestamp g\<rparr>"

definition GetMetrics :: "Generator \<Rightarrow> Metrics option" where
  "GetMetrics g = (case g_metrics g of None \<Rightarrow> None | Some m \<Rightarrow> Some (GetSnapshot m))"

definition IsHealthy :: "time \<Rightarrow> Generator \<Rightarrow> bool" where
  "IsHealthy now g =
     (if g_isShuttingDown g then False
      else if g_enableClockDriftProtection g then
        (if time_Sub now (g_lastClockCheck g) < Minute then True else True)
      else True)"

definition Shutdown :: "Generator \<Rightarrow> Generator" where
  "Shutdown g =
     (if g_isShuttingDown g then g
      else g\<lparr>g_isShuttingDown := True, g_isShuttingDownAtomic := 1\<rparr>)"

end
