(* ===== verification/Generator_Spec.thy ===== *)
theory Generator_Spec
  imports Generator
begin

text \<open>
  The invariant of a generator and an abstract specification of one attempt: a pure
  function of the clock reading and of the pair (last timestamp, sequence), with no cache,
  no metrics and no wrap-around. The code's attempt refines it.
\<close>

section \<open>The cache after a refill\<close>

lemma fillCache_spec:
  assumes "i \<le> n" and "n \<le> length cache" and "int n \<le> maxSeq"
  shows "fillCache i n maxSeq cache v =
    (map (\<lambda>j. if i \<le> j \<and> j < n then int j + 1 else cache ! j) [0..<length cache], v + (n - i))"
  using assms
proof (induction i n maxSeq cache v rule: fillCache.induct)
  case (1 i n maxSeq cache v)
  show ?case
  proof (cases "i < n")
    case True
    then have "\<not> int (i + 1) > maxSeq" using "1.prems" by auto
    with True "1.prems" have "fillCache i n maxSeq cache v =
        (map (\<lambda>j. if i + 1 \<le> j \<and> j < n then int j + 1 else cache[i := int (i + 1)] ! j)
          [0..<length cache], v + 1 + (n - (i + 1)))"
      using "1.IH" [OF True refl] by (subst fillCache.simps) simp
    also have "\<dots> = (map (\<lambda>j. if i \<le> j \<and> j < n then int j + 1 else cache ! j) [0..<length cache], v + (n - i))"
      using True "1.prems" by (auto simp: nth_list_update)
    finally show ?thesis .
  next
    case False
    with "1.prems" show ?thesis
      by (subst fillCache.simps) (auto intro: nth_equalityI)
  qed
qed

lemma zeroCache_spec: "zeroCache i cache = map (\<lambda>j. if i \<le> j then 0 else cache ! j) [0..<length cache]"
proof (induction i cache rule: zeroCache.induct)
  case (1 i cache)
  show ?case
  proof (cases "i < length cache")
    case True
    then have "zeroCache i cache = map (\<lambda>j. if i + 1 \<le> j then 0 else cache[i := 0] ! j) [0..<length cache]"
      using "1.IH" by (subst zeroCache.simps) simp
    also have "\<dots> = map (\<lambda>j. if i \<le> j then 0 else cache ! j) [0..<length cache]"
      using True by (auto simp: nth_list_update)
    finally show ?thesis .
  next
    case False
    then show ?thesis
      by (subst zeroCache.simps) (auto intro: nth_equalityI)
  qed
qed

text \<open>Slots \<open>0\<close> to \<open>v - 1\<close> hold \<open>1\<close> to \<open>v\<close>, the rest is zero.\<close>

definition fresh_cache :: "nat \<Rightarrow> nat \<Rightarrow> int list" where
  "fresh_cache v len = map (\<lambda>j. if j < v then int j + 1 else 0) [0..<len]"

lemma length_fresh_cache [simp]: "length (fresh_cache v len) = len"
  by (simp add: fresh_cache_def)

lemma nth_fresh_cache: "j < len \<Longrightarrow> fresh_cache v len ! j = (if j < v then int j + 1 else 0)"
  by (simp add: fresh_cache_def)

lemma refillSequenceCache_spec:
  assumes "g_enableSequenceCache g" and "0 \<le> g_maxSequence g"
  shows "refillSequenceCache g =
    (if g_sequenceCache g = [] then g
     else let len = length (g_sequenceCache g); v = min len (nat (g_maxSequence g))
          in onMetrics RecordCacheRefill (g\<lparr>g_sequenceCache := fresh_cache v len,
               g_cacheValidCount := int v, g_cacheIndex := 0\<rparr>))"
proof (cases "g_sequenceCache g = []")
  case True
  then show ?thesis by (simp add: refillSequenceCache_def)
next
  case False
  let ?c = "g_sequenceCache g"
  define v where "v = min (length ?c) (nat (g_maxSequence g))"
  have v: "v \<le> length ?c" "int v \<le> g_maxSequence g"
    using assms(2) by (auto simp: v_def)
  have size: "nat (if int (length ?c) > g_maxSequence g then g_maxSequence g else int (length ?c)) = v"
    using assms(2) by (auto simp: v_def)
  have fill: "fillCache 0 v (g_maxSequence g) ?c 0 =
      (map (\<lambda>j. if j < v then int j + 1 else ?c ! j) [0..<length ?c], v)"
    using fillCache_spec [of 0 v ?c "g_maxSequence g" 0] v by simp
  have zero: "zeroCache v (map (\<lambda>j. if j < v then int j + 1 else ?c ! j) [0..<length ?c])
      = fresh_cache v (length ?c)"
    by (auto simp: zeroCache_spec fresh_cache_def)
  show ?thesis
    using False assms(1) size fill zero
    by (auto simp: refillSequenceCache_def Let_def v_def [symmetric] split: if_splits)
qed

section \<open>The invariant\<close>

definition dc_bits :: "Generator \<Rightarrow> int" where
  "dc_bits g = g_timestampShift g - g_datacenterShift g"

text \<open>What construction fixes: the layout, the identity within its fields, the epoch.\<close>

definition gen_layout :: "Generator \<Rightarrow> bool" where
  "gen_layout g \<longleftrightarrow>
     layout_ok (dc_bits g) (g_workerIDBits g) (g_sequenceBits g) \<and>
     g_workerShift g = g_sequenceBits g \<and>
     g_datacenterShift g = g_workerIDBits g + g_sequenceBits g \<and>
     g_maxDatacenterID g = 2 ^ nat (dc_bits g) - 1 \<and>
     g_maxWorkerID g = 2 ^ nat (g_workerIDBits g) - 1 \<and>
     g_maxSequence g = 2 ^ nat (g_sequenceBits g) - 1 \<and>
     0 \<le> g_datacenterID g \<and> g_datacenterID g \<le> g_maxDatacenterID g \<and>
     0 \<le> g_workerID g \<and> g_workerID g \<le> g_maxWorkerID g \<and>
     g_timestampBits g = 64 - g_timestampShift g \<and>
     - (2 ^ 44) \<le> g_customEpoch g \<and> g_customEpoch g \<le> 2 ^ 44 \<and>
     g_maxIgnoreBackwardDriftMs g = 3600000"

text \<open>While cached numbers are left, the cache index is the current sequence, so the next
  cached number is the next sequence.\<close>

definition cache_inv :: "Generator \<Rightarrow> bool" where
  "cache_inv g \<longleftrightarrow>
     0 \<le> g_cacheIndex g \<and> g_cacheIndex g \<le> g_cacheValidCount g \<and>
     g_cacheValidCount g \<le> int (length (g_sequenceCache g)) \<and>
     g_cacheValidCount g \<le> g_maxSequence g \<and>
     (\<forall>i < nat (g_cacheValidCount g). g_sequenceCache g ! i = int i + 1) \<and>
     (g_cacheIndex g < g_cacheValidCount g \<longrightarrow>
        g_enableSequenceCache g \<and> g_sequence g = g_cacheIndex g)"

definition gen_inv :: "Generator \<Rightarrow> bool" where
  "gen_inv g \<longleftrightarrow> gen_layout g \<and> cache_inv g \<and>
     0 \<le> g_sequence g \<and> g_sequence g \<le> g_maxSequence g \<and>
     -1 \<le> g_lastTimestamp g \<and> g_lastTimestamp g < 2 ^ 43"

text \<open>Clock readings between 1970 and 2116; the plugin's IDs end before that.\<close>

definition clock_sane :: "time \<Rightarrow> bool" where
  "clock_sane now \<longleftrightarrow> 0 \<le> wall now \<and> wall now < 2 ^ 62"

lemma clock_sane_timestamp:
  assumes "clock_sane now"
  shows "getCurrentTimestamp now = wall now div 1000000"
    and "0 \<le> getCurrentTimestamp now" and "getCurrentTimestamp now < 2 ^ 43 - 2 ^ 41"
proof -
  have "UnixNano now = wall now"
    using assms by (simp add: UnixNano_def clock_sane_def i64_id)
  then show e: "getCurrentTimestamp now = wall now div 1000000"
    using assms by (simp add: getCurrentTimestamp_def clock_sane_def sdiv_nonneg)
  show "0 \<le> getCurrentTimestamp now" and "getCurrentTimestamp now < 2 ^ 43 - 2 ^ 41"
    using assms by (auto simp: e clock_sane_def pos_imp_zdiv_nonneg_iff)
qed


text \<open>Everything an attempt does not change.\<close>

definition config_ints :: "Generator \<Rightarrow> int list" where
  "config_ints g = [g_datacenterID g, g_workerID g, g_customEpoch g, g_workerIDBits g,
     g_sequenceBits g, g_timestampShift g, g_datacenterShift g, g_workerShift g,
     g_maxDatacenterID g, g_maxWorkerID g, g_maxSequence g, g_timestampBits g,
     g_maxIgnoreBackwardDriftMs g, g_maxClockDrift g, g_cacheSize g, g_isShuttingDownAtomic g,
     int (length (g_sequenceCache g))]"

definition config_of :: "Generator \<Rightarrow> int list \<times> bool list \<times> string" where
  "config_of g = (config_ints g, [g_enableClockDriftProtection g, g_enableSequenceCache g,
     g_isShuttingDown g, g_metrics g = None], g_clockDriftAction g)"

lemmas config_defs = config_of_def config_ints_def

lemma same_config:
  assumes "config_of g' = config_of g"
  shows "g_datacenterID g' = g_datacenterID g" "g_workerID g' = g_workerID g"
    "g_customEpoch g' = g_customEpoch g" "g_workerIDBits g' = g_workerIDBits g"
    "g_sequenceBits g' = g_sequenceBits g" "g_timestampShift g' = g_timestampShift g"
    "g_datacenterShift g' = g_datacenterShift g" "g_workerShift g' = g_workerShift g"
    "g_maxDatacenterID g' = g_maxDatacenterID g" "g_maxWorkerID g' = g_maxWorkerID g"
    "g_maxSequence g' = g_maxSequence g" "g_timestampBits g' = g_timestampBits g"
    "g_maxIgnoreBackwardDriftMs g' = g_maxIgnoreBackwardDriftMs g"
    "g_enableClockDriftProtection g' = g_enableClockDriftProtection g"
    "g_maxClockDrift g' = g_maxClockDrift g" "g_clockDriftAction g' = g_clockDriftAction g"
    "g_enableSequenceCache g' = g_enableSequenceCache g"
    "g_isShuttingDown g' = g_isShuttingDown g"
    "g_isShuttingDownAtomic g' = g_isShuttingDownAtomic g"
  using assms by (simp_all add: config_defs)

lemma gen_layout_config:
  assumes "config_of g' = config_of g"
  shows "gen_layout g' = gen_layout g"
  by (simp add: gen_layout_def dc_bits_def same_config [OF assms])

lemma config_of_updates [simp]:
  "config_of (g\<lparr>g_lastTimestamp := a\<rparr>) = config_of g"
  "config_of (g\<lparr>g_sequence := a\<rparr>) = config_of g"
  "config_of (g\<lparr>g_generatedCount := a\<rparr>) = config_of g"
  "config_of (g\<lparr>g_clockBackwardCount := a\<rparr>) = config_of g"
  "config_of (g\<lparr>g_lastClockCheck := t\<rparr>) = config_of g"
  "config_of (g\<lparr>g_cacheIndex := a\<rparr>) = config_of g"
  "config_of (onMetrics f g) = config_of g"
  "config_of (prom c g) = config_of g"
  by (simp_all add: config_defs onMetrics_def prom_def)

lemma onMetrics_prom_sel [simp]:
  "g_lastTimestamp (onMetrics f g) = g_lastTimestamp g" "g_sequence (onMetrics f g) = g_sequence g"
  "g_lastTimestamp (prom c g) = g_lastTimestamp g" "g_sequence (prom c g) = g_sequence g"
  "g_enableSequenceCache (onMetrics f g) = g_enableSequenceCache g"
  "g_enableSequenceCache (prom c g) = g_enableSequenceCache g"
  "g_clockDriftAction (onMetrics f g) = g_clockDriftAction g"
  "g_clockDriftAction (prom c g) = g_clockDriftAction g"
  "g_maxIgnoreBackwardDriftMs (onMetrics f g) = g_maxIgnoreBackwardDriftMs g"
  "g_maxIgnoreBackwardDriftMs (prom c g) = g_maxIgnoreBackwardDriftMs g"
  "g_maxSequence (onMetrics f g) = g_maxSequence g" "g_maxSequence (prom c g) = g_maxSequence g"
  "g_sequenceCache (onMetrics f g) = g_sequenceCache g" "g_sequenceCache (prom c g) = g_sequenceCache g"
  "g_cacheIndex (onMetrics f g) = g_cacheIndex g" "g_cacheIndex (prom c g) = g_cacheIndex g"
  "g_cacheValidCount (onMetrics f g) = g_cacheValidCount g"
  "g_cacheValidCount (prom c g) = g_cacheValidCount g"
  by (simp_all add: onMetrics_def prom_def)

lemma cache_inv_frame [simp]:
  "cache_inv (onMetrics f g) = cache_inv g" "cache_inv (prom c g) = cache_inv g"
  "cache_inv (g\<lparr>g_lastTimestamp := a\<rparr>) = cache_inv g"
  "cache_inv (g\<lparr>g_generatedCount := a\<rparr>) = cache_inv g"
  "cache_inv (g\<lparr>g_clockBackwardCount := a\<rparr>) = cache_inv g"
  "cache_inv (g\<lparr>g_lastClockCheck := t\<rparr>) = cache_inv g"
  by (simp_all add: cache_inv_def)

section \<open>The specification of one attempt\<close>

datatype outcome = Emit int int | Wait int | Overflow | Refuse

type_synonym key = "int \<times> int"

text \<open>\<open>g\<close> supplies the configuration only; \<open>ts\<close> is the clock reading in milliseconds, the
  pair is the last timestamp and the current sequence.\<close>

fun sequence_spec :: "Generator \<Rightarrow> int \<Rightarrow> key \<Rightarrow> outcome \<times> key" where
  "sequence_spec g ts (l, q) =
     (if ts < l then
        (if g_clockDriftAction g = ClockDriftActionWait then
           (if (l - ts) * Millisecond > MaxClockBackwardWait then (Refuse, l, q)
            else (Wait (min ((l - ts + 1) * Millisecond) MaxClockBackwardWait), l, q))
         else if g_clockDriftAction g = ClockDriftActionIgnore \<and> l - ts \<le> 3600000 then
           (if q < g_maxSequence g then (Emit l (q + 1), l, q + 1) else (Emit (l + 1) 0, l + 1, 0))
         else (Refuse, l, q))
      else if ts = l then
        (if q < g_maxSequence g then (Emit l (q + 1), l, q + 1) else (Overflow, l, 0))
      else (Emit ts 0, ts, 0))"

definition jump_refused :: "Generator \<Rightarrow> int \<Rightarrow> int \<Rightarrow> bool" where
  "jump_refused g ts l \<longleftrightarrow> g_enableClockDriftProtection g \<and>
     g_clockDriftAction g = ClockDriftActionError \<and> l \<noteq> -1 \<and> l \<le> ts \<and>
     (ts - l) * Millisecond > g_maxClockDrift g"

definition attempt_spec :: "Generator \<Rightarrow> int \<Rightarrow> key \<Rightarrow> outcome \<times> key" where
  "attempt_spec g ts k =
     (if g_isShuttingDown g \<or> jump_refused g ts (fst k) then (Refuse, k) else sequence_spec g ts k)"

definition key_of :: "Generator \<Rightarrow> key" where
  "key_of g = (g_lastTimestamp g, g_sequence g)"

text \<open>The ID the code puts together for a key.\<close>

definition idOf :: "Generator \<Rightarrow> int \<Rightarrow> int \<Rightarrow> int" where
  "idOf g t q = composeID (g_timestampShift g) (g_datacenterShift g) (g_workerShift g)
     (i64 (t - g_customEpoch g)) (g_datacenterID g) (g_workerID g) q"

fun matches :: "Generator \<Rightarrow> outcome \<Rightarrow> attempt \<Rightarrow> bool" where
  "matches g (Emit t q) r \<longleftrightarrow> (\<exists>hit. r = Generated (idOf g t q) hit)"
| "matches g (Wait d) r \<longleftrightarrow> r = NeedWait d \<and> 0 < d"
| "matches g Overflow r \<longleftrightarrow> r = NeedWait 0"
| "matches g Refuse r \<longleftrightarrow> (\<exists>e. r = Failed e)"


section \<open>Each stage refines its part of the specification\<close>

lemma gen_layout_maxSequence:
  assumes "gen_layout g"
  shows "0 < g_maxSequence g" "g_maxSequence g < 2 ^ 20" "127 \<le> g_maxSequence g"
    "g_maxSequence g = 2 ^ nat (g_sequenceBits g) - 1"
proof -
  have s: "7 \<le> g_sequenceBits g" "g_sequenceBits g \<le> 20"
    using assms by (auto simp: gen_layout_def layout_ok_def)
  have "(2 :: int) ^ 7 \<le> 2 ^ nat (g_sequenceBits g)" "(2 :: int) ^ nat (g_sequenceBits g) \<le> 2 ^ 20"
    using s by (intro power_increasing; simp)+
  then show "0 < g_maxSequence g" "g_maxSequence g < 2 ^ 20" "127 \<le> g_maxSequence g"
    and "g_maxSequence g = 2 ^ nat (g_sequenceBits g) - 1"
    using assms by (simp_all add: gen_layout_def)
qed

text \<open>\<open>g.sequence = 0\<close> and a refill: a fresh millisecond.\<close>

lemma reset_stage:
  assumes "gen_layout g" and "cache_inv g"
    and "g' = (if g_enableSequenceCache g then refillSequenceCache (g\<lparr>g_sequence := 0\<rparr>)
               else g\<lparr>g_sequence := 0\<rparr>)"
  shows "config_of g' = config_of g" "g_lastTimestamp g' = g_lastTimestamp g"
    "g_sequence g' = 0" "cache_inv g'"
proof -
  have m: "0 \<le> g_maxSequence g" using gen_layout_maxSequence [OF assms(1)] by simp
  show "config_of g' = config_of g" "g_lastTimestamp g' = g_lastTimestamp g" "g_sequence g' = 0"
    using m by (simp_all add: assms(3) refillSequenceCache_spec Let_def, simp add: config_defs)
  show "cache_inv g'"
    using m assms(2) by (auto simp: assms(3) refillSequenceCache_spec Let_def cache_inv_def nth_fresh_cache)
qed

lemma increment_and_mask:
  assumes "gen_layout g" and "0 \<le> q" and "q \<le> g_maxSequence g"
  shows "i64 (q + 1) AND g_maxSequence g = (if q < g_maxSequence g then q + 1 else 0)"
proof -
  note m = gen_layout_maxSequence [OF assms(1)]
  have "i64 (q + 1) AND g_maxSequence g = (q + 1) mod (g_maxSequence g + 1)"
    using m assms(2,3) by (simp add: i64_id and_mask_mod)
  then show ?thesis using assms(2,3) by (auto simp: order_less_le)
qed

lemma overflow_waits:
  "handleSequenceOverflow False g = (None, prom PromSequenceOverflows (onMetrics RecordSequenceOverflow g))"
  by (simp add: handleSequenceOverflow_def Let_def)

lemma overflow_advances:
  assumes "gen_layout g" and "cache_inv g" and "-1 \<le> g_lastTimestamp g" and "g_lastTimestamp g < 2 ^ 43"
    and "handleSequenceOverflow True g = (n, g')"
  shows "n = Some (g_lastTimestamp g + 1) \<and> config_of g' = config_of g \<and>
    g_lastTimestamp g' = g_lastTimestamp g \<and> g_sequence g' = 0 \<and> cache_inv g'"
proof -
  let ?g = "prom PromSequenceOverflows (onMetrics RecordSequenceOverflow g)"
  have l: "gen_layout ?g" "cache_inv ?g"
    using assms(1,2) gen_layout_config [of ?g g] by simp_all
  have "g' = (if g_enableSequenceCache ?g then refillSequenceCache (?g\<lparr>g_sequence := 0\<rparr>)
      else ?g\<lparr>g_sequence := 0\<rparr>)" and "n = Some (i64 (g_lastTimestamp g + 1))"
    using assms(5) by (auto simp: handleSequenceOverflow_def Let_def)
  with reset_stage [OF l] assms(3,4) show ?thesis by (simp add: i64_id)
qed

text \<open>The increment: the next sequence, or the overflow in one of its two ways.\<close>

lemma increment_stage:
  assumes "gen_inv g" and "\<not> g_cacheIndex g < g_cacheValidCount g"
    and "incrementSequence ignoreMode ts g = (r, g')"
  shows "config_of g' = config_of g \<and> g_lastTimestamp g' = g_lastTimestamp g \<and> cache_inv g' \<and>
    (if g_sequence g < g_maxSequence g then r = Continue (False, ts) \<and> g_sequence g' = g_sequence g + 1
     else g_sequence g' = 0 \<and>
       (if ignoreMode then r = Continue (False, g_lastTimestamp g + 1) else r = Return (NeedWait 0)))"
proof -
  let ?q = "i64 (g_sequence g + 1) AND g_maxSequence g" and ?g = "g\<lparr>g_sequence := i64 (g_sequence g + 1) AND g_maxSequence g\<rparr>"
  note inv = assms(1) [unfolded gen_inv_def]
  have q: "?q = (if g_sequence g < g_maxSequence g then g_sequence g + 1 else 0)"
    using inv by (intro increment_and_mask) auto
  have l: "gen_layout ?g" "cache_inv ?g" "-1 \<le> g_lastTimestamp ?g" "g_lastTimestamp ?g < 2 ^ 43"
    using inv assms(2) gen_layout_config [of ?g g] by (simp_all add: cache_inv_def)
  show ?thesis
  proof (cases "g_sequence g < g_maxSequence g")
    case True
    then have "?q \<noteq> 0" using q inv by simp
    with True assms(3) q l show ?thesis by (simp add: incrementSequence_def Let_def) auto
  next
    case False
    then have 0: "?q = 0" using q by simp
    show ?thesis
    proof (cases ignoreMode)
      case True
      with overflow_advances [OF l] False 0 assms(3) l show ?thesis
        by (auto simp: incrementSequence_def Let_def split: prod.splits option.splits)
    next
      case no: False
      with False 0 assms(3) l show ?thesis
        by (auto simp: incrementSequence_def Let_def overflow_waits)
    qed
  qed
qed


text \<open>A cached number is the next sequence, so the cached and the plain path agree; the slice is
  never read outside its bounds.\<close>

lemma cached_number:
  assumes "gen_inv g" and "g_cacheIndex g < g_cacheValidCount g"
  shows "nat (g_cacheIndex g) < length (g_sequenceCache g)"
    and "g_sequenceCache g ! nat (g_cacheIndex g) = g_sequence g + 1"
    and "g_sequence g < g_maxSequence g" and "i64 (g_cacheIndex g + 1) = g_sequence g + 1"
    and "cache_inv (g\<lparr>g_cacheIndex := g_sequence g + 1, g_sequence := g_sequence g + 1\<rparr>)"
proof -
  have c: "cache_inv g" "0 \<le> g_sequence g" and m: "g_maxSequence g < 2 ^ 20"
    using assms(1) gen_layout_maxSequence by (auto simp: gen_inv_def)
  have idx: "0 \<le> g_cacheIndex g" "g_sequence g = g_cacheIndex g" "g_cacheValidCount g \<le> g_maxSequence g"
    "g_cacheValidCount g \<le> int (length (g_sequenceCache g))"
    using c assms(2) by (auto simp: cache_inv_def)
  show "nat (g_cacheIndex g) < length (g_sequenceCache g)" "g_sequence g < g_maxSequence g"
    using idx assms(2) by auto
  have "nat (g_cacheIndex g) < nat (g_cacheValidCount g)"
    using idx assms(2) by simp
  then show "g_sequenceCache g ! nat (g_cacheIndex g) = g_sequence g + 1"
    using c(1) idx by (simp add: cache_inv_def)
  show "i64 (g_cacheIndex g + 1) = g_sequence g + 1"
    using idx assms(2) m by (simp add: i64_id)
  show "cache_inv (g\<lparr>g_cacheIndex := g_sequence g + 1, g_sequence := g_sequence g + 1\<rparr>)"
    using c(1) idx assms(2) by (simp add: cache_inv_def)
qed

lemma next_stage:
  assumes inv: "gen_inv g" and eq: "nextSequence ignoreMode ts g = (r, g')"
  shows "config_of g' = config_of g \<and> g_lastTimestamp g' = g_lastTimestamp g \<and> cache_inv g' \<and>
    (if ts \<noteq> g_lastTimestamp g then r = Continue (False, ts) \<and> g_sequence g' = 0
     else if g_sequence g < g_maxSequence g
     then (\<exists>hit. r = Continue (hit, ts)) \<and> g_sequence g' = g_sequence g + 1
     else g_sequence g' = 0 \<and>
       (if ignoreMode then r = Continue (False, g_lastTimestamp g + 1) else r = Return (NeedWait 0)))"
proof -
  have l: "gen_layout g" "cache_inv g"
    using inv by (simp_all add: gen_inv_def)
  have idx: "0 \<le> g_cacheIndex g" using l(2) by (simp add: cache_inv_def)
  consider (new) "ts \<noteq> g_lastTimestamp g"
    | (cached) "ts = g_lastTimestamp g" "g_cacheIndex g < g_cacheValidCount g"
    | (plain) "ts = g_lastTimestamp g" "\<not> g_cacheIndex g < g_cacheValidCount g" by blast
  then show ?thesis
  proof cases
    case new
    with eq have "r = Continue (False, ts)"
      "g' = (if g_enableSequenceCache g then refillSequenceCache (g\<lparr>g_sequence := 0\<rparr>)
             else g\<lparr>g_sequence := 0\<rparr>)"
      by (auto simp: nextSequence_def Let_def)
    with reset_stage [OF l] new show ?thesis by simp
  next
    case cached
    have "g_enableSequenceCache g" using l(2) cached by (simp add: cache_inv_def)
    note n = cached_number [OF inv cached(2)]
    have "r = Continue (True, ts)"
      "g' = g\<lparr>g_cacheIndex := g_sequence g + 1, g_sequence := g_sequence g + 1\<rparr>"
      using eq cached n idx inv \<open>g_enableSequenceCache g\<close>
      by (auto simp: nextSequence_def Let_def gen_inv_def)
    with cached n show ?thesis by (auto simp: config_defs)
  next
    case plain
    then have "incrementSequence ignoreMode ts g = (r, g')"
      using eq by (simp add: nextSequence_def)
    from increment_stage [OF inv plain(2) this] plain(1) show ?thesis by auto
  qed
qed

lemma drift_stage:
  assumes "gen_inv g" and "0 \<le> ts" and "ts < 2 ^ 43"
    and "(if g_enableClockDriftProtection g then checkClockDriftNoSleep check ts g else (None, g)) = (e, g')"
  shows "config_of g' = config_of g \<and> key_of g' = key_of g \<and> gen_inv g' \<and>
    (e \<noteq> None \<longleftrightarrow> jump_refused g ts (g_lastTimestamp g))"
proof -
  have w: "i64 (ts - g_lastTimestamp g) = ts - g_lastTimestamp g"
    using assms(1-3) by (simp add: gen_inv_def i64_id)
  have w2: "g_lastTimestamp g \<le> ts \<Longrightarrow>
      i64 ((ts - g_lastTimestamp g) * Millisecond) = (ts - g_lastTimestamp g) * Millisecond"
    using assms(1-3) by (simp add: gen_inv_def i64_id)
  have "g' = g \<or> g' = g\<lparr>g_lastClockCheck := check\<rparr>"
    using assms(4) by (auto simp: checkClockDriftNoSleep_def Let_def split: if_splits)
  then have "config_of g' = config_of g \<and> key_of g' = key_of g \<and> gen_inv g'"
    using assms(1) gen_layout_config [of g' g]
    by (auto simp: gen_inv_def key_of_def)
  moreover have "e \<noteq> None \<longleftrightarrow> jump_refused g ts (g_lastTimestamp g)"
    using assms(4) w w2 by (auto simp: jump_refused_def checkClockDriftNoSleep_def Let_def split: if_splits)
  ultimately show ?thesis by blast
qed


lemma backward_stage:
  assumes "gen_inv g" and "0 \<le> ts" and "ts < 2 ^ 43" and "handleBackwardClock ts g = (r, g')"
  shows "config_of g' = config_of g \<and> key_of g' = key_of g \<and> gen_inv g' \<and>
    (let l = g_lastTimestamp g; act = g_clockDriftAction g in
     if \<not> ts < l then r = Continue (False, ts)
     else if act = ClockDriftActionWait then
       (if (l - ts) * Millisecond > MaxClockBackwardWait then \<exists>e. r = Return (Failed e)
        else r = Return (NeedWait (min ((l - ts + 1) * Millisecond) MaxClockBackwardWait)))
     else if act = ClockDriftActionIgnore \<and> l - ts \<le> 3600000 then r = Continue (True, l)
     else \<exists>e. r = Return (Failed e))"
proof (cases "ts < g_lastTimestamp g")
  case False
  with assms show ?thesis by (simp add: handleBackwardClock_def)
next
  case True
  let ?l = "g_lastTimestamp g"
  let ?g = "prom PromClockDriftEvents (onMetrics RecordClockDrift
      (g\<lparr>g_clockBackwardCount := i64 (g_clockBackwardCount g + 1)\<rparr>))"
  have w: "i64 (?l - ts) = ?l - ts" "i64 ((?l - ts) * Millisecond) = (?l - ts) * Millisecond"
    using True assms(1-3) by (simp_all add: gen_inv_def i64_id)
  have w3: "(?l - ts) * Millisecond \<le> MaxClockBackwardWait \<Longrightarrow>
      i64 ((?l - ts) * Millisecond + Millisecond) = (?l - ts + 1) * Millisecond"
    using True by (simp add: MaxClockBackwardWait_def i64_id)
  have lim: "g_maxIgnoreBackwardDriftMs g = 3600000"
    using assms(1) by (simp add: gen_inv_def gen_layout_def)
  have g': "g' = ?g"
    using assms(4) True by (auto simp: handleBackwardClock_def Let_def split: if_splits)
  have "config_of ?g = config_of g" by simp
  moreover from this have "gen_inv ?g"
    using assms(1) gen_layout_config [of ?g g]
    by (simp add: gen_inv_def same_config [OF \<open>config_of ?g = config_of g\<close>])
  ultimately have frame: "config_of g' = config_of g \<and> key_of g' = key_of g \<and> gen_inv g'"
    by (simp add: g' key_of_def)
  have "r = (if g_clockDriftAction g = ClockDriftActionError
             then Return (Failed (driftError ts ?l ((?l - ts) * Millisecond)))
             else if g_clockDriftAction g = ClockDriftActionWait then
               (if (?l - ts) * Millisecond > MaxClockBackwardWait
                then Return (Failed (driftError ts ?l ((?l - ts) * Millisecond)))
                else Return (NeedWait (min ((?l - ts + 1) * Millisecond) MaxClockBackwardWait)))
             else if g_clockDriftAction g = ClockDriftActionIgnore then
               (if ?l - ts > 3600000
                then Return (Failed (driftError ts ?l ((?l - ts) * Millisecond)))
                else Continue (True, ?l))
             else Return (Failed (UnknownDriftAction (g_clockDriftAction g))))"
    using assms(4) True w w3 lim
    by (auto simp: handleBackwardClock_def Let_def min_def split: if_splits)
  with frame True show ?thesis by (auto simp: Let_def action_defs)
qed

section \<open>The refinement\<close>

lemma emit_stage:
  assumes "emitID hit ts g = (r, g')"
  shows "r = Generated (idOf g ts (g_sequence g)) hit \<and> config_of g' = config_of g \<and>
    g_lastTimestamp g' = ts \<and> g_sequence g' = g_sequence g \<and> cache_inv g' = cache_inv g"
  using assms by (auto simp: emitID_def Let_def encodeID_def idOf_def)

lemma idOf_config:
  assumes "config_of g' = config_of g"
  shows "idOf g' t q = idOf g t q"
  by (simp add: idOf_def same_config [OF assms])

lemma sequence_spec_config:
  assumes "config_of g' = config_of g"
  shows "sequence_spec g' ts k = sequence_spec g ts k"
  by (cases k) (simp add: same_config [OF assms])

lemma gen_invI:
  assumes "config_of g' = config_of g" and "gen_inv g" and "cache_inv g'"
    and "0 \<le> g_sequence g'" and "g_sequence g' \<le> g_maxSequence g"
    and "-1 \<le> g_lastTimestamp g'" and "g_lastTimestamp g' < 2 ^ 43"
  shows "gen_inv g'"
  using assms gen_layout_config [OF assms(1)] same_config(11) [OF assms(1)]
  by (simp add: gen_inv_def)

text \<open>The attempt after the drift check.\<close>

definition runStages :: "int \<Rightarrow> Generator \<Rightarrow> attempt \<times> Generator" where
  "runStages ts g =
     (case handleBackwardClock ts g of
        (Return r, g) \<Rightarrow> (r, g)
      | (Continue (ignoreMode, timestamp), g) \<Rightarrow>
        (case nextSequence ignoreMode timestamp g of
           (Return r, g) \<Rightarrow> (r, g)
         | (Continue (cacheHit, timestamp), g) \<Rightarrow> emitID cacheHit timestamp g))"

lemma tryGenerateID_stages:
  "tryGenerateID now check g =
     (if g_isShuttingDown g
      then (Failed GeneratorShuttingDown, onMetrics (RecordError ''generation'') g)
      else case (if g_enableClockDriftProtection g
                 then checkClockDriftNoSleep check (getCurrentTimestamp now) g else (None, g)) of
        (Some err, g) \<Rightarrow> (Failed err, g)
      | (None, g) \<Rightarrow> runStages (getCurrentTimestamp now) g)"
  by (simp add: tryGenerateID_def runStages_def Let_def split: prod.split option.split)

lemma sequence_stages:
  assumes inv: "gen_inv g" and ts: "-1 \<le> t" "t < 2 ^ 43 - 1"
    and eq: "(case nextSequence ignoreMode t g of (Return r, g) \<Rightarrow> (r, g)
         | (Continue (cacheHit, timestamp), g) \<Rightarrow> emitID cacheHit timestamp g) = (r, g')"
    and spec: "(if t \<noteq> g_lastTimestamp g then (Emit t 0, t, 0)
       else if g_sequence g < g_maxSequence g then (Emit t (g_sequence g + 1), t, g_sequence g + 1)
       else if ignoreMode then (Emit (t + 1) 0, t + 1, 0) else (Overflow, t, 0)) = (o', k)"
  shows "matches g o' r \<and> key_of g' = k \<and> gen_inv g' \<and> config_of g' = config_of g"
proof -
  obtain n g1 where n: "nextSequence ignoreMode t g = (n, g1)" by fastforce
  note st = next_stage [OF inv n]
  have m: "0 < g_maxSequence g" "0 \<le> g_sequence g" "g_sequence g \<le> g_maxSequence g"
    using inv gen_layout_maxSequence [of g] by (simp_all add: gen_inv_def)
  show ?thesis
  proof (cases n)
    case (Return r1)
    with st eq n spec m show ?thesis
      using gen_invI [of g1 g] inv by (auto simp: key_of_def gen_inv_def split: if_splits)
  next
    case (Continue c)
    obtain hit t1 where c: "c = (hit, t1)" by fastforce
    with eq n Continue have e: "emitID hit t1 g1 = (r, g')" by simp
    note em = emit_stage [OF e]
    have cfg: "config_of g' = config_of g" using st em by simp
    have id: "idOf g1 t1 q = idOf g t1 q" for q
      using st by (intro idOf_config) simp
    show ?thesis
      using st em spec m Continue c ts inv gen_invI [OF cfg inv]
      by (auto simp: key_of_def cfg id split: if_splits)
  qed
qed

lemma runStages_refines:
  assumes inv: "gen_inv g" and ts: "0 \<le> ts" "ts < 2 ^ 43 - 2 ^ 41"
    and eq: "runStages ts g = (r, g')" and spec: "sequence_spec g ts (key_of g) = (o', k)"
  shows "matches g o' r \<and> key_of g' = k \<and> gen_inv g' \<and> config_of g' = config_of g"
proof -
  obtain b g1 where b: "handleBackwardClock ts g = (b, g1)" by fastforce
  have st: "config_of g1 = config_of g" "key_of g1 = key_of g" "gen_inv g1"
    using backward_stage [OF inv _ _ b] ts by auto
  note out = backward_stage [OF inv _ _ b, unfolded Let_def, THEN conjunct2, THEN conjunct2, THEN conjunct2]
  have id: "idOf g1 t q = idOf g t q" for t q
    using st by (intro idOf_config)
  have match: "matches g1 o' r = matches g o' r"
    by (cases o') (simp_all add: id)
  have key: "g_lastTimestamp g1 = g_lastTimestamp g" "g_sequence g1 = g_sequence g"
    using st(2) by (simp_all add: key_of_def)
  have max: "g_maxSequence g1 = g_maxSequence g" using same_config [OF st(1)] by simp
  show ?thesis
  proof (cases b)
    case (Return r1)
    with out ts eq b spec st show ?thesis
      by (auto simp: runStages_def key_of_def split: if_splits)
  next
    case (Continue c)
    obtain ign t where c: "c = (ign, t)" by fastforce
    have s: "(case nextSequence ign t g1 of (Return r, g) \<Rightarrow> (r, g)
         | (Continue (cacheHit, timestamp), g) \<Rightarrow> emitID cacheHit timestamp g) = (r, g')"
      using eq b Continue c by (simp add: runStages_def)
    have t: "-1 \<le> t" "t < 2 ^ 43 - 1"
      and sp: "(if t \<noteq> g_lastTimestamp g1 then (Emit t 0, t, 0)
       else if g_sequence g1 < g_maxSequence g1 then (Emit t (g_sequence g1 + 1), t, g_sequence g1 + 1)
       else if ign then (Emit (t + 1) 0, t + 1, 0) else (Overflow, t, 0)) = (o', k)"
      using out ts spec Continue c inv
      by (auto simp: key max key_of_def gen_inv_def action_defs split: if_splits)
    from sequence_stages [OF st(3) t s sp] show ?thesis
      using match st(1) by simp
  qed
qed

lemma attempt_refines_aux:
  assumes inv: "gen_inv g" and clock: "clock_sane now" and eq: "tryGenerateID now check g = (r, g')"
    and spec: "attempt_spec g (getCurrentTimestamp now) (key_of g) = (o', k)"
  shows "matches g o' r \<and> key_of g' = k \<and> gen_inv g' \<and> config_of g' = config_of g"
proof (cases "g_isShuttingDown g")
  case True
  have "gen_inv (onMetrics f g)" for f
    using inv gen_layout_config [of "onMetrics f g" g]
    by (simp add: gen_inv_def)
  with True eq spec show ?thesis
    by (auto simp: tryGenerateID_stages attempt_spec_def key_of_def)
next
  case False
  let ?ts = "getCurrentTimestamp now"
  note ts = clock_sane_timestamp [OF clock]
  obtain e g1 where d: "(if g_enableClockDriftProtection g then checkClockDriftNoSleep check ?ts g
      else (None, g)) = (e, g1)" by fastforce
  have st: "config_of g1 = config_of g" "key_of g1 = key_of g" "gen_inv g1"
    and e: "e \<noteq> None \<longleftrightarrow> jump_refused g ?ts (g_lastTimestamp g)"
    using drift_stage [OF inv _ _ d] ts by auto
  show ?thesis
  proof (cases e)
    case (Some err)
    with False eq d e spec st show ?thesis
      by (auto simp: tryGenerateID_stages attempt_spec_def key_of_def)
  next
    case None
    then have run: "runStages ?ts g1 = (r, g')"
      using False eq d by (simp add: tryGenerateID_stages)
    have "attempt_spec g ?ts (key_of g) = sequence_spec g ?ts (key_of g)"
      using None False e by (simp add: attempt_spec_def key_of_def del: sequence_spec.simps)
    then have "sequence_spec g1 ?ts (key_of g1) = (o', k)"
      using spec by (simp only: st(2) sequence_spec_config [OF st(1)])
    note ref = runStages_refines [OF st(3) ts(2,3) run this]
    have "matches g1 o' r = matches g o' r"
      by (cases o') (simp_all add: idOf_config [OF st(1)])
    with ref st show ?thesis by simp
  qed
qed

end
