(* ===== verification/Generator_New.thy ===== *)
theory Generator_New
  imports Generator_Spec
begin

text \<open>
  Construction establishes the invariant, and parsing: what \<open>ParseID\<close> accepts, what it
  returns, and that it undoes generation.
\<close>

section \<open>Construction\<close>

text \<open>A host whose clock is between 1970 and 2116 and whose calendar does not reach back
  before 1678 (the limit of \<open>int64\<close> nanoseconds) when it goes fifty years back.\<close>

definition host_sane :: "host \<Rightarrow> bool" where
  "host_sane h \<longleftrightarrow> clock_sane (clock h 0) \<and>
     - (2 ^ 63) \<le> wall (addYears h (-50) (clock h 1)) \<and>
     wall (addYears h (-50) (clock h 1)) < 2 ^ 63"

lemma UnixMilli_bounds:
  assumes "- (2 ^ 63) \<le> wall t" and "wall t < 2 ^ 63"
  shows "- (2 ^ 44) \<le> UnixMilli t" and "UnixMilli t \<le> 2 ^ 44"
proof -
  have "- (2 ^ 44) \<le> wall t div Millisecond \<and> wall t div Millisecond \<le> 2 ^ 44"
    using assms by auto
  then show "- (2 ^ 44) \<le> UnixMilli t" and "UnixMilli t \<le> 2 ^ 44"
    by (simp_all add: UnixMilli_def i64_id)
qed

lemma i64_pow_minus_one:
  assumes "n \<le> 62"
  shows "i64 (2 ^ n - 1) = 2 ^ n - 1"
proof (rule i64_id)
  have "(2 :: int) ^ n \<le> 2 ^ 62" using assms by (intro power_increasing) auto
  then show "(2 :: int) ^ n - 1 < 2 ^ 63" by simp
  have "- (2 ^ 63) \<le> (0 :: int)" by simp
  also have "0 \<le> (2 :: int) ^ n - 1" by simp
  finally show "- (2 ^ 63) \<le> (2 :: int) ^ n - 1" .
qed

lemma shl64_mask:
  assumes "0 \<le> n" and "n \<le> 20"
  shows "i64 (shl64 1 n - 1) = 2 ^ nat n - 1"
proof -
  have "nat n \<le> 62" using assms by simp
  then show ?thesis using assms by (simp add: shl64_one i64_pow_minus_one)
qed

lemma cache_inv_new:
  "g_cacheIndex g = 0 \<Longrightarrow> g_cacheValidCount g = 0 \<Longrightarrow> 0 \<le> g_maxSequence g \<Longrightarrow> cache_inv g"
  by (simp add: cache_inv_def)

lemma new_establishes_inv_aux:
  assumes new: "NewSnowflakeGeneratorCore h dc wk (Some c) = Inr g" and host: "host_sane h"
  shows "gen_inv g \<and> key_of g = (-1, 0) \<and> g_datacenterID g = dc \<and> g_workerID g = wk \<and>
    dc_bits g = DatacenterIDBits c \<and> g_workerIDBits g = WorkerIDBits c \<and>
    g_sequenceBits g = SequenceBits c \<and> \<not> g_isShuttingDown g"
proof -
  have v: "Validate h c = None"
    using new by (auto simp: NewSnowflakeGeneratorCore_def split: option.splits)
  then have lay: "layout_ok (DatacenterIDBits c) (WorkerIDBits c) (SequenceBits c)"
    and ep: "epoch_ok h (CustomEpoch c)"
    by (simp_all add: Validate_accepts_aux)
  have b: "0 \<le> DatacenterIDBits c" "DatacenterIDBits c \<le> 10" "1 \<le> WorkerIDBits c"
    "WorkerIDBits c \<le> 15" "7 \<le> SequenceBits c" "SequenceBits c \<le> 20"
    "DatacenterIDBits c + WorkerIDBits c + SequenceBits c \<le> 22"
    using lay by (auto simp: layout_ok_def)
  have masks: "i64 (shl64 1 (DatacenterIDBits c) - 1) = 2 ^ nat (DatacenterIDBits c) - 1"
    "i64 (shl64 1 (WorkerIDBits c) - 1) = 2 ^ nat (WorkerIDBits c) - 1"
    "i64 (shl64 1 (SequenceBits c) - 1) = 2 ^ nat (SequenceBits c) - 1"
    using b by (auto intro!: shl64_mask)
  have sums: "i64 (i64 (DatacenterIDBits c + WorkerIDBits c) + SequenceBits c) =
      DatacenterIDBits c + WorkerIDBits c + SequenceBits c"
    "i64 (WorkerIDBits c + SequenceBits c) = WorkerIDBits c + SequenceBits c"
    "i64 (64 - (DatacenterIDBits c + WorkerIDBits c + SequenceBits c)) =
      64 - (DatacenterIDBits c + WorkerIDBits c + SequenceBits c)"
    using b by (auto simp: i64_id)
  have "- (2 ^ 44) \<le> CustomEpoch c \<and> CustomEpoch c \<le> 2 ^ 44"
    using ep host UnixMilli_bounds [of "clock h 0"] UnixMilli_bounds [of "addYears h (-50) (clock h 1)"]
    by (auto simp: epoch_ok_def host_sane_def clock_sane_def)
  moreover have "(1 :: int) \<le> 2 ^ nat (SequenceBits c)" by simp
  ultimately show ?thesis
    using new v b lay
    by (auto simp: NewSnowflakeGeneratorCore_def Let_def masks sums gen_inv_def gen_layout_def
        dc_bits_def key_of_def intro!: cache_inv_new split: if_splits)
qed

section \<open>The layout of a generator\<close>

text \<open>The field widths of a generator as natural numbers, and its shifts in terms of them.\<close>

definition dB :: "Generator \<Rightarrow> nat" where "dB g = nat (dc_bits g)"
definition wB :: "Generator \<Rightarrow> nat" where "wB g = nat (g_workerIDBits g)"
definition sB :: "Generator \<Rightarrow> nat" where "sB g = nat (g_sequenceBits g)"

lemma layout_widths:
  assumes "gen_layout g"
  shows "g_timestampShift g = int (dB g + wB g + sB g)" "g_datacenterShift g = int (wB g + sB g)"
    "g_workerShift g = int (sB g)" "g_maxDatacenterID g = 2 ^ dB g - 1"
    "g_maxWorkerID g = 2 ^ wB g - 1" "g_maxSequence g = 2 ^ sB g - 1"
    "8 \<le> dB g + wB g + sB g" "dB g + wB g + sB g \<le> 22"
    "g_timestampBits g = 64 - int (dB g + wB g + sB g)"
  using assms by (auto simp: gen_layout_def layout_ok_def dB_def wB_def sB_def dc_bits_def)

text \<open>A timestamp that fits: not before the epoch, and before the end of the lifetime, \<open>2 ^ 41\<close>
  milliseconds (69 years) or more after it.\<close>

definition in_lifetime :: "Generator \<Rightarrow> int \<Rightarrow> bool" where
  "in_lifetime g t \<longleftrightarrow> g_customEpoch g \<le> t \<and>
     (t - g_customEpoch g) * 2 ^ (dB g + wB g + sB g) < 2 ^ 63"

lemma lifetime_41:
  assumes "gen_layout g" and "g_customEpoch g \<le> t" and "t < g_customEpoch g + 2 ^ 41"
  shows "in_lifetime g t"
proof -
  have "(t - g_customEpoch g) * 2 ^ (dB g + wB g + sB g) \<le> (t - g_customEpoch g) * 2 ^ 22"
    using assms layout_widths(8) [OF assms(1)] by (intro mult_left_mono power_increasing) auto
  also have "\<dots> < 2 ^ 41 * 2 ^ 22" using assms(3) by simp
  finally show ?thesis using assms(2) by (simp add: in_lifetime_def)
qed

lemma lifetime_bound:
  assumes "gen_layout g" and "in_lifetime g t"
  shows "t - g_customEpoch g < 2 ^ 55"
proof -
  have "(t - g_customEpoch g) * 2 ^ 8 \<le> (t - g_customEpoch g) * 2 ^ (dB g + wB g + sB g)"
    using assms layout_widths(7) [OF assms(1)]
    by (intro mult_left_mono power_increasing) (auto simp: in_lifetime_def)
  with assms(2) show ?thesis by (simp add: in_lifetime_def)
qed

lemma generator_fields_ok:
  assumes "gen_layout g" and "in_lifetime g t" and "0 \<le> q" and "q \<le> g_maxSequence g"
  shows "fields_ok (dB g) (wB g) (sB g) (t - g_customEpoch g) (g_datacenterID g) (g_workerID g) q"
proof -
  have "0 \<le> g_datacenterID g" "g_datacenterID g \<le> g_maxDatacenterID g"
    "0 \<le> g_workerID g" "g_workerID g \<le> g_maxWorkerID g"
    using assms(1) unfolding gen_layout_def by blast+
  with layout_widths(4-6) [OF assms(1)] assms(2-4) show ?thesis
    by (simp add: fields_ok_def in_lifetime_def)
qed

text \<open>Within its lifetime a generator's ID is the positional number of its four fields.\<close>

lemma idOf_packed:
  assumes "gen_layout g" and "in_lifetime g t" and "0 \<le> q" and "q \<le> g_maxSequence g"
  shows "idOf g t q = packed (dB g) (wB g) (sB g) (t - g_customEpoch g) (g_datacenterID g) (g_workerID g) q"
proof -
  have "i64 (t - g_customEpoch g) = t - g_customEpoch g"
    using lifetime_bound [OF assms(1,2)] assms(2) by (simp add: in_lifetime_def i64_id)
  with composeID_packed [OF generator_fields_ok [OF assms]] layout_widths [OF assms(1)]
  show ?thesis by (simp add: idOf_def)
qed

lemma idOf_range:
  assumes "gen_layout g" and "in_lifetime g t" and "0 \<le> q" and "q \<le> g_maxSequence g"
  shows "0 \<le> idOf g t q" and "idOf g t q < 2 ^ 63"
proof -
  note f = generator_fields_ok [OF assms]
  have "dB g + wB g + sB g \<le> 63" using layout_widths(8) [OF assms(1)] by simp
  with packed_nonneg [OF f] packed_less [OF f]
  show "0 \<le> idOf g t q" and "idOf g t q < 2 ^ 63"
    by (simp_all add: idOf_packed [OF assms])
qed

section \<open>Parsing\<close>

lemma shr64_shifts:
  assumes "gen_layout g"
  shows "shr64 x (g_timestampShift g) = x div 2 ^ (dB g + wB g + sB g)"
    "shr64 x (g_datacenterShift g) = x div 2 ^ (wB g + sB g)"
    "shr64 x (g_workerShift g) = x div 2 ^ sB g"
  by (simp_all add: layout_widths [OF assms] shr64_div flip: of_nat_add)

lemma i64_small_sum:
  assumes "- (2 ^ 44) \<le> a" and "a \<le> 2 ^ 44" and "0 \<le> b" and "b \<le> 2 ^ 62"
  shows "i64 (a + b) = a + b"
  using assms by (intro i64_id) simp_all

lemma parse_timestamp:
  assumes "gen_layout g" and "0 \<le> x" and "x < 2 ^ 63"
  shows "i64 (x div 2 ^ (dB g + wB g + sB g) + g_customEpoch g) =
      x div 2 ^ (dB g + wB g + sB g) + g_customEpoch g"
    "x div 2 ^ (dB g + wB g + sB g) \<le> 2 ^ (64 - (dB g + wB g + sB g)) - 1"
    "i64 (g_customEpoch g + i64 (shl64 1 (g_timestampBits g) - 1)) =
      g_customEpoch g + 2 ^ (64 - (dB g + wB g + sB g)) - 1"
proof -
  let ?n = "dB g + wB g + sB g"
  have n: "8 \<le> ?n" "?n \<le> 22" using layout_widths(7,8) [OF assms(1)] .
  have e: "- (2 ^ 44) \<le> g_customEpoch g" "g_customEpoch g \<le> 2 ^ 44"
    using assms(1) by (auto simp: gen_layout_def)
  have big: "(2 :: int) ^ (64 - ?n) \<le> 2 ^ 56" using n by (intro power_increasing) auto
  have "x div 2 ^ ?n < 2 ^ (64 - ?n)"
  proof (rule ccontr)
    assume "\<not> x div 2 ^ ?n < 2 ^ (64 - ?n)"
    then have "2 ^ (64 - ?n) * 2 ^ ?n \<le> x div 2 ^ ?n * 2 ^ ?n" by simp
    also have "\<dots> \<le> x" by (simp add: div_mult_le_self)
    finally show False using assms(3) n by (simp flip: power_add)
  qed
  then show lt: "x div 2 ^ ?n \<le> 2 ^ (64 - ?n) - 1" by simp
  have "0 \<le> x div 2 ^ ?n" using assms(2) by (simp add: pos_imp_zdiv_nonneg_iff)
  with lt big e show "i64 (x div 2 ^ ?n + g_customEpoch g) = x div 2 ^ ?n + g_customEpoch g"
    by (intro i64_id) simp_all
  have tb: "g_timestampBits g = int (64 - ?n)" using layout_widths(9) [OF assms(1)] n by simp
  have "shl64 1 (g_timestampBits g) = 1 * 2 ^ nat (g_timestampBits g)"
    using big by (intro shl64_id) (simp_all add: tb)
  then have s: "shl64 1 (g_timestampBits g) = 2 ^ (64 - ?n)" by (simp add: tb)
  have one: "(1 :: int) \<le> 2 ^ (64 - ?n)" by simp
  have "64 - ?n \<le> 62" using n by simp
  then have "i64 (shl64 1 (g_timestampBits g) - 1) = 2 ^ (64 - ?n) - 1"
    unfolding s by (rule i64_pow_minus_one)
  then show "i64 (g_customEpoch g + i64 (shl64 1 (g_timestampBits g) - 1)) =
      g_customEpoch g + 2 ^ (64 - ?n) - 1"
    using i64_small_sum [of "g_customEpoch g" "2 ^ (64 - ?n) - 1"] big e one by simp
qed

text \<open>On a constructed generator the range check on the timestamp never fires: parsing is
  total on nonnegative IDs.\<close>

lemma ParseID_eq:
  assumes "gen_layout g" and "x < 2 ^ 63"
  shows "ParseID g x =
    (if x < 0 then Inl (NegativeID x)
     else let t = x div 2 ^ (dB g + wB g + sB g) + g_customEpoch g in
       Inr \<lparr>sid_ID = x, sid_Timestamp = unix_ms t,
            sid_DatacenterID = x div 2 ^ (wB g + sB g) mod 2 ^ dB g,
            sid_WorkerID = x div 2 ^ sB g mod 2 ^ wB g, sid_Sequence = x mod 2 ^ sB g\<rparr>)"
proof (cases "x < 0")
  case True
  then show ?thesis by (simp add: ParseID_def)
next
  case False
  then have x: "0 \<le> x" by simp
  have "0 \<le> x div 2 ^ (dB g + wB g + sB g)" using x by (simp add: pos_imp_zdiv_nonneg_iff)
  with x show ?thesis
    using parse_timestamp [OF assms(1) x assms(2)]
    by (simp add: ParseID_def Let_def shr64_shifts [OF assms(1)] layout_widths(4-6) [OF assms(1)]
        and_mask_mod)
qed

text \<open>The interface of an ID format: \<open>enc\<close> and \<open>dec\<close> are inverse between the valid parts and
  the valid IDs. What a client may rely on follows from the two round trips.\<close>

locale id_format =
  fixes part_ok :: "'p \<Rightarrow> bool" and id_ok :: "'i \<Rightarrow> bool"
    and enc :: "'p \<Rightarrow> 'i" and dec :: "'i \<Rightarrow> 'p option"
  assumes enc_ok: "part_ok p \<Longrightarrow> id_ok (enc p)"
    and dec_enc: "part_ok p \<Longrightarrow> dec (enc p) = Some p"
    and enc_dec: "id_ok i \<Longrightarrow> dec i = Some p \<Longrightarrow> part_ok p \<and> enc p = i"
    and dec_total: "id_ok i \<Longrightarrow> dec i \<noteq> None"
begin

lemma enc_inj: "part_ok p \<Longrightarrow> part_ok q \<Longrightarrow> enc p = enc q \<Longrightarrow> p = q"
  by (metis dec_enc option.inject)

lemma enc_onto: "id_ok i \<Longrightarrow> \<exists>p. part_ok p \<and> enc p = i"
  by (metis dec_total enc_dec not_None_eq)

lemma dec_inj: "id_ok i \<Longrightarrow> id_ok j \<Longrightarrow> dec i = dec j \<Longrightarrow> i = j"
  by (metis dec_total enc_dec not_None_eq)

lemma dec_iff: "id_ok i \<Longrightarrow> dec i = Some p \<longleftrightarrow> part_ok p \<and> i = enc p"
  by (metis enc_dec dec_enc)

end

text \<open>The generator provides it: a part is a timestamp in milliseconds, a datacenter, a
  worker and a sequence number; encoding is what \<open>tryGenerateID\<close> computes on a generator of
  that datacenter and worker, decoding is \<open>ParseID\<close>.\<close>

type_synonym id_part = "int \<times> int \<times> int \<times> int"

definition valid_part :: "Generator \<Rightarrow> id_part \<Rightarrow> bool" where
  "valid_part g p = (case p of (t, dc, wk, q) \<Rightarrow> gen_layout g \<and>
     fields_ok (dB g) (wB g) (sB g) (t - g_customEpoch g) dc wk q)"

definition valid_id :: "Generator \<Rightarrow> int \<Rightarrow> bool" where
  "valid_id g x \<longleftrightarrow> gen_layout g \<and> 0 \<le> x \<and> x < 2 ^ 63"

definition encode_part :: "Generator \<Rightarrow> id_part \<Rightarrow> int" where
  "encode_part g p = (case p of (t, dc, wk, q) \<Rightarrow>
     encodeID (g\<lparr>g_datacenterID := dc, g_workerID := wk, g_sequence := q\<rparr>) t)"

definition sid_part :: "SID \<Rightarrow> id_part" where
  "sid_part s = (wall (sid_Timestamp s) div Millisecond, sid_DatacenterID s, sid_WorkerID s, sid_Sequence s)"

definition decode_id :: "Generator \<Rightarrow> int \<Rightarrow> id_part option" where
  "decode_id g x = (case ParseID g x of Inl e \<Rightarrow> None | Inr s \<Rightarrow> Some (sid_part s))"

lemma decode_id_eq:
  assumes "gen_layout g" and "0 \<le> x" and "x < 2 ^ 63"
  shows "decode_id g x = Some (x div 2 ^ (dB g + wB g + sB g) + g_customEpoch g,
    x div 2 ^ (wB g + sB g) mod 2 ^ dB g, x div 2 ^ sB g mod 2 ^ wB g, x mod 2 ^ sB g)"
  using assms by (simp add: decode_id_def ParseID_eq Let_def sid_part_def wall_unix_ms)

lemma part_rel_bound:
  assumes "fields_ok d w s t dc wk q" and "8 \<le> d + w + s"
  shows "0 \<le> t \<and> t < 2 ^ 55"
proof -
  have "t * 2 ^ 8 \<le> t * 2 ^ (d + w + s)"
    using assms by (intro mult_left_mono power_increasing) (auto simp: fields_ok_def)
  also have "\<dots> < 2 ^ 63" using assms(1) by (simp add: fields_ok_def)
  finally show ?thesis using assms(1) by (simp add: fields_ok_def)
qed

lemma encode_part_packed:
  assumes "valid_part g (t, dc, wk, q)"
  shows "encode_part g (t, dc, wk, q) = packed (dB g) (wB g) (sB g) (t - g_customEpoch g) dc wk q"
proof -
  have l: "gen_layout g" and f: "fields_ok (dB g) (wB g) (sB g) (t - g_customEpoch g) dc wk q"
    using assms by (simp_all add: valid_part_def)
  have "i64 (t - g_customEpoch g) = t - g_customEpoch g"
    using part_rel_bound [OF f layout_widths(7) [OF l]] by (simp add: i64_id)
  with composeID_packed [OF f] layout_widths(1-3,8) [OF l]
  show ?thesis by (simp add: encode_part_def encodeID_def)
qed

interpretation fmt: id_format "valid_part g" "valid_id g" "encode_part g" "decode_id g" for g
proof
  fix p assume p: "valid_part g p"
  obtain t dc wk q where pe: "p = (t, dc, wk, q)" by (cases p)
  have l: "gen_layout g" and f: "fields_ok (dB g) (wB g) (sB g) (t - g_customEpoch g) dc wk q"
    using p by (simp_all add: valid_part_def pe)
  have le: "dB g + wB g + sB g \<le> 63" using layout_widths(8) [OF l] by simp
  have e: "encode_part g p = packed (dB g) (wB g) (sB g) (t - g_customEpoch g) dc wk q"
    using encode_part_packed p pe by simp
  show ok: "valid_id g (encode_part g p)"
    using packed_nonneg [OF f] packed_less [OF f le] l by (simp add: valid_id_def e)
  show "decode_id g (encode_part g p) = Some p"
    using decode_id_eq [OF l, of "encode_part g p"] ok packed_fields [OF f]
    by (simp add: valid_id_def e [unfolded pe] pe)
next
  fix i p assume i: "valid_id g i" and d: "decode_id g i = Some p"
  then have l: "gen_layout g" and b: "0 \<le> i" "i < 2 ^ 63" by (simp_all add: valid_id_def)
  note dec = decode_id_eq [OF l b]
  have "valid_part g p"
    using d dec unpacked_ok [OF b] l by (auto simp: valid_part_def)
  moreover from this have "encode_part g p = i"
    using d dec packed_unpacked [where x = i] encode_part_packed by fastforce
  ultimately show "valid_part g p \<and> encode_part g p = i" by simp
next
  fix i assume "valid_id g i"
  then show "decode_id g i \<noteq> None" using decode_id_eq [of g i] by (simp add: valid_id_def)
qed

end
