(* ===== verification/Generator_Run.thy ===== *)
theory Generator_Run
  imports Generator_New "HOL-Library.Product_Lexorder"
begin

text \<open>
  Runs of a generator. Every method holds the generator's mutex throughout, so a concurrent
  execution is a list of whole operations: attempts by any number of callers, worker changes
  by the worker manager, shutdown. What is proved here holds for every such list.
\<close>

section \<open>Operations and runs\<close>

datatype gop = Attempt time time | ChangeWorker int | ShutDown

definition gstep :: "gop \<Rightarrow> Generator \<Rightarrow> attempt option \<times> Generator" where
  "gstep op g = (case op of
     Attempt now check \<Rightarrow> (case tryGenerateID now check g of (r, g) \<Rightarrow> (Some r, g))
   | ChangeWorker w \<Rightarrow> (None, SetWorkerID w g)
   | ShutDown \<Rightarrow> (None, Shutdown g))"

text \<open>The attempts' results, in order, and the last state.\<close>

fun grun :: "gop list \<Rightarrow> Generator \<Rightarrow> attempt option list \<times> Generator" where
  "grun [] g = ([], g)"
| "grun (op # ops) g =
     (let (r, g) = gstep op g; (rs, g) = grun ops g in (r # rs, g))"

fun id_of_result :: "attempt option \<Rightarrow> int list" where
  "id_of_result (Some (Generated x hit)) = [x]"
| "id_of_result r = []"

definition generated_ids :: "gop list \<Rightarrow> Generator \<Rightarrow> int list" where
  "generated_ids ops g = concat (map id_of_result (fst (grun ops g)))"

lemma generated_ids_simps:
  "generated_ids [] g = []"
  "generated_ids (op # ops) g = id_of_result (fst (gstep op g)) @ generated_ids ops (snd (gstep op g))"
  by (simp_all add: generated_ids_def Let_def split: prod.split)

section \<open>Every operation keeps the invariant\<close>

lemma SetWorkerID_inv:
  assumes "gen_inv g"
  shows "gen_inv (SetWorkerID w g) \<and> key_of (SetWorkerID w g) = key_of g"
proof -
  have "gen_layout (SetWorkerID w g)"
    using assms by (auto simp: gen_inv_def gen_layout_def SetWorkerID_def dc_bits_def)
  with assms show ?thesis
    by (auto simp: gen_inv_def SetWorkerID_def cache_inv_def key_of_def)
qed

lemma Shutdown_inv:
  assumes "gen_inv g"
  shows "gen_inv (Shutdown g) \<and> key_of (Shutdown g) = key_of g \<and> g_isShuttingDown (Shutdown g)"
  using assms
  by (auto simp: gen_inv_def gen_layout_def Shutdown_def dc_bits_def cache_inv_def key_of_def)

text \<open>What no operation changes.\<close>

definition shape :: "Generator \<Rightarrow> int list \<times> string \<times> bool" where
  "shape g = ([g_datacenterID g, g_customEpoch g, g_workerIDBits g, g_sequenceBits g,
     g_timestampShift g, g_datacenterShift g, g_workerShift g, g_maxDatacenterID g,
     g_maxWorkerID g, g_maxSequence g, g_timestampBits g, g_maxClockDrift g],
     g_clockDriftAction g, g_enableClockDriftProtection g)"

lemma same_shape:
  assumes "shape g' = shape g"
  shows "g_datacenterID g' = g_datacenterID g" "g_customEpoch g' = g_customEpoch g"
    "g_workerIDBits g' = g_workerIDBits g" "g_sequenceBits g' = g_sequenceBits g"
    "g_timestampShift g' = g_timestampShift g" "g_datacenterShift g' = g_datacenterShift g"
    "g_workerShift g' = g_workerShift g" "g_maxSequence g' = g_maxSequence g"
    "g_clockDriftAction g' = g_clockDriftAction g"
    "dB g' = dB g" "wB g' = wB g" "sB g' = sB g"
  using assms by (simp_all add: shape_def dB_def wB_def sB_def dc_bits_def)

lemma shape_config:
  assumes "config_of g' = config_of g"
  shows "shape g' = shape g"
  by (simp add: shape_def same_config [OF assms])

lemma shape_ops: "shape (SetWorkerID w g) = shape g" "shape (Shutdown g) = shape g"
  by (simp_all add: shape_def SetWorkerID_def Shutdown_def)

text \<open>The reading of an attempt: sane, not before the epoch, and an hour and a millisecond
  (the most the ignore action runs ahead) before the end of the lifetime.\<close>

definition reading_ok :: "Generator \<Rightarrow> gop \<Rightarrow> bool" where
  "reading_ok g op = (case op of Attempt now check \<Rightarrow> clock_sane now \<and>
       g_customEpoch g \<le> getCurrentTimestamp now \<and> in_lifetime g (getCurrentTimestamp now + 3600001)
     | _ \<Rightarrow> True)"

lemma reading_ok_shape:
  assumes "shape g' = shape g"
  shows "reading_ok g' op = reading_ok g op"
  by (cases op) (simp_all add: reading_ok_def in_lifetime_def same_shape [OF assms])

section \<open>One step on keys\<close>


definition advanced :: "Generator \<Rightarrow> attempt option \<Rightarrow> Generator \<Rightarrow> bool" where
  "advanced g r g' \<longleftrightarrow>
     (case r of
        Some (Generated x hit) \<Rightarrow> key_of g < key_of g' \<and>
          x = idOf g (g_lastTimestamp g') (g_sequence g')
      | Some (NeedWait d) \<Rightarrow> if d = 0 then key_of g = (g_lastTimestamp g, g_maxSequence g) \<and>
            key_of g' = (g_lastTimestamp g, 0) else key_of g' = key_of g
      | Some IndexPanic \<Rightarrow> False
      | _ \<Rightarrow> key_of g' = key_of g)"

lemma attempt_advances:
  assumes inv: "gen_inv g" and clock: "clock_sane now"
    and eq: "tryGenerateID now check g = (r, g')"
  shows "advanced g (Some r) g' \<and> gen_inv g' \<and> config_of g' = config_of g \<and>
    (id_of_result (Some r) \<noteq> [] \<longrightarrow> getCurrentTimestamp now \<le> g_lastTimestamp g' \<and>
       g_lastTimestamp g' \<le> getCurrentTimestamp now + 3600001)"
proof -
  let ?ts = "getCurrentTimestamp now"
  obtain o' k where spec: "attempt_spec g ?ts (key_of g) = (o', k)" by (rule prod.exhaust)
  have ref: "matches g o' r" "key_of g' = k" "gen_inv g'" "config_of g' = config_of g"
    using attempt_refines_aux [OF inv clock eq spec] by auto
  have q: "g_sequence g \<le> g_maxSequence g" using inv by (simp add: gen_inv_def)
  have "advanced g (Some r) g'"
    using ref(1,2) spec q
    by (auto simp: advanced_def attempt_spec_def key_of_def MaxClockBackwardWait_def
        split: if_splits)
  moreover have "id_of_result (Some r) \<noteq> [] \<longrightarrow> ?ts \<le> g_lastTimestamp g' \<and> g_lastTimestamp g' \<le> ?ts + 3600001"
    using ref(1,2) spec
    by (auto simp: attempt_spec_def key_of_def split: if_splits)
  ultimately show ?thesis using ref(3,4) by blast
qed

text \<open>The same for any operation.\<close>

lemma step_advances:
  assumes inv: "gen_inv g" and ok: "reading_ok g op" and eq: "gstep op g = (r, g')"
  shows "gen_inv g' \<and> shape g' = shape g \<and>
    (if r = Some (NeedWait 0) then key_of g = (g_lastTimestamp g, g_maxSequence g) \<and>
        key_of g' = (g_lastTimestamp g, 0)
     else if id_of_result r = [] then key_of g' = key_of g
     else key_of g < key_of g' \<and> id_of_result r = [idOf g' (g_lastTimestamp g') (g_sequence g')] \<and>
       in_lifetime g (g_lastTimestamp g') \<and> (\<exists>now check. op = Attempt now check \<and>
         getCurrentTimestamp now \<le> g_lastTimestamp g'))"
proof (cases op)
  case (Attempt now check)
  then obtain r1 where r1: "tryGenerateID now check g = (r1, g')" "r = Some r1"
    using eq by (auto simp: gstep_def split: prod.splits)
  have clock: "clock_sane now" "g_customEpoch g \<le> getCurrentTimestamp now"
    "in_lifetime g (getCurrentTimestamp now + 3600001)"
    using ok Attempt by (simp_all add: reading_ok_def)
  note adv = attempt_advances [OF inv clock(1) r1(1)]
  then have cfg: "config_of g' = config_of g" by simp
  have life: "in_lifetime g t" if "getCurrentTimestamp now \<le> t" "t \<le> getCurrentTimestamp now + 3600001" for t
  proof -
    have "(t - g_customEpoch g) * 2 ^ (dB g + wB g + sB g) \<le>
        (getCurrentTimestamp now + 3600001 - g_customEpoch g) * 2 ^ (dB g + wB g + sB g)"
      using that by (intro mult_right_mono) auto
    also have "\<dots> < 2 ^ 63" using clock(3) by (simp add: in_lifetime_def)
    finally show ?thesis using clock(2) that by (simp add: in_lifetime_def)
  qed
  show ?thesis
    using adv r1(2) Attempt shape_config [OF cfg] life idOf_config [OF cfg]
    by (cases r1) (auto simp: advanced_def)
next
  case (ChangeWorker w)
  then show ?thesis using eq SetWorkerID_inv [OF inv] by (auto simp: gstep_def shape_ops)
next
  case ShutDown
  then show ?thesis using eq Shutdown_inv [OF inv] by (auto simp: gstep_def shape_ops)
qed

section \<open>IDs of a run\<close>

text \<open>The parts of the IDs generated in a run.\<close>

definition part_of :: "Generator \<Rightarrow> id_part" where
  "part_of g = (g_lastTimestamp g, g_datacenterID g, g_workerID g, g_sequence g)"

fun part_key :: "id_part \<Rightarrow> key" where
  "part_key (t, dc, wk, q) = (t, q)"

fun emitted :: "gop list \<Rightarrow> Generator \<Rightarrow> id_part list" where
  "emitted [] g = []"
| "emitted (op # ops) g =
     (let (r, g') = gstep op g
      in (if id_of_result r = [] then [] else [part_of g']) @ emitted ops g')"

text \<open>A run in which, once an attempt has answered with a per-millisecond overflow, the
  following attempts read a later millisecond, until an ID is generated.\<close>

fun paced :: "bool \<Rightarrow> gop list \<Rightarrow> Generator \<Rightarrow> bool" where
  "paced b [] g = True"
| "paced b (op # ops) g =
     ((case op of Attempt now check \<Rightarrow> b \<longrightarrow> g_lastTimestamp g < getCurrentTimestamp now | _ \<Rightarrow> True) \<and>
      (let (r, g') = gstep op g
       in paced (r = Some (NeedWait 0) \<or> b \<and> id_of_result r = []) ops g'))"

definition high_key :: "bool \<Rightarrow> Generator \<Rightarrow> key" where
  "high_key b g = (if b then (g_lastTimestamp g, g_maxSequence g) else key_of g)"

lemma part_of_valid:
  assumes "gen_inv g" and "in_lifetime g (g_lastTimestamp g)"
  shows "valid_part g (part_of g)"
  using assms generator_fields_ok [of g "g_lastTimestamp g" "g_sequence g"]
  by (simp add: gen_inv_def valid_part_def part_of_def)

lemma emitted_increase:
  assumes "gen_inv g" and "\<forall>op \<in> set ops. reading_ok g op" and "paced b ops g"
  shows "sorted_wrt (<) (map part_key (emitted ops g)) \<and>
    (\<forall>p \<in> set (emitted ops g). high_key b g < part_key p)"
  using assms
proof (induction ops arbitrary: b g)
  case Nil
  then show ?case by simp
next
  case (Cons op ops)
  obtain r g' where st: "gstep op g = (r, g')" by (rule prod.exhaust)
  have ok: "reading_ok g op" using Cons.prems by simp
  note adv = step_advances [OF Cons.prems(1) ok st]
  define b' where "b' = (r = Some (NeedWait 0) \<or> b \<and> id_of_result r = [])"
  have sh: "shape g' = shape g" and inv': "gen_inv g'" using adv by simp_all
  have pc: "paced b' ops g'" using Cons.prems(3) st by (simp add: b'_def)
  have ok': "\<forall>op \<in> set ops. reading_ok g' op"
    using Cons.prems(2) reading_ok_shape [OF sh] by simp
  note IH = Cons.IH [OF inv' ok' pc]
  have max: "g_maxSequence g' = g_maxSequence g" using same_shape [OF sh] by simp
  show ?case
  proof (cases "id_of_result r = []")
    case True
    have "high_key b' g' = high_key b g"
      using adv True max by (auto simp: high_key_def b'_def key_of_def split: if_splits)
    with IH True st show ?thesis by simp
  next
    case False
    then have r: "r \<noteq> Some (NeedWait 0)" by auto
    with False adv obtain now check where op: "op = Attempt now check"
      and ts: "getCurrentTimestamp now \<le> g_lastTimestamp g'" and up: "key_of g < key_of g'" by auto
    have "high_key b g < part_key (part_of g')"
      using up ts Cons.prems(3) op
      by (auto simp: high_key_def key_of_def part_of_def)
    moreover have "high_key b' g' = part_key (part_of g')"
      using False r by (simp add: high_key_def b'_def key_of_def part_of_def)
    ultimately show ?thesis
      using IH False st by (auto intro: less_trans)
  qed
qed

lemma emitted_ids:
  assumes "gen_inv g" and "\<forall>op \<in> set ops. reading_ok g op" and "shape g = shape g0"
  shows "generated_ids ops g = map (encode_part g0) (emitted ops g) \<and>
    (\<forall>p \<in> set (emitted ops g). valid_part g p)"
  using assms
proof (induction ops arbitrary: g)
  case Nil
  then show ?case by (simp add: generated_ids_simps)
next
  case (Cons op ops)
  obtain r g' where st: "gstep op g = (r, g')" by (rule prod.exhaust)
  have ok: "reading_ok g op" using Cons.prems by simp
  note adv = step_advances [OF Cons.prems(1) ok st]
  then have sh: "shape g' = shape g" and inv': "gen_inv g'" by simp_all
  have ok': "\<forall>op \<in> set ops. reading_ok g' op"
    using Cons.prems(2) reading_ok_shape [OF sh] by simp
  have lay: "gen_layout g" "gen_layout g'" using Cons.prems(1) inv' by (simp_all add: gen_inv_def)
  have vp: "valid_part g' p = valid_part g p" for p
    using lay by (simp add: valid_part_def same_shape [OF sh] split: prod.split)
  note IH = Cons.IH [OF inv' ok'] 
  have sh0: "shape g' = shape g0" using sh Cons.prems(3) by simp
  have id: "encode_part g0 (part_of g') = idOf g' (g_lastTimestamp g') (g_sequence g')"
    by (simp add: encode_part_def part_of_def encodeID_def idOf_def same_shape [OF sh0])
  have life: "id_of_result r \<noteq> [] \<Longrightarrow> valid_part g' (part_of g')"
    using adv inv' part_of_valid [of g'] in_lifetime_def same_shape [OF sh]
    by (auto split: if_splits)
  show ?case
    using IH [OF sh0] st adv id life vp
    by (auto simp: generated_ids_simps split: if_splits)
qed

lemma distinct_map_part_key:
  "sorted_wrt (<) (map part_key ps) \<Longrightarrow> distinct ps"
  by (metis distinct_map strict_sorted_iff)

lemma run_ids_distinct_aux:
  assumes "gen_inv g" and "\<forall>op \<in> set ops. reading_ok g op" and "paced False ops g"
  shows "distinct (generated_ids ops g)"
proof -
  note ids = emitted_ids [OF assms(1,2) refl]
  have "distinct (emitted ops g)"
    using emitted_increase [OF assms] distinct_map_part_key by blast
  moreover have "inj_on (encode_part g) (set (emitted ops g))"
    using ids by (meson inj_onI fmt.enc_inj)
  ultimately show ?thesis using ids by (simp add: distinct_map)
qed

text \<open>Without a change of worker the IDs increase.\<close>

definition keeps_worker :: "gop list \<Rightarrow> bool" where
  "keeps_worker ops \<longleftrightarrow> (\<forall>op \<in> set ops. case op of ChangeWorker w \<Rightarrow> False | _ \<Rightarrow> True)"

lemma step_worker:
  assumes "gen_inv g" and "reading_ok g op" and "gstep op g = (r, g')"
    and "case op of ChangeWorker w \<Rightarrow> False | _ \<Rightarrow> True"
  shows "g_workerID g' = g_workerID g"
proof (cases op)
  case (Attempt now check)
  then obtain r1 where r1: "tryGenerateID now check g = (r1, g')"
    using assms(3) by (auto simp: gstep_def split: prod.splits)
  have "clock_sane now" using assms(2) Attempt by (simp add: reading_ok_def)
  then have "config_of g' = config_of g"
    using attempt_advances [OF assms(1) _ r1] by simp
  then show ?thesis by (rule same_config)
next
  case ShutDown
  then show ?thesis using assms(3) by (auto simp: gstep_def Shutdown_def)
qed (use assms(4) in simp)

lemma emitted_identity:
  assumes "gen_inv g" and "\<forall>op \<in> set ops. reading_ok g op" and "keeps_worker ops"
    and "(t, dc, wk, q) \<in> set (emitted ops g)"
  shows "dc = g_datacenterID g \<and> wk = g_workerID g"
  using assms
proof (induction ops arbitrary: g)
  case Nil
  then show ?case by simp
next
  case (Cons op ops)
  obtain r g' where st: "gstep op g = (r, g')" by (rule prod.exhaust)
  have ok: "reading_ok g op" and kw: "keeps_worker ops" and k: "case op of ChangeWorker w \<Rightarrow> False | _ \<Rightarrow> True"
    using Cons.prems by (simp_all add: keeps_worker_def)
  note adv = step_advances [OF Cons.prems(1) ok st]
  then have sh: "shape g' = shape g" and inv': "gen_inv g'" by simp_all
  have ok': "\<forall>op \<in> set ops. reading_ok g' op"
    using Cons.prems(2) reading_ok_shape [OF sh] by simp
  have same: "g_datacenterID g' = g_datacenterID g" "g_workerID g' = g_workerID g"
    using same_shape(1) [OF sh] step_worker [OF Cons.prems(1) ok st k] by simp_all
  have mem: "(t, dc, wk, q) = part_of g' \<or> (t, dc, wk, q) \<in> set (emitted ops g')"
    using Cons.prems(4) st by (auto split: if_splits)
  from this show ?case
  proof
    assume "(t, dc, wk, q) = part_of g'"
    with same show ?case by (simp add: part_of_def)
  next
    assume "(t, dc, wk, q) \<in> set (emitted ops g')"
    from Cons.IH [OF inv' ok' kw this] same show ?case by simp
  qed
qed

lemma packed_mono:
  assumes "fields_ok d w s t dc wk q" and "fields_ok d w s t' dc' wk' q'"
    and "t < t' \<or> t = t' \<and> dc = dc' \<and> wk = wk' \<and> q < q'"
  shows "packed d w s t dc wk q < packed d w s t' dc' wk' q'"
proof (cases "t < t'")
  case True
  then have "(t + 1) * 2 ^ (d + w + s) \<le> t' * 2 ^ (d + w + s)" by (intro mult_right_mono) auto
  with packed_bounds(2) [OF assms(1)] packed_bounds(1) [OF assms(2)] show ?thesis by linarith
next
  case False
  with assms(3) show ?thesis by (simp add: packed_def)
qed

lemma encode_part_mono:
  assumes "valid_part g (t, dc, wk, q)" and "valid_part g (t', dc', wk', q')"
    and "t < t' \<or> t = t' \<and> dc = dc' \<and> wk = wk' \<and> q < q'"
  shows "encode_part g (t, dc, wk, q) < encode_part g (t', dc', wk', q')"
  using assms packed_mono [of "dB g" "wB g" "sB g" "t - g_customEpoch g" dc wk q "t' - g_customEpoch g" dc' wk' q']
  by (simp add: encode_part_packed) (simp add: valid_part_def)

lemma run_ids_sorted_aux:
  assumes "gen_inv g" and "\<forall>op \<in> set ops. reading_ok g op" and "paced False ops g"
    and "keeps_worker ops"
  shows "sorted_wrt (<) (generated_ids ops g)"
proof -
  note ids = emitted_ids [OF assms(1,2) refl]
  have "sorted_wrt (\<lambda>p q. part_key p < part_key q) (emitted ops g)"
    using emitted_increase [OF assms(1-3)] by (simp add: sorted_wrt_map)
  then have "sorted_wrt (\<lambda>p q. encode_part g p < encode_part g q) (emitted ops g)"
  proof (rule sorted_wrt_mono_rel [rotated])
    fix p p' assume m: "p \<in> set (emitted ops g)" "p' \<in> set (emitted ops g)" "part_key p < part_key p'"
    obtain t dc wk q t' dc' wk' q' where e: "p = (t, dc, wk, q)" "p' = (t', dc', wk', q')"
      by (cases p, cases p') auto
    have "t < t' \<or> t = t' \<and> dc = dc' \<and> wk = wk' \<and> q < q'"
      using m emitted_identity [OF assms(1,2,4), of t dc wk q]
        emitted_identity [OF assms(1,2,4), of t' dc' wk' q'] by (auto simp: e)
    with m ids show "encode_part g p < encode_part g p'"
      by (auto simp: e intro!: encode_part_mono)
  qed
  with ids show ?thesis by (simp add: sorted_wrt_map)
qed

section \<open>Generators of different identity\<close>

text \<open>No ID of one run is an ID of the other, whatever the clocks do and with no pacing.\<close>

lemma run_ids_disjoint_aux:
  assumes "gen_inv g1" and "\<forall>op \<in> set ops1. reading_ok g1 op" and "keeps_worker ops1"
    and "gen_inv g2" and "\<forall>op \<in> set ops2. reading_ok g2 op" and "keeps_worker ops2"
    and widths: "dB g1 = dB g2" "wB g1 = wB g2" "sB g1 = sB g2"
    and ident: "(g_datacenterID g1, g_workerID g1) \<noteq> (g_datacenterID g2, g_workerID g2)"
  shows "set (generated_ids ops1 g1) \<inter> set (generated_ids ops2 g2) = {}"
proof (rule ccontr)
  assume "\<not> ?thesis"
  then obtain x where x: "x \<in> set (generated_ids ops1 g1)" "x \<in> set (generated_ids ops2 g2)" by auto
  have field: "x div 2 ^ (wB g + sB g) mod 2 ^ dB g = g_datacenterID g \<and>
      x div 2 ^ sB g mod 2 ^ wB g = g_workerID g"
    if i: "gen_inv g" "\<forall>op \<in> set ops. reading_ok g op" "keeps_worker ops" "x \<in> set (generated_ids ops g)"
    for g ops
  proof -
    note ids = emitted_ids [OF i(1,2) refl]
    obtain t dc wk q where p: "(t, dc, wk, q) \<in> set (emitted ops g)" "x = encode_part g (t, dc, wk, q)"
      using i(4) ids by auto
    then have v: "valid_part g (t, dc, wk, q)" using ids by blast
    then have f: "fields_ok (dB g) (wB g) (sB g) (t - g_customEpoch g) dc wk q"
      by (simp add: valid_part_def)
    from packed_fields [OF f] emitted_identity [OF i(1-3) p(1)] encode_part_packed [OF v] p(2)
    show ?thesis by simp
  qed
  from field [OF assms(1-3) x(1)] field [OF assms(4-6) x(2)] widths ident
  show False by auto
qed

section \<open>What pacing rules out\<close>

lemma generated_ids_append:
  "generated_ids (xs @ ys) g = generated_ids xs g @ generated_ids ys (snd (grun xs g))"
  by (induction xs arbitrary: g) (auto simp: generated_ids_simps Let_def split: prod.split)

lemma grun_Cons: "snd (grun (op # ops) g) = snd (grun ops (snd (gstep op g)))"
  by (simp add: Let_def case_prod_unfold)

lemma grun_append: "snd (grun (xs @ ys) g) = snd (grun ys (snd (grun xs g)))"
  by (induction xs arbitrary: g) (simp_all add: grun_Cons del: grun.simps(2))

text \<open>Attempts reading the millisecond of the last ID hand out the rest of its numbers.\<close>

lemma same_ms_attempt:
  assumes "gen_inv g" and "clock_sane now" and "g_lastTimestamp g = getCurrentTimestamp now"
    and "\<not> g_isShuttingDown g" and "g_maxClockDrift g \<ge> 0"
    and "gstep (Attempt now check) g = (r, g')"
  shows "gen_inv g' \<and> config_of g' = config_of g \<and>
    (if g_sequence g < g_maxSequence g
     then id_of_result r = [idOf g (getCurrentTimestamp now) (g_sequence g + 1)] \<and>
       key_of g' = (getCurrentTimestamp now, g_sequence g + 1)
     else r = Some (NeedWait 0) \<and> key_of g' = (getCurrentTimestamp now, 0))"
proof -
  obtain r1 where r1: "tryGenerateID now check g = (r1, g')" "r = Some r1"
    using assms(6) by (auto simp: gstep_def split: prod.splits)
  obtain o' k where spec: "attempt_spec g (getCurrentTimestamp now) (key_of g) = (o', k)"
    by (rule prod.exhaust)
  from attempt_refines_aux [OF assms(1,2) r1(1) spec] spec assms(3-5) r1(2) show ?thesis
    by (auto simp: attempt_spec_def jump_refused_def key_of_def split: if_splits)
qed

lemma same_ms_burst:
  assumes "gen_inv g" and "clock_sane now" and "g_lastTimestamp g = getCurrentTimestamp now"
    and "\<not> g_isShuttingDown g" and "g_maxClockDrift g \<ge> 0"
    and "g_sequence g + int n \<le> g_maxSequence g"
  shows "generated_ids (replicate n (Attempt now check)) g =
      map (\<lambda>j. idOf g (getCurrentTimestamp now) (g_sequence g + 1 + int j)) [0..<n] \<and>
    (\<exists>g'. snd (grun (replicate n (Attempt now check)) g) = g' \<and> gen_inv g' \<and>
      config_of g' = config_of g \<and> key_of g' = (getCurrentTimestamp now, g_sequence g + int n))"
  using assms
proof (induction n arbitrary: g)
  case 0
  then show ?case by (simp add: generated_ids_simps key_of_def)
next
  case (Suc n)
  obtain r g' where st: "gstep (Attempt now check) g = (r, g')" by (rule prod.exhaust)
  note s = same_ms_attempt [OF Suc.prems(1-5) st]
  have lt: "g_sequence g < g_maxSequence g" using Suc.prems(6) by simp
  then have cfg: "config_of g' = config_of g" and inv: "gen_inv g'"
    and key: "g_lastTimestamp g' = getCurrentTimestamp now" "g_sequence g' = g_sequence g + 1"
    and id: "id_of_result r = [idOf g (getCurrentTimestamp now) (g_sequence g + 1)]"
    using s by (auto simp: key_of_def)
  have "\<not> g_isShuttingDown g'" "g_maxClockDrift g' \<ge> 0" "g_sequence g' + int n \<le> g_maxSequence g'"
    using Suc.prems(4-6) key by (simp_all add: same_config [OF cfg])
  note IH = Suc.IH [OF inv Suc.prems(2) key(1) this]
  have up: "[0..<Suc n] = 0 # map Suc [0..<n]" by (simp add: upt_conv_Cons map_Suc_upt del: upt_Suc)
  have "generated_ids (replicate (Suc n) (Attempt now check)) g =
      idOf g (getCurrentTimestamp now) (g_sequence g + 1) #
      map (\<lambda>j. idOf g (getCurrentTimestamp now) (g_sequence g + 1 + 1 + int j)) [0..<n]"
    using IH st id key(2) by (simp add: generated_ids_simps idOf_config [OF cfg])
  also have "\<dots> = map (\<lambda>j. idOf g (getCurrentTimestamp now) (g_sequence g + 1 + int j)) [0..<Suc n]"
    unfolding up by (simp add: add.assoc)
  finally show ?case
    using IH st cfg key(2) by (simp add: grun_Cons add.assoc del: grun.simps(2))
qed

text \<open>A millisecond with more attempts than numbers, all by callers that read the same
  clock: after the overflow the numbers of the millisecond start again at 1, so IDs repeat.\<close>

lemma overflow_repeats_aux:
  assumes inv: "gen_inv g" and clock: "clock_sane now"
    and last: "g_lastTimestamp g = getCurrentTimestamp now" "g_sequence g = 0"
    and up: "\<not> g_isShuttingDown g" and drift: "g_maxClockDrift g \<ge> 0"
  shows "generated_ids (replicate (nat (g_maxSequence g) + 2) (Attempt now check)) g =
    map (\<lambda>j. idOf g (getCurrentTimestamp now) (1 + int j)) [0..<nat (g_maxSequence g)] @
    [idOf g (getCurrentTimestamp now) 1]"
proof -
  let ?a = "Attempt now check" and ?n = "nat (g_maxSequence g)"
  have m: "0 < g_maxSequence g" using inv gen_layout_maxSequence by (simp add: gen_inv_def)
  obtain g1 where g1: "snd (grun (replicate ?n ?a) g) = g1" "gen_inv g1" "config_of g1 = config_of g"
      "key_of g1 = (getCurrentTimestamp now, g_maxSequence g)"
    and ids: "generated_ids (replicate ?n ?a) g =
      map (\<lambda>j. idOf g (getCurrentTimestamp now) (1 + int j)) [0..<?n]"
    using same_ms_burst [OF inv clock last(1) up drift, of ?n] last(2) m by auto
  obtain r g2 where st: "gstep ?a g1 = (r, g2)" by (rule prod.exhaust)
  have c1: "\<not> g_isShuttingDown g1" "g_maxClockDrift g1 \<ge> 0" "g_maxSequence g1 = g_maxSequence g"
    using up drift by (simp_all add: same_config [OF g1(3)])
  have "g_lastTimestamp g1 = getCurrentTimestamp now" "g_sequence g1 = g_maxSequence g"
    using g1(4) by (simp_all add: key_of_def)
  with same_ms_attempt [OF g1(2) clock _ c1(1,2) st] c1(3)
  have g2: "gen_inv g2" "config_of g2 = config_of g1" "id_of_result r = []"
    "g_lastTimestamp g2 = getCurrentTimestamp now" "g_sequence g2 = 0"
    by (auto simp: key_of_def)
  obtain r' g3 where st': "gstep ?a g2 = (r', g3)" by (rule prod.exhaust)
  have c2: "\<not> g_isShuttingDown g2" "g_maxClockDrift g2 \<ge> 0" "g_maxSequence g2 = g_maxSequence g"
    using c1 by (simp_all add: same_config [OF g2(2)])
  have "id_of_result r' = [idOf g (getCurrentTimestamp now) 1]"
    using same_ms_attempt [OF g2(1) clock g2(4) c2(1,2) st'] c2(3) g2(5) m
    by (simp add: idOf_config [OF g2(2)] idOf_config [OF g1(3)])
  moreover have "replicate (?n + 2) ?a = replicate ?n ?a @ [?a, ?a]"
    using replicate_add [of ?n 2 ?a] by (simp add: numeral_2_eq_2)
  ultimately show ?thesis
    using ids g1(1) st st' g2(3) by (simp add: generated_ids_append generated_ids_simps)
qed

section \<open>The cache and the metrics do not change the IDs\<close>

text \<open>Two generators that differ at most in cache, metrics and counters.\<close>

definition same_ids :: "Generator \<Rightarrow> Generator \<Rightarrow> bool" where
  "same_ids g1 g2 \<longleftrightarrow> gen_inv g1 \<and> gen_inv g2 \<and> shape g1 = shape g2 \<and> key_of g1 = key_of g2 \<and>
     g_workerID g1 = g_workerID g2 \<and> g_isShuttingDown g1 = g_isShuttingDown g2"

lemma attempt_spec_same:
  assumes "same_ids g1 g2"
  shows "attempt_spec g1 ts k = attempt_spec g2 ts k"
proof (cases k)
  case (Pair l q)
  have sh: "shape g1 = shape g2" "g_isShuttingDown g1 = g_isShuttingDown g2"
    using assms by (simp_all add: same_ids_def)
  have "g_enableClockDriftProtection g1 = g_enableClockDriftProtection g2"
    "g_maxClockDrift g1 = g_maxClockDrift g2"
    using sh(1) by (simp_all add: shape_def)
  with Pair show ?thesis
    by (simp add: attempt_spec_def jump_refused_def sh(2) same_shape [OF sh(1)] action_defs)
qed

lemma step_same_ids:
  assumes "same_ids g1 g2" and "reading_ok g1 op"
    and "gstep op g1 = (r1, g1')" and "gstep op g2 = (r2, g2')"
  shows "same_ids g1' g2' \<and> id_of_result r1 = id_of_result r2"
proof (cases op)
  case (Attempt now check)
  obtain a1 where a1: "tryGenerateID now check g1 = (a1, g1')" "r1 = Some a1"
    using assms(3) Attempt by (auto simp: gstep_def split: prod.splits)
  obtain a2 where a2: "tryGenerateID now check g2 = (a2, g2')" "r2 = Some a2"
    using assms(4) Attempt by (auto simp: gstep_def split: prod.splits)
  obtain o' k where spec: "attempt_spec g1 (getCurrentTimestamp now) (key_of g1) = (o', k)"
    by (rule prod.exhaust)
  have sim: "gen_inv g1" "gen_inv g2" "shape g1 = shape g2" "key_of g1 = key_of g2"
    "g_workerID g1 = g_workerID g2" "g_isShuttingDown g1 = g_isShuttingDown g2"
    using assms(1) by (simp_all add: same_ids_def)
  have clock: "clock_sane now" using assms(2) Attempt by (simp add: reading_ok_def)
  have spec2: "attempt_spec g2 (getCurrentTimestamp now) (key_of g2) = (o', k)"
    using spec by (simp only: sim(4) attempt_spec_same [OF assms(1)])
  note ref1 = attempt_refines_aux [OF sim(1) clock a1(1) spec]
  note ref2 = attempt_refines_aux [OF sim(2) clock a2(1) spec2]
  have id: "idOf g1 t q = idOf g2 t q" for t q
    by (simp add: idOf_def same_shape [OF sim(3)] sim(5))
  have c1: "config_of g1' = config_of g1" and c2: "config_of g2' = config_of g2"
    using ref1 ref2 by simp_all
  have "same_ids g1' g2'"
    using ref1 ref2 sim shape_config [OF c1] shape_config [OF c2] same_config [OF c1] same_config [OF c2]
    by (simp add: same_ids_def)
  moreover have "id_of_result r1 = id_of_result r2"
    using ref1 ref2 a1(2) a2(2) by (cases o') (auto simp: id)
  ultimately show ?thesis by simp
next
  case (ChangeWorker w)
  have "g_maxWorkerID g1 = g_maxWorkerID g2" using assms(1) by (simp add: same_ids_def shape_def)
  then have "g_workerID (SetWorkerID w g1) = g_workerID (SetWorkerID w g2) \<and>
      g_isShuttingDown (SetWorkerID w g1) = g_isShuttingDown (SetWorkerID w g2)"
    using assms(1) by (simp add: SetWorkerID_def same_ids_def)
  with ChangeWorker assms show ?thesis
    using SetWorkerID_inv [of g1 w] SetWorkerID_inv [of g2 w]
    by (auto simp: gstep_def same_ids_def shape_ops)
next
  case ShutDown
  with assms show ?thesis
    using Shutdown_inv [of g1] Shutdown_inv [of g2]
    by (auto simp: gstep_def same_ids_def shape_ops) (auto simp: Shutdown_def)
qed

lemma same_ids_run:
  assumes "same_ids g1 g2" and "\<forall>op \<in> set ops. reading_ok g1 op"
  shows "generated_ids ops g1 = generated_ids ops g2"
  using assms
proof (induction ops arbitrary: g1 g2)
  case Nil
  then show ?case by (simp add: generated_ids_simps)
next
  case (Cons op ops)
  obtain r1 g1' where s1: "gstep op g1 = (r1, g1')" by (rule prod.exhaust)
  obtain r2 g2' where s2: "gstep op g2 = (r2, g2')" by (rule prod.exhaust)
  have ok: "reading_ok g1 op" using Cons.prems(2) by simp
  have inv: "gen_inv g1" using Cons.prems(1) by (simp add: same_ids_def)
  have sh: "shape g1' = shape g1" using step_advances [OF inv ok s1] by simp
  have ok': "\<forall>op \<in> set ops. reading_ok g1' op"
    using Cons.prems(2) reading_ok_shape [OF sh] by simp
  note st = step_same_ids [OF Cons.prems(1) ok s1 s2]
  with Cons.IH [OF _ ok'] s1 s2 show ?case by (simp add: generated_ids_simps)
qed

section \<open>Runs that hand out nothing\<close>

text \<open>The error action refuses every reading more than the permitted drift after the last ID,
  and refusing leaves the last timestamp where it is: an idle generator never recovers.\<close>

lemma jump_step:
  assumes inv: "gen_inv g" and ok: "reading_ok g op" and st: "gstep op g = (r, g')"
    and err: "g_enableClockDriftProtection g" "g_clockDriftAction g = ClockDriftActionError"
    and used: "g_lastTimestamp g \<noteq> -1" and pos: "0 \<le> g_maxClockDrift g"
    and idle: "case op of Attempt now check \<Rightarrow> (getCurrentTimestamp now - g_lastTimestamp g) * Millisecond
        > g_maxClockDrift g | _ \<Rightarrow> True"
  shows "id_of_result r = [] \<and> key_of g' = key_of g"
proof (cases op)
  case (Attempt now check)
  then obtain r1 where r1: "tryGenerateID now check g = (r1, g')" "r = Some r1"
    using st by (auto simp: gstep_def split: prod.splits)
  have clock: "clock_sane now" using ok Attempt by (simp add: reading_ok_def)
  have "attempt_spec g (getCurrentTimestamp now) (key_of g) = (Refuse, key_of g)"
    using idle err used pos Attempt by (auto simp: attempt_spec_def jump_refused_def key_of_def)
  from attempt_refines_aux [OF inv clock r1(1) this] r1(2) show ?thesis by auto
next
  case (ChangeWorker w)
  then show ?thesis using st SetWorkerID_inv [OF inv] by (auto simp: gstep_def)
next
  case ShutDown
  then show ?thesis using st Shutdown_inv [OF inv] by (auto simp: gstep_def)
qed

lemma idle_lockout_aux:
  assumes "gen_inv g" and "\<forall>op \<in> set ops. reading_ok g op"
    and "g_enableClockDriftProtection g" "g_clockDriftAction g = ClockDriftActionError"
    and "g_lastTimestamp g \<noteq> -1" and "0 \<le> g_maxClockDrift g"
    and "\<forall>now check. Attempt now check \<in> set ops \<longrightarrow>
      (getCurrentTimestamp now - g_lastTimestamp g) * Millisecond > g_maxClockDrift g"
  shows "generated_ids ops g = []"
  using assms
proof (induction ops arbitrary: g)
  case Nil
  then show ?case by (simp add: generated_ids_simps)
next
  case (Cons op ops)
  obtain r g' where st: "gstep op g = (r, g')" by (rule prod.exhaust)
  have ok: "reading_ok g op" using Cons.prems(2) by simp
  have idle: "case op of Attempt now check \<Rightarrow> (getCurrentTimestamp now - g_lastTimestamp g) * Millisecond
        > g_maxClockDrift g | _ \<Rightarrow> True"
    using Cons.prems(7) by (auto split: gop.split)
  note j = jump_step [OF Cons.prems(1) ok st Cons.prems(3-6) idle]
  have adv: "gen_inv g'" "shape g' = shape g" using step_advances [OF Cons.prems(1) ok st] by auto
  have ok': "\<forall>op \<in> set ops. reading_ok g' op"
    using Cons.prems(2) reading_ok_shape [OF adv(2)] by simp
  have e: "g_enableClockDriftProtection g' = g_enableClockDriftProtection g"
    "g_clockDriftAction g' = g_clockDriftAction g" "g_maxClockDrift g' = g_maxClockDrift g"
    "g_lastTimestamp g' = g_lastTimestamp g"
    using adv(2) j by (simp_all add: shape_def key_of_def)
  have "generated_ids ops g' = []"
    using Cons.prems(3-7) by (intro Cons.IH [OF adv(1) ok']) (auto simp: e)
  with j st show ?case by (simp add: generated_ids_simps)
qed

text \<open>After a shutdown every attempt fails and changes nothing but the metrics.\<close>

lemma shut_down_attempt:
  "g_isShuttingDown g \<Longrightarrow> tryGenerateID now check g =
     (Failed GeneratorShuttingDown, onMetrics (RecordError ''generation'') g)"
  by (simp add: tryGenerateID_def)

lemma shut_down_step:
  assumes "g_isShuttingDown g" and "gstep op g = (r, g')"
  shows "id_of_result r = [] \<and> g_isShuttingDown g' \<and> key_of g' = key_of g"
  using assms by (cases op)
    (auto simp: gstep_def shut_down_attempt SetWorkerID_def Shutdown_def key_of_def onMetrics_def)

lemma shut_down_run:
  "g_isShuttingDown g \<Longrightarrow> generated_ids ops g = []"
proof (induction ops arbitrary: g)
  case Nil
  then show ?case by (simp add: generated_ids_simps)
next
  case (Cons op ops)
  obtain r g' where st: "gstep op g = (r, g')" by (rule prod.exhaust)
  from shut_down_step [OF Cons.prems st] Cons.IH [of g'] st show ?case
    by (simp add: generated_ids_simps)
qed

end
