(* ===== verification/Generate_Loop.thy ===== *)
theory Generate_Loop
  imports Generator_Run
begin

text \<open>
  \<open>GenerateID\<close>: attempts under the lock, waits outside it, within a budget of two seconds.
  The loop is given its environment one iteration at a time: what other callers do to the
  generator in between, and every reading of the clock. It may wait forever if the clock
  stands still, so it runs on fuel; with a clock that advances, enough fuel is a theorem.
\<close>

section \<open>The loop\<close>

definition maxGenerateWaitBudget :: int where "maxGenerateWaitBudget = 2 * Second"
definition sequenceOverflowSpinSleep :: int where "sequenceOverflowSpinSleep = 50 * Microsecond"

text \<open>One iteration: operations of others before the first shutdown check, between it and
  the attempt, and after the attempt; the attempt's readings; the reading of
  \<open>time.Since(startTime)\<close> and the one inside the metrics on success; the readings of the
  budget check and of \<open>time.Until\<close>.\<close>

record iteration =
  it_before :: "gop list"
  it_between :: "gop list"
  it_now :: time
  it_check :: time
  it_after :: "gop list"
  it_done :: time
  it_metricsNow :: time
  it_budget :: time
  it_until :: time

definition others :: "gop list \<Rightarrow> Generator \<Rightarrow> Generator" where
  "others ops g = snd (grun ops g)"

text \<open>What one iteration does: return, or sleep for a duration (0: not at all) and go on.\<close>

datatype loop_step = Finish "(gen_error, int) result" | Panic | Sleep int

definition loopBody :: "time \<Rightarrow> iteration \<Rightarrow> Generator \<Rightarrow> loop_step \<times> Generator" where
  "loopBody startTime it g =
     (let deadline = time_Add startTime maxGenerateWaitBudget;
          g = others (it_before it) g
      in if g_isShuttingDownAtomic g \<noteq> 0
         then (Finish (Inl GeneratorShuttingDown), onMetrics (RecordError ''generation'') g)
      else
      let g = others (it_between it) g
      in case tryGenerateID (it_now it) (it_check it) g of
        (Failed err, g) \<Rightarrow> (Finish (Inl err), g)
      | (IndexPanic, g) \<Rightarrow> (Panic, g)
      | (Generated x cacheHit, g) \<Rightarrow>
          (let g = others (it_after it) g;
               latency = time_Sub (it_done it) startTime;
               g = onMetrics (RecordIDGeneration (it_metricsNow it) latency cacheHit) g;
               g = prom PromIDsGenerated g;
               g = prom (PromLatency (duration_Seconds latency)) g
           in (Finish (Inr x), g))
      | (NeedWait waitDuration, g) \<Rightarrow>
          (let g = others (it_after it) g
           in if g_isShuttingDownAtomic g \<noteq> 0
              then (Finish (Inl GeneratorShuttingDown), onMetrics (RecordError ''generation'') g)
           else if time_After (it_budget it) deadline
              then (Finish (Inl (WaitBudgetExceeded maxGenerateWaitBudget)),
                    prom PromGenerationErrors (onMetrics (RecordError ''generation'') g))
           else if waitDuration > 0 then
             (let remaining = time_Sub deadline (it_until it);
                  waitDuration = (if waitDuration > remaining then remaining else waitDuration)
              in (Sleep (if waitDuration > 0 then waitDuration else 0), g))
           else (Sleep sequenceOverflowSpinSleep, g)))"

text \<open>The result, the final state and the sleeps; \<open>None\<close> when the fuel runs out. A panic
  is the result \<open>None\<close> of the inner option.\<close>

fun GenerateID :: "nat \<Rightarrow> (nat \<Rightarrow> iteration) \<Rightarrow> time \<Rightarrow> nat \<Rightarrow> Generator \<Rightarrow>
    ((gen_error, int) result option \<times> int list \<times> Generator) option" where
  "GenerateID 0 env startTime i g = None"
| "GenerateID (Suc fuel) env startTime i g =
     (case loopBody startTime (env i) g of
        (Finish r, g) \<Rightarrow> Some (Some r, [], g)
      | (Panic, g) \<Rightarrow> Some (None, [], g)
      | (Sleep d, g) \<Rightarrow>
          (case GenerateID fuel env startTime (Suc i) g of
             None \<Rightarrow> None
           | Some (r, ds, g) \<Rightarrow> Some (r, d # ds, g)))"

definition GenerateIDWithMetadata :: "nat \<Rightarrow> (nat \<Rightarrow> iteration) \<Rightarrow> time \<Rightarrow> Generator \<Rightarrow>
    ((gen_error, int \<times> SID) result option \<times> Generator) option" where
  "GenerateIDWithMetadata fuel env startTime g =
     (case GenerateID fuel env startTime 0 g of
        None \<Rightarrow> None
      | Some (None, ds, g) \<Rightarrow> Some (None, g)
      | Some (Some (Inl err), ds, g) \<Rightarrow> Some (Some (Inl err), g)
      | Some (Some (Inr x), ds, g) \<Rightarrow>
          (case ParseID g x of
             Inl err \<Rightarrow> Some (Some (Inl err), g)
           | Inr metadata \<Rightarrow> Some (Some (Inr (x, metadata)), g)))"

section \<open>Enough fuel\<close>

text \<open>A monotonic clock that advances by at least \<open>delta\<close> from one budget check to the next.\<close>

definition advances :: "int \<Rightarrow> time \<Rightarrow> (nat \<Rightarrow> iteration) \<Rightarrow> bool" where
  "advances delta startTime env \<longleftrightarrow> 0 < delta \<and>
     (\<exists>m0. mono startTime = Some m0 \<and>
       (\<forall>i. \<exists>m. mono (it_budget (env i)) = Some m \<and> m0 + delta * int i \<le> m))"

definition rounds :: "int \<Rightarrow> nat" where
  "rounds delta = nat (maxGenerateWaitBudget div delta + 2)"

lemma budget_spent:
  assumes "advances delta startTime env" and "maxGenerateWaitBudget div delta < int i"
  shows "time_After (it_budget (env i)) (time_Add startTime maxGenerateWaitBudget)"
proof -
  obtain m0 m where m: "mono startTime = Some m0" "mono (it_budget (env i)) = Some m"
    "m0 + delta * int i \<le> m" and d: "0 < delta"
    using assms(1) unfolding advances_def by blast
  have "maxGenerateWaitBudget < delta * int i"
  proof (rule ccontr)
    assume "\<not> maxGenerateWaitBudget < delta * int i"
    then have "delta * int i div delta \<le> maxGenerateWaitBudget div delta"
      using d by (intro zdiv_mono1) auto
    with assms(2) d show False by simp
  qed
  with m show ?thesis by (simp add: time_After_def time_diff_def time_Add_def)
qed

lemma loopBody_sleep:
  assumes "loopBody startTime it g = (Sleep d, g')"
  shows "\<not> time_After (it_budget it) (time_Add startTime maxGenerateWaitBudget)"
  using assms by (auto simp: loopBody_def Let_def split: if_splits prod.splits attempt.splits)

lemma GenerateID_terminates_aux:
  assumes "advances delta startTime env" and "rounds delta \<le> i + fuel" and "0 < fuel"
  shows "GenerateID fuel env startTime i g \<noteq> None"
  using assms
proof (induction fuel arbitrary: i g)
  case 0
  then show ?case by simp
next
  case (Suc fuel)
  obtain s g' where b: "loopBody startTime (env i) g = (s, g')" by (rule prod.exhaust)
  show ?case
  proof (cases s)
    case (Sleep d)
    with loopBody_sleep b budget_spent [OF Suc.prems(1)]
    have "int i \<le> maxGenerateWaitBudget div delta" by (meson not_le)
    then have "i + 2 \<le> rounds delta" by (simp add: rounds_def)
    then have "0 < fuel" "rounds delta \<le> Suc i + fuel" using Suc.prems(2) by simp_all
    from Suc.IH [OF Suc.prems(1) this(2,1)] show ?thesis
      using b Sleep by (auto split: option.splits)
  qed (use b in simp_all)
qed

section \<open>Sleeps stay within the budget\<close>

text \<open>A sleep is a spin of 50 microseconds, or a wait that ends by the deadline.\<close>

lemma loopBody_sleep_bound:
  assumes "loopBody startTime it g = (Sleep d, g')"
  shows "d = sequenceOverflowSpinSleep \<or>
    0 \<le> d \<and> (d = 0 \<or> d \<le> time_Sub (time_Add startTime maxGenerateWaitBudget) (it_until it))"
  using assms
  by (auto simp: loopBody_def Let_def split: if_splits prod.splits attempt.splits)

lemma GenerateID_sleeps_aux:
  assumes "GenerateID fuel env startTime i g = Some (r, ds, g')" and "k < length ds"
  shows "ds ! k = sequenceOverflowSpinSleep \<or> 0 \<le> ds ! k \<and> (ds ! k = 0 \<or>
    ds ! k \<le> time_Sub (time_Add startTime maxGenerateWaitBudget) (it_until (env (i + k))))"
  using assms
proof (induction fuel arbitrary: i g ds k)
  case 0
  then show ?case by simp
next
  case (Suc fuel)
  obtain st g1 where b: "loopBody startTime (env i) g = (st, g1)" by (rule prod.exhaust)
  show ?case
  proof (cases st)
    case (Sleep d)
    with Suc.prems b obtain ds' where rec: "GenerateID fuel env startTime (Suc i) g1 = Some (r, ds', g')"
      and ds: "ds = d # ds'" by (auto split: option.splits)
    show ?thesis
    proof (cases k)
      case 0
      with loopBody_sleep_bound [of startTime "env i" g d g1] b Sleep ds show ?thesis by simp
    next
      case (Suc k')
      with Suc.IH [OF rec, of k'] Suc.prems(2) ds show ?thesis by simp
    qed
  qed (use Suc.prems b in auto)
qed

section \<open>The result\<close>

definition iteration_ops :: "iteration \<Rightarrow> gop list" where
  "iteration_ops it = it_before it @ it_between it @ Attempt (it_now it) (it_check it) # it_after it"

lemma others_keep:
  assumes "gen_inv g" and "\<forall>op \<in> set ops. reading_ok g op"
  shows "gen_inv (others ops g) \<and> shape (others ops g) = shape g"
  using assms
proof (induction ops arbitrary: g)
  case Nil
  then show ?case by (simp add: others_def)
next
  case (Cons op ops)
  obtain r g' where st: "gstep op g = (r, g')" by (rule prod.exhaust)
  have ok: "reading_ok g op" using Cons.prems(2) by simp
  have adv: "gen_inv g'" "shape g' = shape g" using step_advances [OF Cons.prems(1) ok st] by auto
  have "\<forall>op \<in> set ops. reading_ok g' op"
    using Cons.prems(2) reading_ok_shape [OF adv(2)] by simp
  from Cons.IH [OF adv(1) this] adv(2) st show ?case
    by (simp add: others_def grun_Cons del: grun.simps(2))
qed

lemma gen_inv_frame [simp]:
  "gen_inv (onMetrics f g) = gen_inv g" "gen_inv (prom c g) = gen_inv g"
  "shape (onMetrics f g) = shape g" "shape (prom c g) = shape g"
  by (simp_all add: gen_inv_def gen_layout_def cache_inv_def dc_bits_def shape_def onMetrics_def prom_def)

text \<open>What a successful attempt at \<open>now\<close> hands out, on a generator of a shape.\<close>

definition fresh_id :: "Generator \<Rightarrow> time \<Rightarrow> int \<Rightarrow> bool" where
  "fresh_id g now x \<longleftrightarrow> (\<exists>t wk q. valid_part g (t, g_datacenterID g, wk, q) \<and>
     x = encode_part g (t, g_datacenterID g, wk, q) \<and>
     getCurrentTimestamp now \<le> t \<and> t \<le> getCurrentTimestamp now + 3600001)"

lemma fresh_id_shape:
  assumes "shape g' = shape g" and "gen_layout g" and "gen_layout g'"
  shows "fresh_id g' now x = fresh_id g now x"
  using assms(2,3)
  by (simp add: fresh_id_def valid_part_def encode_part_def encodeID_def same_shape [OF assms(1)])

lemma attempt_fresh:
  assumes inv: "gen_inv g" and ok: "reading_ok g (Attempt now check)"
    and eq: "tryGenerateID now check g = (Generated x hit, g')"
  shows "fresh_id g now x"
proof -
  have clock: "clock_sane now" using ok by (simp add: reading_ok_def)
  have st: "gstep (Attempt now check) g = (Some (Generated x hit), g')"
    using eq by (simp add: gstep_def)
  note adv = step_advances [OF inv ok st]
  have sh: "shape g' = shape g" and inv': "gen_inv g'" using adv by simp_all
  have id: "x = idOf g' (g_lastTimestamp g') (g_sequence g')"
    and life: "in_lifetime g' (g_lastTimestamp g')"
    using adv in_lifetime_def same_shape [OF sh] by auto
  have bounds: "getCurrentTimestamp now \<le> g_lastTimestamp g'"
    "g_lastTimestamp g' \<le> getCurrentTimestamp now + 3600001"
    using attempt_advances [OF inv clock eq] by auto
  have lay: "gen_layout g" "gen_layout g'" using inv inv' by (simp_all add: gen_inv_def)
  have "valid_part g' (g_lastTimestamp g', g_datacenterID g', g_workerID g', g_sequence g')"
    using part_of_valid [OF inv' life] by (simp add: part_of_def)
  moreover have "x = encode_part g' (g_lastTimestamp g', g_datacenterID g', g_workerID g', g_sequence g')"
    by (simp add: id encode_part_def encodeID_def idOf_def)
  ultimately have "fresh_id g' now x" using bounds unfolding fresh_id_def by blast
  then show ?thesis using fresh_id_shape [OF sh lay] by simp
qed

definition known_error :: "Generator \<Rightarrow> gen_error \<Rightarrow> bool" where
  "known_error g e = (case e of GeneratorShuttingDown \<Rightarrow> True | ClockDriftError a b c \<Rightarrow> True
     | UnknownDriftAction a \<Rightarrow> a = g_clockDriftAction g \<and>
         a \<notin> {ClockDriftActionWait, ClockDriftActionError, ClockDriftActionIgnore}
     | WaitBudgetExceeded d \<Rightarrow> d = maxGenerateWaitBudget | _ \<Rightarrow> False)"

lemma attempt_error:
  assumes "tryGenerateID now check g = (Failed e, g')"
  shows "known_error g e"
proof -
  have d: "known_error g e" if "handleBackwardClock ts h = (Return (Failed e), h')"
    "g_clockDriftAction h = g_clockDriftAction g" for ts h h'
    using that by (auto simp: handleBackwardClock_def Let_def known_error_def driftError_def
        split: if_splits)
  have n: "n \<noteq> Return (Failed e)" if "nextSequence ign ts h = (n, h')" for n ign ts h h'
    using that by (auto simp: nextSequence_def incrementSequence_def handleSequenceOverflow_def
        Let_def split: if_splits)
  have c: "known_error g e \<and> True" if "checkClockDriftNoSleep check ts h = (Some e, h')" for ts h h'
    using that by (auto simp: checkClockDriftNoSleep_def Let_def known_error_def driftError_def
        split: if_splits)
  have c2: "g_clockDriftAction h' = g_clockDriftAction h"
    if "checkClockDriftNoSleep check ts h = (y, h')" for y ts h h'
    using that by (auto simp: checkClockDriftNoSleep_def Let_def split: if_splits)
  have m: "(r :: attempt) \<noteq> Failed e" if "emitID hit ts h = (r, h')" for hit ts h h' r
    using that by (auto simp: emitID_def Let_def)
  show ?thesis
    using assms
    by (auto simp: tryGenerateID_def Let_def known_error_def [of g GeneratorShuttingDown]
        dest: d [OF _ refl] d [OF _ c2] n c m split: if_splits prod.splits option.splits flow.splits)
qed

lemma loopBody_result:
  assumes inv: "gen_inv g" and ok: "\<forall>op \<in> set (iteration_ops it). reading_ok g op"
    and b: "loopBody startTime it g = (s, g')"
  shows "gen_inv g' \<and> shape g' = shape g \<and>
    (case s of Finish (Inr x) \<Rightarrow> fresh_id g (it_now it) x | Finish (Inl e) \<Rightarrow> known_error g e
      | Panic \<Rightarrow> False | Sleep d \<Rightarrow> True)"
proof -
  define g1 where "g1 = others (it_before it) g"
  define g2 where "g2 = others (it_between it) g1"
  obtain r g3 where t: "tryGenerateID (it_now it) (it_check it) g2 = (r, g3)" by (rule prod.exhaust)
  define g4 where "g4 = others (it_after it) g3"
  have ok_all: "\<forall>op \<in> set (it_before it). reading_ok g op" "\<forall>op \<in> set (it_between it). reading_ok g op"
    "reading_ok g (Attempt (it_now it) (it_check it))" "\<forall>op \<in> set (it_after it). reading_ok g op"
    using ok by (auto simp: iteration_ops_def)
  have 1: "gen_inv g1" "shape g1 = shape g"
    using others_keep [OF inv ok_all(1)] by (simp_all add: g1_def)
  have ok1: "\<forall>op \<in> set (it_between it). reading_ok g1 op"
    using ok_all(2) reading_ok_shape [OF 1(2)] by simp
  have 2: "gen_inv g2" "shape g2 = shape g"
    using others_keep [OF 1(1) ok1] 1(2) by (simp_all add: g2_def)
  have ok2: "reading_ok g2 (Attempt (it_now it) (it_check it))"
    using ok_all(3) reading_ok_shape [OF 2(2)] by simp
  have st: "gstep (Attempt (it_now it) (it_check it)) g2 = (Some r, g3)"
    using t by (simp add: gstep_def)
  have 3: "gen_inv g3" "shape g3 = shape g"
    using step_advances [OF 2(1) ok2 st] 2(2) by auto
  have ok3: "\<forall>op \<in> set (it_after it). reading_ok g3 op"
    using ok_all(4) reading_ok_shape [OF 3(2)] by simp
  have 4: "gen_inv g4" "shape g4 = shape g"
    using others_keep [OF 3(1) ok3] 3(2) by (simp_all add: g4_def)
  have lay: "gen_layout g" "gen_layout g2" using inv 2(1) by (simp_all add: gen_inv_def)
  have fresh: "r = Generated x hit \<Longrightarrow> fresh_id g (it_now it) x" for x hit
    using attempt_fresh [OF 2(1) ok2] t fresh_id_shape [OF 2(2) lay] by simp
  have err: "r = Failed e \<Longrightarrow> known_error g e" for e
    using attempt_error [of "it_now it" "it_check it" g2 e g3] t same_shape(9) [OF 2(2)]
    by (cases e) (simp_all add: known_error_def)
  have clock: "clock_sane (it_now it)" using ok2 by (simp add: reading_ok_def)
  have nopanic: "r \<noteq> IndexPanic"
    using attempt_advances [OF 2(1) clock t] by (auto simp: advanced_def)
  show ?thesis
    using b t fresh err nopanic 1 2 3 4
    by (auto simp: loopBody_def Let_def g1_def [symmetric] g2_def [symmetric] g4_def [symmetric]
        known_error_def [of g GeneratorShuttingDown] known_error_def [of g "WaitBudgetExceeded d" for d]
        split: if_splits attempt.splits)
qed

lemma GenerateID_result:
  assumes "gen_inv g" and "\<forall>j < i + fuel. \<forall>op \<in> set (iteration_ops (env j)). reading_ok g op"
    and "GenerateID fuel env startTime i g = Some (r, ds, g')"
  shows "gen_inv g' \<and> shape g' = shape g \<and>
    (case r of None \<Rightarrow> False | Some (Inl e) \<Rightarrow> known_error g e
      | Some (Inr x) \<Rightarrow> fresh_id g (it_now (env (i + length ds))) x)"
  using assms
proof (induction fuel arbitrary: i g ds)
  case 0
  then show ?case by simp
next
  case (Suc fuel)
  obtain st g1 where b: "loopBody startTime (env i) g = (st, g1)" by (rule prod.exhaust)
  have ok: "\<forall>op \<in> set (iteration_ops (env i)). reading_ok g op" using Suc.prems(2) by (auto dest: spec [of _ i])
  note body = loopBody_result [OF Suc.prems(1) ok b]
  show ?case
  proof (cases st)
    case (Sleep d)
    with Suc.prems(3) b obtain ds' where rec: "GenerateID fuel env startTime (Suc i) g1 = Some (r, ds', g')"
      and ds: "ds = d # ds'" by (auto split: option.splits)
    have sh: "shape g1 = shape g" and inv1: "gen_inv g1" using body by simp_all
    have "\<forall>j < Suc i + fuel. \<forall>op \<in> set (iteration_ops (env j)). reading_ok g1 op"
      using Suc.prems(2) reading_ok_shape [OF sh] by simp
    note IH = Suc.IH [OF inv1 this rec]
    have lay: "gen_layout g" "gen_layout g1" using Suc.prems(1) inv1 by (simp_all add: gen_inv_def)
    have ke: "known_error g1 e = known_error g e" for e
      by (cases e) (simp_all add: known_error_def same_shape [OF sh])
    show ?thesis
      using IH sh ds by (auto simp: ke fresh_id_shape [OF sh lay] split: option.splits sum.splits)
  qed (use Suc.prems(3) b body in \<open>auto split: sum.splits\<close>)
qed

text \<open>Metadata: a generated ID always parses, to its own parts.\<close>

lemma GenerateIDWithMetadata_result:
  assumes "gen_inv g" and "\<forall>j < fuel. \<forall>op \<in> set (iteration_ops (env j)). reading_ok g op"
    and "GenerateIDWithMetadata fuel env startTime g = Some (Some (Inr (x, sid)), g')"
  shows "fst (snd (sid_part sid)) = g_datacenterID g \<and> encode_part g (sid_part sid) = x \<and>
    valid_part g (sid_part sid) \<and> sid_ID sid = x"
proof -
  obtain ds where gen: "GenerateID fuel env startTime 0 g = Some (Some (Inr x), ds, g')"
    and parse: "ParseID g' x = Inr sid"
    using assms(3)
    by (auto simp: GenerateIDWithMetadata_def split: option.splits prod.splits sum.splits)
  note res = GenerateID_result [OF assms(1) _ gen, unfolded add_0, OF assms(2)]
  have sh: "shape g' = shape g" and lay: "gen_layout g" "gen_layout g'"
    using res assms(1) by (simp_all add: gen_inv_def)
  obtain t wk q where p: "valid_part g (t, g_datacenterID g, wk, q)"
    "x = encode_part g (t, g_datacenterID g, wk, q)"
    using res by (auto simp: fresh_id_def)
  have "valid_part g' (t, g_datacenterID g, wk, q)"
    using p(1) lay by (simp add: valid_part_def same_shape [OF sh])
  moreover have "x = encode_part g' (t, g_datacenterID g, wk, q)"
    by (simp add: p(2) encode_part_def encodeID_def same_shape [OF sh])
  ultimately have "decode_id g' x = Some (t, g_datacenterID g, wk, q)"
    using fmt.dec_enc by simp
  then have part: "sid_part sid = (t, g_datacenterID g, wk, q)"
    using parse by (simp add: decode_id_def)
  have "valid_id g' x" using fmt.enc_ok [of g' "(t, g_datacenterID g, wk, q)"]
      \<open>valid_part g' _\<close> \<open>x = encode_part g' _\<close> by simp
  then have "sid_ID sid = x"
    using parse ParseID_eq [OF lay(2), of x] by (auto simp: valid_id_def Let_def split: if_splits)
  with part p show ?thesis by simp
qed

lemma GenerateIDWithMetadata_error:
  assumes "gen_inv g" and "\<forall>j < fuel. \<forall>op \<in> set (iteration_ops (env j)). reading_ok g op"
    and "GenerateIDWithMetadata fuel env startTime g = Some (Some (Inl e), g')"
  shows "known_error g e"
proof -
  obtain r ds g1 where gen: "GenerateID fuel env startTime 0 g = Some (Some r, ds, g1)"
    using assms(3) by (auto simp: GenerateIDWithMetadata_def split: option.splits prod.splits)
  note res = GenerateID_result [OF assms(1) _ gen, unfolded add_0, OF assms(2)]
  show ?thesis
  proof (cases r)
    case (Inl e1)
    with assms(3) gen res show ?thesis by (simp add: GenerateIDWithMetadata_def)
  next
    case (Inr x)
    have sh: "shape g1 = shape g" and lay: "gen_layout g" "gen_layout g1"
      using res assms(1) by (simp_all add: gen_inv_def)
    have "fresh_id g1 (it_now (env (length ds))) x"
      using res Inr fresh_id_shape [OF sh lay] by simp
    then have "valid_id g1 x" using fmt.enc_ok by (auto simp: fresh_id_def)
    from fmt.dec_total [OF this] have "\<exists>s. ParseID g1 x = Inr s"
      by (auto simp: decode_id_def split: sum.splits)
    with assms(3) gen Inr show ?thesis by (auto simp: GenerateIDWithMetadata_def)
  qed
qed

end
