(* ===== verification/Demo.thy ===== *)
theory Demo
  imports Generate_Loop
begin

text \<open>
  One concrete host and the generator built on it, used by the witnesses of the properties.
\<close>

definition demo_time :: "int \<Rightarrow> time" where
  "demo_time ms = reading (1700000000000000000 + ms * Millisecond) (5000000000 + ms * Millisecond)"

definition demo_host :: host where
  "demo_host = \<lparr>clock = (\<lambda>i. demo_time (int i)),
     addYears = (\<lambda>n t. t\<lparr>wall := wall t + n * 31556952 * Second\<rparr>)\<rparr>"

definition demo_gen :: Generator where
  "demo_gen = (case NewSnowflakeGeneratorCore demo_host 3 7 (Some DefaultGeneratorConfig) of
     Inr g \<Rightarrow> g | Inl e \<Rightarrow> undefined)"

lemma demo_new: "NewSnowflakeGeneratorCore demo_host 3 7 (Some DefaultGeneratorConfig) = Inr demo_gen"
proof -
  have "is_ok (NewSnowflakeGeneratorCore demo_host 3 7 (Some DefaultGeneratorConfig))"
    by code_simp
  then show ?thesis by (auto simp: demo_gen_def is_ok_def split: sum.splits)
qed

lemma demo_sane: "host_sane demo_host" by code_simp

lemma demo_last: "g_lastTimestamp demo_gen = -1" "g_isShuttingDown demo_gen = False"
  by code_simp+

lemma demo_inv: "gen_inv demo_gen"
  using new_establishes_inv_aux [OF demo_new demo_sane] by simp

text \<open>Attempts one millisecond apart, and an environment of a call that succeeds at once.\<close>

definition demo_attempts :: "nat \<Rightarrow> gop list" where
  "demo_attempts n = map (\<lambda>i. Attempt (demo_time (10 + int i)) (demo_time (10 + int i))) [0..<n]"

definition demo_env :: "nat \<Rightarrow> iteration" where
  "demo_env i = (let t = 20 + 1000 * int i in
     \<lparr>it_before = [], it_between = [], it_now = demo_time t, it_check = demo_time t,
      it_after = [], it_done = demo_time (t + 1), it_metricsNow = demo_time (t + 1),
      it_budget = demo_time t, it_until = demo_time t\<rparr>)"

lemma demo_layout: "g_customEpoch demo_gen = 1609459200000" "dB demo_gen + wB demo_gen + sB demo_gen = 22"
  by code_simp+

lemma demo_timestamp:
  assumes "0 \<le> ms" and "ms < 1000000000"
  shows "getCurrentTimestamp (demo_time ms) = 1700000000000 + ms"
  using assms by (simp add: getCurrentTimestamp_def demo_time_def UnixNano_def i64_id sdiv_nonneg)

lemma demo_reading_ok:
  assumes "0 \<le> ms" and "ms < 1000000000"
  shows "reading_ok demo_gen (Attempt (demo_time ms) check)"
  using assms
  by (simp add: reading_ok_def demo_timestamp in_lifetime_def demo_layout clock_sane_def)
     (simp add: demo_time_def)

lemma demo_env_ok: "\<forall>j < 5. \<forall>op \<in> set (iteration_ops (demo_env j)). reading_ok demo_gen op"
  by (simp add: iteration_ops_def demo_env_def Let_def demo_reading_ok)

lemma demo_advances: "advances Second (demo_time 0) demo_env"
  by (simp add: advances_def demo_time_def demo_env_def Let_def)

lemma demo_rounds: "rounds Second = 4"
  by (simp add: rounds_def maxGenerateWaitBudget_def)

definition demo_call :: "(gen_error, int) result option \<times> int list \<times> Generator" where
  "demo_call = the (GenerateID 5 demo_env (demo_time 0) 0 demo_gen)"

lemma demo_call_eq: "GenerateID 5 demo_env (demo_time 0) 0 demo_gen =
    Some (fst demo_call, fst (snd demo_call), snd (snd demo_call))"
  using GenerateID_terminates_aux [OF demo_advances, of 0 5 demo_gen]
  by (auto simp: demo_call_def demo_rounds)

end
