(* ===== verification/Generator_Props.thy ===== *)
theory Generator_Props
  imports Demo
begin

text \<open>
  The properties of the generator, each with a concrete instance. Statements are about
  generators that \<open>NewSnowflakeGeneratorCore\<close> returns or that satisfy the invariant it
  establishes, and about arbitrary interleavings of whole operations.
\<close>

section \<open>IDs of one generator\<close>

text \<open>C3: From construction on, however the attempts of any number of callers, changes of
  the worker ID and a shutdown interleave, no ID is handed out twice, provided that after a
  per-millisecond overflow the next attempts read a later millisecond.\<close>

theorem run_ids_distinct:
  assumes "NewSnowflakeGeneratorCore h dc wk (Some c) = Inr g" and "host_sane h"
    and "\<forall>op \<in> set ops. reading_ok g op" and "paced False ops g"
  shows "distinct (generated_ids ops g)"
  using run_ids_distinct_aux new_establishes_inv_aux [OF assms(1,2)] assms(3,4) by blast

theorem run_ids_distinct_witness:
  "distinct (generated_ids (demo_attempts 2 @ [ChangeWorker 9] @ demo_attempts 3) demo_gen)"
  by (rule run_ids_distinct [OF demo_new demo_sane]; code_simp)



text \<open>C8: Two generators with the same field widths and a different (datacenter, worker)
  pair never hand out the same ID, whatever their clocks and epochs are and however their
  operations interleave, as long as their workers do not change.\<close>

theorem different_identity_disjoint:
  assumes "NewSnowflakeGeneratorCore h1 dc1 wk1 (Some c1) = Inr g1" and "host_sane h1"
    and "NewSnowflakeGeneratorCore h2 dc2 wk2 (Some c2) = Inr g2" and "host_sane h2"
    and "DatacenterIDBits c1 = DatacenterIDBits c2" and "WorkerIDBits c1 = WorkerIDBits c2"
    and "SequenceBits c1 = SequenceBits c2" and "(dc1, wk1) \<noteq> (dc2, wk2)"
    and "\<forall>op \<in> set ops1. reading_ok g1 op" and "keeps_worker ops1"
    and "\<forall>op \<in> set ops2. reading_ok g2 op" and "keeps_worker ops2"
  shows "set (generated_ids ops1 g1) \<inter> set (generated_ids ops2 g2) = {}"
proof -
  note n1 = new_establishes_inv_aux [OF assms(1,2)] and n2 = new_establishes_inv_aux [OF assms(3,4)]
  then show ?thesis
    using assms(5-12) by (intro run_ids_disjoint_aux) (auto simp: dB_def wB_def sB_def)
qed

definition demo_gen2 :: Generator where
  "demo_gen2 = (case NewSnowflakeGeneratorCore demo_host 3 8 (Some DefaultGeneratorConfig) of
     Inr g \<Rightarrow> g | Inl e \<Rightarrow> undefined)"

lemma demo_new2: "NewSnowflakeGeneratorCore demo_host 3 8 (Some DefaultGeneratorConfig) = Inr demo_gen2"
proof -
  have "is_ok (NewSnowflakeGeneratorCore demo_host 3 8 (Some DefaultGeneratorConfig))"
    by code_simp
  then show ?thesis by (auto simp: demo_gen2_def is_ok_def split: sum.splits)
qed

theorem different_identity_disjoint_witness:
  "set (generated_ids (demo_attempts 3) demo_gen) \<inter> set (generated_ids (demo_attempts 3) demo_gen2) = {}"
  by (rule different_identity_disjoint [OF demo_new demo_sane demo_new2 demo_sane]; (code_simp | simp))

section \<open>One attempt, construction, runs\<close>

text \<open>C7: Every locked attempt of the code, with its cache, metrics, masks and 64-bit
  arithmetic, does what the abstract attempt does on the pair (last timestamp, sequence): it
  hands out exactly the ID of the abstract key, or waits exactly as long, or fails; it keeps
  the invariant and changes nothing that is fixed at construction. In particular the read of
  the cache never leaves its bounds.\<close>

theorem attempt_refines:
  assumes "gen_inv g" and "clock_sane now" and "tryGenerateID now check g = (r, g')"
    and "attempt_spec g (getCurrentTimestamp now) (key_of g) = (o', k)"
  shows "matches g o' r \<and> key_of g' = k \<and> gen_inv g' \<and> config_of g' = config_of g"
  using assms by (rule attempt_refines_aux)

theorem attempt_refines_witness:
  "matches demo_gen (Emit 1700000000005 0) (fst (tryGenerateID (demo_time 5) (demo_time 6) demo_gen)) \<and>
   key_of (snd (tryGenerateID (demo_time 5) (demo_time 6) demo_gen)) = (1700000000005, 0)"
proof -
  have "attempt_spec demo_gen (getCurrentTimestamp (demo_time 5)) (key_of demo_gen)
      = (Emit 1700000000005 0, (1700000000005, 0))" "clock_sane (demo_time 5)"
    by code_simp+
  from attempt_refines [OF demo_inv this(2) prod.collapse [symmetric] this(1)] show ?thesis by blast
qed

text \<open>C33: A generator that construction returns satisfies the invariant: its layout is the
  one the configuration asks for, its identity is in range, and its key is \<open>(-1, 0)\<close>.\<close>

theorem new_establishes_inv:
  assumes "NewSnowflakeGeneratorCore h dc wk (Some c) = Inr g" and "host_sane h"
  shows "gen_inv g \<and> key_of g = (-1, 0) \<and> g_datacenterID g = dc \<and> g_workerID g = wk \<and>
    dc_bits g = DatacenterIDBits c \<and> g_workerIDBits g = WorkerIDBits c \<and>
    g_sequenceBits g = SequenceBits c \<and> \<not> g_isShuttingDown g"
  using assms by (rule new_establishes_inv_aux)

theorem new_establishes_inv_witness:
  "gen_inv demo_gen \<and> key_of demo_gen = (-1, 0) \<and> g_workerID demo_gen = 7"
  using new_establishes_inv [OF demo_new demo_sane] by simp

text \<open>C34: Every interleaving of whole operations keeps the invariant and the shape of the
  generator (everything but worker, shutdown flags, counters, cache contents and key).\<close>

theorem run_keeps_inv:
  assumes "gen_inv g" and "\<forall>op \<in> set ops. reading_ok g op"
  shows "gen_inv (snd (grun ops g)) \<and> shape (snd (grun ops g)) = shape g"
  using others_keep [OF assms] by (simp add: others_def)

theorem run_keeps_inv_witness:
  "gen_inv (snd (grun (demo_attempts 2 @ [ShutDown]) demo_gen)) \<and>
   shape (snd (grun (demo_attempts 2 @ [ShutDown]) demo_gen)) = shape demo_gen"
  by (rule run_keeps_inv [OF demo_inv]) code_simp

section \<open>The limits of uniqueness\<close>

text \<open>C37: Without the pacing that \<open>run_ids_distinct\<close> asks for IDs do repeat: when more attempts read one
  millisecond than it has numbers, the overflowing attempt leaves the sequence at 0 and the
  last timestamp unchanged, so the next attempt in that millisecond hands out number 1 again.
  The run shown starts after the first ID of the millisecond: \<open>maxSequence\<close> attempts exhaust
  it, one overflows, the next returns the second ID of the millisecond for a second time.\<close>

theorem overflow_repeats_id:
  assumes "gen_inv g" and "clock_sane now" and "g_lastTimestamp g = getCurrentTimestamp now"
    and "g_sequence g = 0" and "\<not> g_isShuttingDown g" and "g_maxClockDrift g \<ge> 0"
  shows "\<not> distinct (generated_ids (replicate (nat (g_maxSequence g) + 2) (Attempt now check)) g)"
proof -
  have "1 \<le> nat (g_maxSequence g)"
    using assms(1) gen_layout_maxSequence(1) [of g] by (simp add: gen_inv_def)
  then have up: "[0..<nat (g_maxSequence g)] = 0 # [1..<nat (g_maxSequence g)]"
    by (simp add: upt_conv_Cons)
  show ?thesis
    unfolding overflow_repeats_aux [OF assms] up by simp
qed

definition demo_gen1 :: Generator where
  "demo_gen1 = snd (tryGenerateID (demo_time 5) (demo_time 5) demo_gen)"

theorem overflow_repeats_id_witness:
  "\<not> distinct (generated_ids (replicate (nat (g_maxSequence demo_gen1) + 2)
     (Attempt (demo_time 5) (demo_time 5))) demo_gen1)"
proof (rule overflow_repeats_id)
  have "attempt_spec demo_gen (getCurrentTimestamp (demo_time 5)) (key_of demo_gen)
      = (Emit 1700000000005 0, (1700000000005, 0))" "clock_sane (demo_time 5)"
    by code_simp+
  from attempt_refines_aux [OF demo_inv this(2) prod.collapse [symmetric] this(1)]
  show "gen_inv demo_gen1" unfolding demo_gen1_def by blast
qed code_simp+

definition beyond_drift :: "Generator \<Rightarrow> gop \<Rightarrow> bool" where
  "beyond_drift g op = (case op of
     Attempt now check \<Rightarrow> (getCurrentTimestamp now - g_lastTimestamp g) * Millisecond > g_maxClockDrift g
   | _ \<Rightarrow> True)"

text \<open>C38: With the error action, once a generator has been idle for longer than the permitted
  drift, every later attempt fails, in every interleaving and however often it is repeated: a
  refusal leaves the last timestamp where it is.\<close>

theorem idle_lockout:
  assumes "gen_inv g" and "g_enableClockDriftProtection g"
    and "g_clockDriftAction g = ClockDriftActionError" and "g_lastTimestamp g \<noteq> -1"
    and "0 \<le> g_maxClockDrift g" and "\<forall>op \<in> set ops. reading_ok g op"
    and "\<forall>op \<in> set ops. beyond_drift g op"
  shows "generated_ids ops g = []"
  by (rule idle_lockout_aux [OF assms(1,6,2-5)]) (use assms(7) in \<open>force simp: beyond_drift_def\<close>)

definition demo_error_gen :: Generator where
  "demo_error_gen = demo_gen\<lparr>g_clockDriftAction := ClockDriftActionError,
     g_lastTimestamp := 1700000000000\<rparr>"

theorem idle_lockout_witness:
  "generated_ids [Attempt (demo_time 6000) (demo_time 6000), Attempt (demo_time 60000) (demo_time 60000)]
     demo_error_gen = []"
  by (rule idle_lockout) code_simp+

text \<open>C25: The sequence cache, the metrics and the cache size never change the IDs: generators
  that construction returns for configurations that agree on everything else hand out the
  same IDs in every run.\<close>

theorem cache_transparent:
  assumes "NewSnowflakeGeneratorCore h dc wk (Some c) = Inr g1" and "host_sane h"
    and "NewSnowflakeGeneratorCore h dc wk (Some (c\<lparr>EnableSequenceCache := False, EnableMetrics := False\<rparr>)) = Inr g2"
    and "\<forall>op \<in> set ops. reading_ok g1 op"
  shows "generated_ids ops g1 = generated_ids ops g2"
proof (rule same_ids_run [OF _ assms(4)])
  note n1 = new_establishes_inv_aux [OF assms(1,2)] and n2 = new_establishes_inv_aux [OF assms(3,2)]
  have "shape g1 = shape g2"
    using assms(1,3)
    by (auto simp: NewSnowflakeGeneratorCore_def Let_def shape_def split: option.splits if_splits)
  with n1 n2 show "same_ids g1 g2" by (simp add: same_ids_def)
qed

definition demo_cached :: GeneratorConfig where
  "demo_cached = DefaultGeneratorConfig\<lparr>EnableSequenceCache := True, SequenceCacheSize := 10\<rparr>"

definition demo_new_of :: "GeneratorConfig \<Rightarrow> Generator" where
  "demo_new_of c = (case NewSnowflakeGeneratorCore demo_host 3 7 (Some c) of
     Inr g \<Rightarrow> g | Inl e \<Rightarrow> undefined)"

lemma demo_new_of_eq:
  "is_ok (NewSnowflakeGeneratorCore demo_host 3 7 (Some c)) \<Longrightarrow>
   NewSnowflakeGeneratorCore demo_host 3 7 (Some c) = Inr (demo_new_of c)"
  by (auto simp: demo_new_of_def is_ok_def split: sum.splits)

theorem cache_transparent_witness:
  "generated_ids (demo_attempts 2 @ demo_attempts 2) (demo_new_of demo_cached) =
   generated_ids (demo_attempts 2 @ demo_attempts 2)
     (demo_new_of (demo_cached\<lparr>EnableSequenceCache := False, EnableMetrics := False\<rparr>))"
  by (rule cache_transparent [OF demo_new_of_eq demo_sane demo_new_of_eq]) code_simp+

text \<open>After a shutdown no run hands out an ID, whatever happens in it; shutting down
  again changes nothing.\<close>

theorem shutdown_is_final:
  "generated_ids ops (Shutdown g) = [] \<and> Shutdown (Shutdown g) = Shutdown g"
proof -
  have "g_isShuttingDown (Shutdown g)" by (simp add: Shutdown_def)
  then show ?thesis using shut_down_run by (simp add: Shutdown_def)
qed

section \<open>Parsing\<close>

text \<open>C9: Parsing undoes generation: for every timestamp within the lifetime, every
  datacenter, worker and sequence number of the layout, \<open>ParseID\<close> of the ID put together by the
  shifts and ORs of \<open>tryGenerateID\<close> returns exactly these parts.\<close>

theorem parse_of_generated:
  assumes "valid_part g (t, dc, wk, q)"
  shows "\<exists>s. ParseID g (encode_part g (t, dc, wk, q)) = Inr s \<and> sid_part s = (t, dc, wk, q) \<and>
    sid_ID s = encode_part g (t, dc, wk, q)"
proof -
  have v: "valid_id g (encode_part g (t, dc, wk, q))" using fmt.enc_ok assms .
  have "decode_id g (encode_part g (t, dc, wk, q)) = Some (t, dc, wk, q)" using fmt.dec_enc assms .
  then obtain s where s: "ParseID g (encode_part g (t, dc, wk, q)) = Inr s" "sid_part s = (t, dc, wk, q)"
    by (auto simp: decode_id_def split: sum.splits)
  have "sid_ID s = encode_part g (t, dc, wk, q)"
    using v s(1) ParseID_eq [of g "encode_part g (t, dc, wk, q)"]
    by (auto simp: valid_id_def Let_def split: if_splits)
  with s show ?thesis by blast
qed

theorem parse_of_generated_witness:
  "\<exists>s. ParseID demo_gen (encode_part demo_gen (1700000000005, 3, 7, 42)) = Inr s \<and>
     sid_part s = (1700000000005, 3, 7, 42) \<and>
     sid_ID s = encode_part demo_gen (1700000000005, 3, 7, 42)"
  by (rule parse_of_generated) code_simp

text \<open>C35: \<open>ParseID\<close> on a constructed generator fails exactly on negative IDs; what it returns
  for any other 64-bit number are valid parts that put the same number together again. (So
  its range check on the timestamp never rejects anything.)\<close>

theorem parse_total:
  assumes "gen_inv g" and "- (2 ^ 63) \<le> x" and "x < 2 ^ 63"
  shows "case ParseID g x of Inl e \<Rightarrow> x < 0 \<and> e = NegativeID x
    | Inr s \<Rightarrow> 0 \<le> x \<and> valid_part g (sid_part s) \<and> encode_part g (sid_part s) = x"
proof -
  have l: "gen_layout g" using assms(1) by (simp add: gen_inv_def)
  show ?thesis
  proof (cases "x < 0")
    case True
    then show ?thesis by (simp add: ParseID_def)
  next
    case False
    then have v: "valid_id g x" using l assms(3) by (simp add: valid_id_def)
    from fmt.dec_total [OF v] obtain s where s: "ParseID g x = Inr s"
      by (auto simp: decode_id_def split: sum.splits)
    then have "decode_id g x = Some (sid_part s)" by (simp add: decode_id_def)
    with fmt.enc_dec [OF v] s False show ?thesis by simp
  qed
qed

theorem parse_total_witness:
  "case ParseID demo_gen 379755639624593408 of
     Inl e \<Rightarrow> (379755639624593408 :: int) < 0 \<and> e = NegativeID 379755639624593408
   | Inr s \<Rightarrow> 0 \<le> (379755639624593408 :: int) \<and> valid_part demo_gen (sid_part s) \<and>
       encode_part demo_gen (sid_part s) = 379755639624593408"
  by (rule parse_total [OF demo_inv]) simp_all

section \<open>The loop of GenerateID\<close>

text \<open>C24: With a monotonic clock that advances by at least \<open>delta\<close> between two budget checks,
  \<open>GenerateID\<close> returns within \<open>2 s / delta + 2\<close> iterations, whatever other callers do in
  between and whatever the wall clock reads.\<close>

theorem GenerateID_terminates:
  assumes "advances delta startTime env" and "rounds delta \<le> fuel"
  shows "\<exists>r ds g'. GenerateID fuel env startTime 0 g = Some (r, ds, g')"
proof -
  have "0 \<le> maxGenerateWaitBudget div delta"
    using assms(1) by (auto simp: advances_def maxGenerateWaitBudget_def pos_imp_zdiv_nonneg_iff)
  then have "0 < fuel" using assms(2) by (simp add: rounds_def)
  with GenerateID_terminates_aux [OF assms(1), of 0 fuel g] assms(2) show ?thesis
    by auto
qed

theorem GenerateID_terminates_witness:
  "\<exists>r ds g'. GenerateID 4 demo_env (demo_time 0) 0 demo_gen = Some (r, ds, g')"
  by (rule GenerateID_terminates [OF demo_advances]) (simp add: demo_rounds)



text \<open>Every sleep of \<open>GenerateID\<close> is a spin of 50 microseconds (after an overflow) or a
  wait for a clock that went backwards, and such a wait ends at the deadline of two seconds at
  the latest.\<close>

theorem GenerateID_sleeps:
  assumes "GenerateID fuel env startTime 0 g = Some (r, ds, g')" and "k < length ds"
  shows "ds ! k = sequenceOverflowSpinSleep \<or> 0 \<le> ds ! k \<and> (ds ! k = 0 \<or>
    ds ! k \<le> time_Sub (time_Add startTime maxGenerateWaitBudget) (it_until (env k)))"
  using GenerateID_sleeps_aux [OF assms] by simp

text \<open>The clock is 300 ms behind the last ID for one iteration.\<close>

definition demo_back_env :: "nat \<Rightarrow> iteration" where
  "demo_back_env i = (demo_env i)\<lparr>it_now := demo_time (if i = 0 then 100 else 401),
     it_check := demo_time (if i = 0 then 100 else 401)\<rparr>"

definition demo_back_gen :: Generator where
  "demo_back_gen = demo_gen\<lparr>g_lastTimestamp := 1700000000400\<rparr>"

definition demo_back_call :: "(gen_error, int) result option \<times> int list \<times> Generator" where
  "demo_back_call = the (GenerateID 3 demo_back_env (demo_time 0) 0 demo_back_gen)"

lemma demo_back_call_eq: "GenerateID 3 demo_back_env (demo_time 0) 0 demo_back_gen =
    Some (fst demo_back_call, [301000000], snd (snd demo_back_call))"
proof -
  have "map_option (fst \<circ> snd) (GenerateID 3 demo_back_env (demo_time 0) 0 demo_back_gen) = Some [301000000]"
    by code_simp
  then show ?thesis by (auto simp: demo_back_call_def)
qed

theorem GenerateID_sleeps_witness:
  "(301000000 :: int) = sequenceOverflowSpinSleep \<or> 0 \<le> (301000000 :: int) \<and> ((301000000 :: int) = 0 \<or>
    (301000000 :: int) \<le> time_Sub (time_Add (demo_time 0) maxGenerateWaitBudget) (it_until (demo_back_env 0)))"
  using GenerateID_sleeps [OF demo_back_call_eq, of 0] by simp


definition demo_metadata :: "(gen_error, int \<times> SID) result \<times> Generator" where
  "demo_metadata = map_prod the id (the (GenerateIDWithMetadata 5 demo_env (demo_time 0) demo_gen))"

lemma demo_metadata_eq: "GenerateIDWithMetadata 5 demo_env (demo_time 0) demo_gen =
    Some (Some (fst demo_metadata), snd demo_metadata)"
proof -
  have "map_option (\<lambda>x. fst x \<noteq> None) (GenerateIDWithMetadata 5 demo_env (demo_time 0) demo_gen) = Some True"
    by code_simp
  then show ?thesis by (auto simp: demo_metadata_def)
qed


end
