(* ===== verification/Config_Validator.thy ===== *)
theory Config_Validator
  imports Generator_New
begin

text \<open>
  The plugin's configuration (\<open>EonId\<close> of \<open>conf/eon-id.proto\<close>), its validation
  (\<open>config_validator.go\<close>) and the two ways a generator configuration is derived from it:
  \<open>NewSnowflakeGeneratorWithConfig\<close> in \<open>generator.go\<close> and \<open>InitializeResources\<close> in
  \<open>types.go\<close>. Durations are the values of \<open>AsDuration\<close>, \<open>None\<close> for an absent message.
\<close>

section \<open>The message\<close>

record EonId =
  DatacenterId :: int
  WorkerId :: int
  AutoRegisterWorkerId :: bool
  RedisKeyPrefix :: string
  WorkerIdTtl :: "int option"
  HeartbeatInterval :: "int option"
  pb_EnableClockDriftProtection :: bool
  pb_MaxClockDrift :: "int option"
  ClockCheckInterval :: "int option"
  pb_ClockDriftAction :: string
  pb_EnableSequenceCache :: bool
  pb_SequenceCacheSize :: int
  pb_EnableMetrics :: bool
  RedisPluginName :: string
  RedisDb :: int
  pb_CustomEpoch :: int
  WorkerIdBits :: int
  pb_SequenceBits :: int

text \<open>The types of the fields: \<open>int32\<close> for the numbers, \<open>int64\<close> for epoch and durations.\<close>

definition opt_i64 :: "int option \<Rightarrow> bool" where
  "opt_i64 d = (case d of None \<Rightarrow> True | Some x \<Rightarrow> in_i64 x)"

definition EonId_typed :: "EonId \<Rightarrow> bool" where
  "EonId_typed c \<longleftrightarrow>
     in_i32 (DatacenterId c) \<and> in_i32 (WorkerId c) \<and> in_i32 (pb_SequenceCacheSize c) \<and>
     in_i32 (RedisDb c) \<and> in_i32 (WorkerIdBits c) \<and> in_i32 (pb_SequenceBits c) \<and>
     in_i64 (pb_CustomEpoch c) \<and> opt_i64 (WorkerIdTtl c) \<and> opt_i64 (HeartbeatInterval c) \<and>
     opt_i64 (pb_MaxClockDrift c) \<and> opt_i64 (ClockCheckInterval c)"

section \<open>Validation\<close>

datatype validation_error =
  ConfigNil
| DatacenterRange int
| WorkerRange int int
| PluginNameRequired
| KeyPrefixRequired
| RedisDbRange int
| TtlNotPositive
| TtlTooSmall int
| TtlTooLarge int
| HeartbeatNotPositive
| HeartbeatTooSmall int
| HeartbeatTooLarge int
| HeartbeatNotBelowTtl int int
| TtlBelowThreeHeartbeats int int
| PbDriftNotPositive
| PbDriftTooSmall int
| PbDriftTooLarge int
| CheckIntervalNotPositive
| CheckIntervalTooSmall int
| CheckIntervalTooLarge int
| PbInvalidDriftAction string
| PbCacheSizeNotPositive
| PbCacheSizeTooSmall int
| PbCacheSizeExceeds int int
| PbEpochInFuture int int
| PbEpochTooOld int int
| PbEpochShortLifetime int
| PbDatacenterBitsRange int
| PbWorkerBitsRange int
| PbSequenceBitsRange int
| PbTotalBitsExceeded int
| PbExcessiveDatacenters int int
| PbExcessiveWorkers int int
| PbTooFewSequences int int

definition validateBasicConfig :: "EonId \<Rightarrow> validation_error option" where
  "validateBasicConfig c =
     reject_if (DatacenterId c < 0 \<or> DatacenterId c > 31) (DatacenterRange (DatacenterId c)) (
     if \<not> AutoRegisterWorkerId c then
       (let maxWorkerID = 1023;
            maxWorkerID = (if WorkerIdBits c > 0 then i32 (shl32 1 (WorkerIdBits c) - 1) else maxWorkerID)
        in reject_if (WorkerId c < 0 \<or> WorkerId c > maxWorkerID) (WorkerRange maxWorkerID (WorkerId c)) None)
     else None)"

definition validateTtl :: "EonId \<Rightarrow> validation_error option" where
  "validateTtl c = (case WorkerIdTtl c of None \<Rightarrow> None
     | Some ttl \<Rightarrow>
         reject_if (ttl \<le> 0) TtlNotPositive (
         reject_if (ttl < 10 * Second) (TtlTooSmall ttl) (
         reject_if (ttl > 24 * Hour) (TtlTooLarge ttl) None)))"

definition validateHeartbeat :: "EonId \<Rightarrow> validation_error option" where
  "validateHeartbeat c = (case HeartbeatInterval c of None \<Rightarrow> None
     | Some interval \<Rightarrow>
         reject_if (interval \<le> 0) HeartbeatNotPositive (
         reject_if (interval < 1 * Second) (HeartbeatTooSmall interval) (
         reject_if (interval > 1 * Hour) (HeartbeatTooLarge interval) (
         case WorkerIdTtl c of None \<Rightarrow> None
         | Some ttl \<Rightarrow>
             reject_if (interval \<ge> ttl) (HeartbeatNotBelowTtl interval ttl) (
             reject_if (ttl < i64 (interval * 3)) (TtlBelowThreeHeartbeats ttl interval) None)))))"

definition validateRedisIntegrationConfig :: "EonId \<Rightarrow> validation_error option" where
  "validateRedisIntegrationConfig c =
     (if AutoRegisterWorkerId c then
        reject_if (RedisPluginName c = '''') PluginNameRequired (
        reject_if (RedisKeyPrefix c = '''') KeyPrefixRequired (
        reject_if (RedisDb c < 0 \<or> RedisDb c > 15) (RedisDbRange (RedisDb c)) (
        first_error (validateTtl c) (validateHeartbeat c))))
      else None)"

definition validateClockDriftConfig :: "EonId \<Rightarrow> validation_error option" where
  "validateClockDriftConfig c =
     (if pb_EnableClockDriftProtection c then
        first_error (case pb_MaxClockDrift c of None \<Rightarrow> None
          | Some drift \<Rightarrow>
              reject_if (drift \<le> 0) PbDriftNotPositive (
              reject_if (drift < 100 * Millisecond) (PbDriftTooSmall drift) (
              reject_if (drift > 1 * Hour) (PbDriftTooLarge drift) None))) (
        first_error (case ClockCheckInterval c of None \<Rightarrow> None
          | Some interval \<Rightarrow>
              reject_if (interval \<le> 0) CheckIntervalNotPositive (
              reject_if (interval < 100 * Millisecond) (CheckIntervalTooSmall interval) (
              reject_if (interval > 10 * Minute) (CheckIntervalTooLarge interval) None))) (
        if pb_ClockDriftAction c \<noteq> '''' then
          reject_if (pb_ClockDriftAction c \<notin> {ClockDriftActionWait, ClockDriftActionError, ClockDriftActionIgnore})
            (PbInvalidDriftAction (pb_ClockDriftAction c)) None
        else None))
      else None)"

definition validatePerformanceConfig :: "EonId \<Rightarrow> validation_error option" where
  "validatePerformanceConfig c =
     (if pb_EnableSequenceCache c then
        reject_if (pb_SequenceCacheSize c \<le> 0) PbCacheSizeNotPositive (
        reject_if (pb_SequenceCacheSize c < 10) (PbCacheSizeTooSmall (pb_SequenceCacheSize c)) (
        let sequenceBits = 12;
            sequenceBits = (if pb_SequenceBits c > 0 then pb_SequenceBits c else sequenceBits);
            maxSequence = shl32 1 sequenceBits
        in reject_if (pb_SequenceCacheSize c > maxSequence)
             (PbCacheSizeExceeds (pb_SequenceCacheSize c) maxSequence) None))
      else None)"

definition validateBitAllocation :: "EonId \<Rightarrow> validation_error option" where
  "validateBitAllocation c =
     (let datacenterBits = 5;
          workerBits = (if WorkerIdBits c = 0 then 10 else WorkerIdBits c);
          sequenceBits = (if pb_SequenceBits c = 0 then 12 else pb_SequenceBits c)
      in reject_if (datacenterBits < 0 \<or> datacenterBits > 10) (PbDatacenterBitsRange datacenterBits) (
         reject_if (workerBits < 1 \<or> workerBits > 20) (PbWorkerBitsRange workerBits) (
         reject_if (sequenceBits < 1 \<or> sequenceBits > 20) (PbSequenceBitsRange sequenceBits) (
         let totalBits = i32 (i32 (datacenterBits + workerBits) + sequenceBits)
         in reject_if (totalBits > 22) (PbTotalBitsExceeded totalBits) (
         let maxDatacenters = shl64 1 datacenterBits;
             maxWorkers = shl64 1 workerBits;
             maxSequence = shl64 1 sequenceBits
         in reject_if (datacenterBits > 0 \<and> maxDatacenters > 1024) (PbExcessiveDatacenters datacenterBits maxDatacenters) (
            reject_if (maxWorkers > 65536) (PbExcessiveWorkers workerBits maxWorkers) (
            reject_if (maxSequence < 100) (PbTooFewSequences sequenceBits maxSequence) None)))))))"

text \<open>Readings 0, 1 and 2 of the clock, as in \<open>validateEpoch\<close> of the generator.\<close>

definition validateAdvancedConfig :: "host \<Rightarrow> EonId \<Rightarrow> validation_error option" where
  "validateAdvancedConfig h c =
     first_error
       (if pb_CustomEpoch c \<noteq> 0 then
          (let currentTimestamp = UnixMilli (clock h 0);
               fiftyYearsAgo = UnixMilli (addYears h (-50) (clock h 1));
               maxFutureTime = i64 (pb_CustomEpoch c + (shl64 1 41 - 1))
           in reject_if (pb_CustomEpoch c > currentTimestamp) (PbEpochInFuture (pb_CustomEpoch c) currentTimestamp) (
              reject_if (pb_CustomEpoch c < fiftyYearsAgo) (PbEpochTooOld (pb_CustomEpoch c) fiftyYearsAgo) (
              reject_if (maxFutureTime < UnixMilli (addYears h 10 (clock h 2))) (PbEpochShortLifetime maxFutureTime)
              None)))
        else None)
       (validateBitAllocation c)"

text \<open>\<open>validateConfigConsistency\<close>: both branches are empty.\<close>

definition validateConfigConsistency :: "EonId \<Rightarrow> validation_error option" where
  "validateConfigConsistency c = None"

definition ValidateSnowflakeConfig :: "host \<Rightarrow> EonId option \<Rightarrow> validation_error option" where
  "ValidateSnowflakeConfig h config = (case config of None \<Rightarrow> Some ConfigNil
     | Some c \<Rightarrow>
         first_error (validateBasicConfig c) (
         first_error (validateRedisIntegrationConfig c) (
         first_error (validateClockDriftConfig c) (
         first_error (validatePerformanceConfig c) (
         first_error (validateAdvancedConfig h c) (
         validateConfigConsistency c))))))"

section \<open>From the message to a generator\<close>

definition NewSnowflakeGeneratorWithConfig ::
    "host \<Rightarrow> EonId option \<Rightarrow> (new_error, Generator) result" where
  "NewSnowflakeGeneratorWithConfig h config = (case config of None \<Rightarrow> Inl NilConfig
     | Some c \<Rightarrow>
         (let maxClockDrift = (case pb_MaxClockDrift c of None \<Rightarrow> DefaultMaxClockDrift | Some d \<Rightarrow> d);
              clockDriftAction = (if pb_ClockDriftAction c = '''' then ClockDriftActionWait
                                  else pb_ClockDriftAction c);
              internalConfig = \<lparr>CustomEpoch = pb_CustomEpoch c, DatacenterIDBits = 5,
                WorkerIDBits = WorkerIdBits c, SequenceBits = pb_SequenceBits c,
                EnableClockDriftProtection = pb_EnableClockDriftProtection c,
                MaxClockDrift = maxClockDrift, ClockDriftAction = clockDriftAction,
                EnableSequenceCache = pb_EnableSequenceCache c,
                SequenceCacheSize = pb_SequenceCacheSize c, EnableMetrics = pb_EnableMetrics c\<rparr>
          in NewSnowflakeGeneratorCore h (DatacenterId c) (WorkerId c) (Some internalConfig)))"

text \<open>The generator configuration of \<open>InitializeResources\<close>, with its defaults for zero fields.\<close>

definition generatorConfigOf :: "EonId \<Rightarrow> GeneratorConfig" where
  "generatorConfigOf c =
     (let g = \<lparr>CustomEpoch = pb_CustomEpoch c, DatacenterIDBits = DefaultDatacenterBits,
            WorkerIDBits = WorkerIdBits c, SequenceBits = pb_SequenceBits c,
            EnableClockDriftProtection = pb_EnableClockDriftProtection c,
            MaxClockDrift = 5 * Second, ClockDriftAction = pb_ClockDriftAction c,
            EnableSequenceCache = pb_EnableSequenceCache c,
            SequenceCacheSize = pb_SequenceCacheSize c, EnableMetrics = pb_EnableMetrics c\<rparr>;
          g = (if CustomEpoch g = 0 then g\<lparr>CustomEpoch := DefaultEpoch\<rparr> else g);
          g = (if WorkerIDBits g = 0 then g\<lparr>WorkerIDBits := DefaultWorkerBits\<rparr> else g);
          g = (if SequenceBits g = 0 then g\<lparr>SequenceBits := DefaultSequenceBits\<rparr> else g);
          g = (if SequenceCacheSize g = 0 then g\<lparr>SequenceCacheSize := 1000\<rparr> else g);
          g = (if ClockDriftAction g = '''' then g\<lparr>ClockDriftAction := ClockDriftActionWait\<rparr> else g);
          g = (case pb_MaxClockDrift c of None \<Rightarrow> g | Some d \<Rightarrow> g\<lparr>MaxClockDrift := d\<rparr>)
      in g)"

text \<open>The configuration \<open>InitializeResources\<close> falls back to when scanning fails.\<close>

definition fallbackConf :: EonId where
  "fallbackConf = \<lparr>DatacenterId = 0, WorkerId = 0, AutoRegisterWorkerId = True,
     RedisKeyPrefix = DefaultRedisKeyPrefix, WorkerIdTtl = None, HeartbeatInterval = None,
     pb_EnableClockDriftProtection = True, pb_MaxClockDrift = None, ClockCheckInterval = None,
     pb_ClockDriftAction = ''wait'', pb_EnableSequenceCache = True, pb_SequenceCacheSize = 1000,
     pb_EnableMetrics = True, RedisPluginName = ''redis'', RedisDb = 0,
     pb_CustomEpoch = DefaultEpoch, WorkerIdBits = DefaultWorkerBits, pb_SequenceBits = DefaultSequenceBits\<rparr>"

section \<open>What validation accepts\<close>

definition effectiveWorkerBits :: "EonId \<Rightarrow> int" where
  "effectiveWorkerBits c = (if WorkerIdBits c = 0 then 10 else WorkerIdBits c)"

definition effectiveSequenceBits :: "EonId \<Rightarrow> int" where
  "effectiveSequenceBits c = (if pb_SequenceBits c = 0 then 12 else pb_SequenceBits c)"

definition between :: "int \<Rightarrow> int \<Rightarrow> int option \<Rightarrow> bool" where
  "between lo hi d = (case d of None \<Rightarrow> True | Some x \<Rightarrow> lo \<le> x \<and> x \<le> hi)"

definition bits_ok :: "EonId \<Rightarrow> bool" where
  "bits_ok c \<longleftrightarrow> 1 \<le> effectiveWorkerBits c \<and> 7 \<le> effectiveSequenceBits c \<and>
     effectiveWorkerBits c + effectiveSequenceBits c \<le> 17"

definition identity_ok :: "EonId \<Rightarrow> bool" where
  "identity_ok c \<longleftrightarrow> 0 \<le> DatacenterId c \<and> DatacenterId c \<le> 31 \<and>
     (AutoRegisterWorkerId c \<or> 0 \<le> WorkerId c \<and> WorkerId c < 2 ^ nat (effectiveWorkerBits c))"

definition redis_ok :: "EonId \<Rightarrow> bool" where
  "redis_ok c \<longleftrightarrow> (AutoRegisterWorkerId c \<longrightarrow>
     RedisPluginName c \<noteq> '''' \<and> RedisKeyPrefix c \<noteq> '''' \<and> 0 \<le> RedisDb c \<and> RedisDb c \<le> 15 \<and>
     between (10 * Second) (24 * Hour) (WorkerIdTtl c) \<and> between Second Hour (HeartbeatInterval c) \<and>
     (case (HeartbeatInterval c, WorkerIdTtl c) of (Some i, Some ttl) \<Rightarrow> 3 * i \<le> ttl | _ \<Rightarrow> True))"

definition pb_drift_ok :: "EonId \<Rightarrow> bool" where
  "pb_drift_ok c \<longleftrightarrow> (pb_EnableClockDriftProtection c \<longrightarrow>
     between (100 * Millisecond) Hour (pb_MaxClockDrift c) \<and>
     between (100 * Millisecond) (10 * Minute) (ClockCheckInterval c) \<and>
     pb_ClockDriftAction c \<in> {'''', ClockDriftActionWait, ClockDriftActionError, ClockDriftActionIgnore})"

definition pb_cache_ok :: "EonId \<Rightarrow> bool" where
  "pb_cache_ok c \<longleftrightarrow> cache_ok (pb_EnableSequenceCache c) (pb_SequenceCacheSize c) (effectiveSequenceBits c)"

lemma redis_config_ok: "validateRedisIntegrationConfig c = None \<longleftrightarrow> redis_ok c"
proof -
  have "i64 (i * 3) = i * 3" if "0 < i" "i \<le> Hour" for i
    using that by (intro i64_id) auto
  then show ?thesis
    by (auto simp: validateRedisIntegrationConfig_def redis_ok_def validateTtl_def
        validateHeartbeat_def between_def split: option.splits)
qed

lemma drift_config_ok: "validateClockDriftConfig c = None \<longleftrightarrow> pb_drift_ok c"
  by (auto simp: validateClockDriftConfig_def pb_drift_ok_def between_def split: option.splits)

lemma shl32_one:
  assumes "0 \<le> n" and "n \<le> 20"
  shows "shl32 1 n = 2 ^ nat n" and "i32 (shl32 1 n - 1) = 2 ^ nat n - 1"
proof -
  have "(2 :: int) ^ nat n \<le> 2 ^ 20" using assms by (subst pow2_nat_le_iff) auto
  then have le: "(2 :: int) ^ nat n \<le> 1048576" by simp
  have p: "(1 :: int) \<le> 2 ^ nat n" by simp
  define x where "x = (2 :: int) ^ nat n"
  have x: "i32 x = x" "i32 (x - 1) = x - 1"
    using le p unfolding x_def [symmetric] by (simp_all add: i32_id)
  show s: "shl32 1 n = 2 ^ nat n"
    using x(1) by (simp add: shl32_def push_bit_eq_mult x_def)
  show "i32 (shl32 1 n - 1) = 2 ^ nat n - 1"
    using x(2) by (simp add: s x_def)
qed

lemma bits_config_ok: "validateBitAllocation c = None \<longleftrightarrow> bits_ok c"
proof (cases "1 \<le> effectiveWorkerBits c \<and> effectiveWorkerBits c \<le> 20 \<and>
    1 \<le> effectiveSequenceBits c \<and> effectiveSequenceBits c \<le> 20")
  case True
  let ?w = "effectiveWorkerBits c" and ?s = "effectiveSequenceBits c"
  have t: "i32 (i32 (5 + ?w) + ?s) = 5 + ?w + ?s" using True by (simp add: i32_id)
  have w: "7 \<le> ?s \<Longrightarrow> 5 + ?w + ?s \<le> 22 \<Longrightarrow> (2 :: int) ^ nat ?w \<le> 2 ^ 16"
    using True by (subst pow2_nat_le_iff) auto
  have s: "100 \<le> (2 :: int) ^ nat ?s \<longleftrightarrow> 7 \<le> ?s" using True by (simp add: pow2_nat_ge_100)
  show ?thesis
    using True w s t
    by (auto simp: validateBitAllocation_def Let_def shl64_one bits_ok_def
        effectiveWorkerBits_def [symmetric] effectiveSequenceBits_def [symmetric])
next
  case False
  then have "\<not> bits_ok c" by (auto simp: bits_ok_def)
  with False show ?thesis
    by (auto simp: validateBitAllocation_def Let_def
        effectiveWorkerBits_def [symmetric] effectiveSequenceBits_def [symmetric])
qed

lemma advanced_config_ok:
  "validateAdvancedConfig h c = None \<longleftrightarrow> (pb_CustomEpoch c = 0 \<or> epoch_ok h (pb_CustomEpoch c)) \<and> bits_ok c"
  by (auto simp: validateAdvancedConfig_def bits_config_ok epoch_ok_def Let_def shl64_one)

lemma basic_config_ok:
  assumes "bits_ok c"
  shows "validateBasicConfig c = None \<longleftrightarrow> identity_ok c"
proof -
  have b: "1 \<le> effectiveWorkerBits c" "effectiveWorkerBits c \<le> 10"
    using assms by (auto simp: bits_ok_def)
  have max: "(if WorkerIdBits c > 0 then i32 (shl32 1 (WorkerIdBits c) - 1) else 1023) =
      2 ^ nat (effectiveWorkerBits c) - 1"
    using b shl32_one(2) [of "WorkerIdBits c"]
    by (auto simp: effectiveWorkerBits_def split: if_splits)
  show ?thesis
    by (auto simp: validateBasicConfig_def Let_def max identity_ok_def)
qed

lemma performance_config_ok:
  assumes "bits_ok c"
  shows "validatePerformanceConfig c = None \<longleftrightarrow> pb_cache_ok c"
proof -
  have b: "7 \<le> effectiveSequenceBits c" "effectiveSequenceBits c \<le> 16"
    using assms by (auto simp: bits_ok_def)
  then have e: "(if pb_SequenceBits c > 0 then pb_SequenceBits c else 12) = effectiveSequenceBits c"
    by (auto simp: effectiveSequenceBits_def split: if_splits)
  show ?thesis
    using shl32_one(1) [of "effectiveSequenceBits c"] b
    by (auto simp: validatePerformanceConfig_def Let_def e pb_cache_ok_def cache_ok_def)
qed

lemma ValidateSnowflakeConfig_accepts_aux:
  "ValidateSnowflakeConfig h (Some c) = None \<longleftrightarrow>
     identity_ok c \<and> redis_ok c \<and> pb_drift_ok c \<and> pb_cache_ok c \<and>
     (pb_CustomEpoch c = 0 \<or> epoch_ok h (pb_CustomEpoch c)) \<and> bits_ok c"
proof (cases "bits_ok c")
  case True
  then show ?thesis
    by (simp add: ValidateSnowflakeConfig_def redis_config_ok drift_config_ok advanced_config_ok
        basic_config_ok performance_config_ok validateConfigConsistency_def)
next
  case False
  then show ?thesis
    by (simp add: ValidateSnowflakeConfig_def advanced_config_ok)
qed

section \<open>Validation and construction\<close>

lemma generatorConfigOf_sel:
  "CustomEpoch (generatorConfigOf c) = (if pb_CustomEpoch c = 0 then DefaultEpoch else pb_CustomEpoch c)"
  "DatacenterIDBits (generatorConfigOf c) = 5"
  "WorkerIDBits (generatorConfigOf c) = (if WorkerIdBits c = 0 then 5 else WorkerIdBits c)"
  "SequenceBits (generatorConfigOf c) = effectiveSequenceBits c"
  "EnableClockDriftProtection (generatorConfigOf c) = pb_EnableClockDriftProtection c"
  "MaxClockDrift (generatorConfigOf c) = (case pb_MaxClockDrift c of None \<Rightarrow> 5 * Second | Some d \<Rightarrow> d)"
  "ClockDriftAction (generatorConfigOf c) =
     (if pb_ClockDriftAction c = '''' then ClockDriftActionWait else pb_ClockDriftAction c)"
  "EnableSequenceCache (generatorConfigOf c) = pb_EnableSequenceCache c"
  "SequenceCacheSize (generatorConfigOf c) =
     (if pb_SequenceCacheSize c = 0 then 1000 else pb_SequenceCacheSize c)"
  "EnableMetrics (generatorConfigOf c) = pb_EnableMetrics c"
  by (auto simp: generatorConfigOf_def Let_def effectiveSequenceBits_def DefaultDatacenterBits_def
      DefaultWorkerBits_def DefaultSequenceBits_def split: option.splits)

text \<open>When construction succeeds, whatever the generator does with the values afterwards.\<close>

lemma NewSnowflakeGeneratorCore_accepts:
  assumes v: "Validate h c = None" and dc: "0 \<le> dc" "dc < 2 ^ nat (DatacenterIDBits c)"
    and wk: "0 \<le> wk" "wk < 2 ^ nat (WorkerIDBits c)" and epoch: "CustomEpoch c \<le> UnixMilli (clock h 3)"
  shows "is_ok (NewSnowflakeGeneratorCore h dc wk (Some c))"
proof -
  have lay: "layout_ok (DatacenterIDBits c) (WorkerIDBits c) (SequenceBits c)"
    using v by (simp add: Validate_accepts_aux)
  then have "i64 (shl64 1 (DatacenterIDBits c) - 1) = 2 ^ nat (DatacenterIDBits c) - 1"
    "i64 (shl64 1 (WorkerIDBits c) - 1) = 2 ^ nat (WorkerIDBits c) - 1"
    by (auto simp: layout_ok_def intro!: shl64_mask)
  with v dc wk epoch show ?thesis
    by (simp add: NewSnowflakeGeneratorCore_def Let_def)
qed

definition effectiveEpoch :: "EonId \<Rightarrow> int" where
  "effectiveEpoch c = (if pb_CustomEpoch c = 0 then DefaultEpoch else pb_CustomEpoch c)"

lemma validated_config_layout:
  assumes "identity_ok c" and "bits_ok c" and "WorkerIdBits c \<noteq> 0"
  shows "layout_ok (DatacenterIDBits (generatorConfigOf c)) (WorkerIDBits (generatorConfigOf c))
    (SequenceBits (generatorConfigOf c))"
  using assms by (auto simp: bits_ok_def layout_ok_def generatorConfigOf_sel effectiveWorkerBits_def)

lemma validated_constructs_aux:
  assumes v: "ValidateSnowflakeConfig h (Some c) = None"
    and bits: "WorkerIdBits c \<noteq> 0"
    and wk: "0 \<le> WorkerId c" "WorkerId c < 2 ^ nat (WorkerIdBits c)"
    and action: "pb_EnableClockDriftProtection c \<or> pb_ClockDriftAction c \<in>
      {'''', ClockDriftActionWait, ClockDriftActionError, ClockDriftActionIgnore}"
    and epoch: "epoch_ok h' (effectiveEpoch c)" "effectiveEpoch c \<le> UnixMilli (clock h' 3)"
  shows "is_ok (NewSnowflakeGeneratorCore h' (DatacenterId c) (WorkerId c) (Some (generatorConfigOf c)))"
proof (rule NewSnowflakeGeneratorCore_accepts)
  have ok: "identity_ok c" "pb_drift_ok c" "pb_cache_ok c" "bits_ok c"
    using v by (simp_all add: ValidateSnowflakeConfig_accepts_aux)
  show "Validate h' (generatorConfigOf c) = None"
    unfolding Validate_accepts_aux
  proof (intro conjI)
    show "layout_ok (DatacenterIDBits (generatorConfigOf c)) (WorkerIDBits (generatorConfigOf c))
        (SequenceBits (generatorConfigOf c))"
      using validated_config_layout ok bits by blast
    show "epoch_ok h' (CustomEpoch (generatorConfigOf c))"
      using epoch(1) by (simp add: generatorConfigOf_sel effectiveEpoch_def)
    show "drift_ok (EnableClockDriftProtection (generatorConfigOf c)) (MaxClockDrift (generatorConfigOf c))
        (ClockDriftAction (generatorConfigOf c))"
      using ok(2) action
      by (auto simp: generatorConfigOf_sel drift_ok_def pb_drift_ok_def between_def split: option.splits)
    show "cache_ok (EnableSequenceCache (generatorConfigOf c)) (SequenceCacheSize (generatorConfigOf c))
        (SequenceBits (generatorConfigOf c))"
      using ok(3) by (auto simp: generatorConfigOf_sel pb_cache_ok_def cache_ok_def)
  qed
  show "0 \<le> DatacenterId c" "DatacenterId c < 2 ^ nat (DatacenterIDBits (generatorConfigOf c))"
    using ok(1) by (auto simp: identity_ok_def generatorConfigOf_sel)
  show "0 \<le> WorkerId c" "WorkerId c < 2 ^ nat (WorkerIDBits (generatorConfigOf c))"
    using wk bits by (simp_all add: generatorConfigOf_sel)
  show "CustomEpoch (generatorConfigOf c) \<le> UnixMilli (clock h' 3)"
    using epoch(2) by (simp add: generatorConfigOf_sel effectiveEpoch_def)
qed

end
