(* ===== verification/Config_Props.thy ===== *)
theory Config_Props
  imports Config_Validator Demo
begin

text \<open>
  The properties of the two validators and of the way from the plugin's configuration to a
  generator.
\<close>

definition demo_conf :: EonId where
  "demo_conf = fallbackConf\<lparr>WorkerId := 7, AutoRegisterWorkerId := False\<rparr>"



text \<open>The two components disagree on the default width of the worker ID (10 in the
  validator, 5 in the generator): with absent worker bits and absent (or at least 8) sequence
  bits the validator rejects the configuration, although with absent sequence bits the layout
  that \<open>InitializeResources\<close> derives from it is one the generator accepts.\<close>

theorem default_bits_rejected:
  assumes "WorkerIdBits c = 0" and "pb_SequenceBits c = 0 \<or> 8 \<le> pb_SequenceBits c"
  shows "ValidateSnowflakeConfig h (Some c) \<noteq> None \<and>
    (pb_SequenceBits c = 0 \<longrightarrow> layout_ok (DatacenterIDBits (generatorConfigOf c))
       (WorkerIDBits (generatorConfigOf c)) (SequenceBits (generatorConfigOf c)))"
proof -
  have "\<not> bits_ok c"
    using assms by (auto simp: bits_ok_def effectiveWorkerBits_def effectiveSequenceBits_def)
  then show ?thesis
    using assms(1)
    by (simp add: ValidateSnowflakeConfig_accepts_aux generatorConfigOf_sel layout_ok_def effectiveSequenceBits_def)
qed

theorem default_bits_rejected_witness:
  "ValidateSnowflakeConfig demo_host (Some (demo_conf\<lparr>WorkerIdBits := 0, pb_SequenceBits := 0\<rparr>)) \<noteq> None"
  using default_bits_rejected [of "demo_conf\<lparr>WorkerIdBits := 0, pb_SequenceBits := 0\<rparr>" demo_host] by simp

text \<open>A configuration that \<open>ValidateSnowflakeConfig\<close> accepts, with an explicit worker
  width, a worker ID within it, a known drift action (which validation only looks at when the
  protection is on) and an epoch that is still acceptable at start-up, is one from which
  \<open>InitializeResources\<close> constructs the generator.\<close>

theorem validated_constructs:
  assumes "ValidateSnowflakeConfig h (Some c) = None" and "WorkerIdBits c \<noteq> 0"
    and "0 \<le> WorkerId c" and "WorkerId c < 2 ^ nat (WorkerIdBits c)"
    and "pb_EnableClockDriftProtection c \<or> pb_ClockDriftAction c \<in>
      {'''', ClockDriftActionWait, ClockDriftActionError, ClockDriftActionIgnore}"
    and "epoch_ok h' (effectiveEpoch c)" and "effectiveEpoch c \<le> UnixMilli (clock h' 3)"
  shows "is_ok (NewSnowflakeGeneratorCore h' (DatacenterId c) (WorkerId c) (Some (generatorConfigOf c)))"
  using assms by (rule validated_constructs_aux)

theorem validated_constructs_witness:
  "is_ok (NewSnowflakeGeneratorCore demo_host 0 7 (Some (generatorConfigOf demo_conf)))"
proof -
  have "is_ok (NewSnowflakeGeneratorCore demo_host (DatacenterId demo_conf) (WorkerId demo_conf)
      (Some (generatorConfigOf demo_conf)))"
    by (rule validated_constructs [of demo_host]; code_simp)
  then show ?thesis by (simp add: demo_conf_def fallbackConf_def)
qed

text \<open>\<open>NewSnowflakeGeneratorWithConfig\<close> and \<open>InitializeResources\<close> build the same generator
  (or fail with the same error) whenever epoch, worker bits, sequence bits and cache size are
  all given; if one of the widths is absent, \<open>NewSnowflakeGeneratorWithConfig\<close> always fails.\<close>

theorem with_config_agrees:
  "(pb_CustomEpoch c \<noteq> 0 \<and> WorkerIdBits c \<noteq> 0 \<and> pb_SequenceBits c \<noteq> 0 \<and> pb_SequenceCacheSize c \<noteq> 0 \<longrightarrow>
      NewSnowflakeGeneratorWithConfig h (Some c) =
      NewSnowflakeGeneratorCore h (DatacenterId c) (WorkerId c) (Some (generatorConfigOf c))) \<and>
   (WorkerIdBits c = 0 \<or> pb_SequenceBits c = 0 \<longrightarrow> \<not> is_ok (NewSnowflakeGeneratorWithConfig h (Some c)))"
proof (intro conjI impI)
  assume given: "pb_CustomEpoch c \<noteq> 0 \<and> WorkerIdBits c \<noteq> 0 \<and> pb_SequenceBits c \<noteq> 0 \<and> pb_SequenceCacheSize c \<noteq> 0"
  then show "NewSnowflakeGeneratorWithConfig h (Some c) =
      NewSnowflakeGeneratorCore h (DatacenterId c) (WorkerId c) (Some (generatorConfigOf c))"
    by (cases "pb_MaxClockDrift c"; cases "pb_ClockDriftAction c = ''''")
      (simp_all add: NewSnowflakeGeneratorWithConfig_def generatorConfigOf_def Let_def
        DefaultMaxClockDrift_def DefaultDatacenterBits_def)
next
  assume "WorkerIdBits c = 0 \<or> pb_SequenceBits c = 0"
  then have "\<not> layout_ok 5 (WorkerIdBits c) (pb_SequenceBits c)" by (auto simp: layout_ok_def)
  then have no: "Validate h x \<noteq> None"
    if "DatacenterIDBits x = 5" "WorkerIDBits x = WorkerIdBits c" "SequenceBits x = pb_SequenceBits c" for x
    using that by (simp add: Validate_accepts_aux)
  show "\<not> is_ok (NewSnowflakeGeneratorWithConfig h (Some c))"
    unfolding NewSnowflakeGeneratorWithConfig_def NewSnowflakeGeneratorCore_def Let_def option.case
    by (auto simp: is_ok_def no split: option.splits)
qed

theorem with_config_agrees_witness:
  "NewSnowflakeGeneratorWithConfig demo_host (Some demo_conf) =
     NewSnowflakeGeneratorCore demo_host 0 7 (Some (generatorConfigOf demo_conf)) \<and>
   \<not> is_ok (NewSnowflakeGeneratorWithConfig demo_host (Some (demo_conf\<lparr>WorkerIdBits := 0\<rparr>)))"
  using with_config_agrees [of demo_conf demo_host]
    with_config_agrees [of "demo_conf\<lparr>WorkerIdBits := 0\<rparr>" demo_host]
  by (simp add: demo_conf_def fallbackConf_def DefaultEpoch_def DefaultWorkerBits_def DefaultSequenceBits_def)

end
