(* ===== verification/Redis.thy ===== *)
theory Redis
  imports Prelude
begin

text \<open>
  The Redis server and client as the worker manager uses them. They are not part of the
  repository: \<open>redis\<close> is a record of the commands, an argument of every definition that
  issues one, and the locale \<open>redis_server\<close> states the documented behaviour a property may rely on, in
  terms of what \<open>GET\<close> answers at a time (nanoseconds on the server's clock). The two Lua
  scripts of \<open>lua_scripts.go\<close> are translated over the commands; Redis runs a script
  atomically.
\<close>

section \<open>Decimal numbers\<close>

text \<open>\<open>%d\<close>\<close>

fun show_nat :: "nat \<Rightarrow> string" where
  "show_nat n = (if n < 10 then [char_of (48 + n)] else show_nat (n div 10) @ [char_of (48 + n mod 10)])"

declare show_nat.simps [simp del]

definition show_int :: "int \<Rightarrow> string" where
  "show_int i = (if i < 0 then CHR ''-'' # show_nat (nat (- i)) else show_nat (nat i))"

definition read_nat :: "string \<Rightarrow> nat" where
  "read_nat s = foldl (\<lambda>a c. a * 10 + (of_char c - 48)) 0 s"

lemma read_show_nat: "read_nat (show_nat n) = n"
proof (induction n rule: show_nat.induct)
  case (1 n)
  show ?case
  proof (cases "n < 10")
    case True
    then show ?thesis by (simp add: show_nat.simps [of n] read_nat_def)
  next
    case False
    have "read_nat (show_nat n) = read_nat (show_nat (n div 10)) * 10 + n mod 10"
      using False by (subst show_nat.simps) (simp add: read_nat_def)
    with "1.IH" [OF False] show ?thesis by simp
  qed
qed

lemma show_nat_inj: "show_nat m = show_nat n \<longleftrightarrow> m = n"
  by (metis read_show_nat)

lemma show_nat_digits: "c \<in> set (show_nat n) \<Longrightarrow> 48 \<le> (of_char c :: nat) \<and> (of_char c :: nat) < 58"
proof (induction n rule: show_nat.induct)
  case (1 n)
  then show ?case
    by (cases "n < 10") (auto simp: show_nat.simps [of n])
qed

lemma show_nat_no_sign: "CHR ''-'' \<notin> set (show_nat n)" "CHR '':'' \<notin> set (show_nat n)"
  using show_nat_digits [of _ n] by fastforce+

lemma show_nat_nonempty: "show_nat n \<noteq> []"
  by (subst show_nat.simps) simp

lemma show_int_inj: "show_int i = show_int j \<longleftrightarrow> i = j"
proof
  assume eq: "show_int i = show_int j"
  have "CHR ''-'' \<in> set (show_int k) \<longleftrightarrow> k < 0" for k
    using show_nat_no_sign(1) by (auto simp: show_int_def)
  with eq have "i < 0 \<longleftrightarrow> j < 0" by metis
  with eq show "i = j" by (auto simp: show_int_def show_nat_inj split: if_splits)
qed simp

lemma show_int_no_colon: "CHR '':'' \<notin> set (show_int i)"
  using show_nat_no_sign(2) by (auto simp: show_int_def)

lemma append_colon_inj:
  assumes "a @ CHR '':'' # x = b @ CHR '':'' # y" and "CHR '':'' \<notin> set a" and "CHR '':'' \<notin> set b"
  shows "a = b \<and> x = y"
proof -
  have "takeWhile (\<lambda>c. c \<noteq> CHR '':'') (a @ CHR '':'' # x) = a"
    "takeWhile (\<lambda>c. c \<noteq> CHR '':'') (b @ CHR '':'' # y) = b"
    using assms(2,3) by (subst takeWhile_append2; auto)+
  with assms(1) show ?thesis by auto
qed

section \<open>The commands\<close>

text \<open>Each command runs at a time \<open>now\<close> of the server. \<open>SETNX\<close> is \<open>SET key value NX\<close> with a
  duration, \<open>SETEX\<close> is \<open>SET key value EX seconds\<close>, \<open>SET\<close> has no expiry. \<open>INCR\<close> fails on a value
  that is not a number.\<close>

record 'r redis =
  GET :: "int \<Rightarrow> string \<Rightarrow> 'r \<Rightarrow> string option"
  SET :: "int \<Rightarrow> string \<Rightarrow> string \<Rightarrow> 'r \<Rightarrow> 'r"
  SETEX :: "int \<Rightarrow> string \<Rightarrow> string \<Rightarrow> int \<Rightarrow> 'r \<Rightarrow> 'r"
  SETNX :: "int \<Rightarrow> string \<Rightarrow> string \<Rightarrow> int \<Rightarrow> 'r \<Rightarrow> bool \<times> 'r"
  INCR :: "int \<Rightarrow> string \<Rightarrow> 'r \<Rightarrow> int option \<times> 'r"
  DEL :: "int \<Rightarrow> string \<Rightarrow> 'r \<Rightarrow> 'r"
  SADD :: "int \<Rightarrow> string \<Rightarrow> string \<Rightarrow> 'r \<Rightarrow> 'r"
  SREM :: "int \<Rightarrow> string \<Rightarrow> string \<Rightarrow> 'r \<Rightarrow> 'r"
  SMEMBERS :: "int \<Rightarrow> string \<Rightarrow> 'r \<Rightarrow> string list"

text \<open>What a key answers from \<open>now\<close> on.\<close>

definition same_key :: "'r redis \<Rightarrow> int \<Rightarrow> string \<Rightarrow> 'r \<Rightarrow> 'r \<Rightarrow> bool" where
  "same_key R now k r r' \<longleftrightarrow> (\<forall>t \<ge> now. GET R t k r' = GET R t k r)"

text \<open>The documented behaviour: a key that is not written keeps its value until it expires for
  good; each command changes the key it names and no other. The instant at which a key with a
  lifetime expires is left open.\<close>

locale redis_server =
  fixes R :: "'r redis"
  assumes get_earlier: "t \<le> t' \<Longrightarrow> GET R t' k r = Some v \<Longrightarrow> GET R t k r = Some v"
    and set_other: "k' \<noteq> k \<Longrightarrow> same_key R now k' r (SET R now k v r)"
    and set_get: "now \<le> t \<Longrightarrow> GET R t k (SET R now k v r) = Some v"
    and setex_other: "k' \<noteq> k \<Longrightarrow> same_key R now k' r (SETEX R now k v s r)"
    and setex_get: "now \<le> t \<Longrightarrow> t < now + s * Second \<Longrightarrow> GET R t k (SETEX R now k v s r) = Some v"
    and setex_expired: "now \<le> t \<Longrightarrow> now + s * Second < t \<Longrightarrow> GET R t k (SETEX R now k v s r) = None"
    and setnx_other: "k' \<noteq> k \<Longrightarrow> same_key R now k' r (snd (SETNX R now k v d r))"
    and setnx_result: "fst (SETNX R now k v d r) \<longleftrightarrow> GET R now k r = None"
    and setnx_taken: "GET R now k r \<noteq> None \<Longrightarrow> same_key R now k r (snd (SETNX R now k v d r))"
    and setnx_get: "GET R now k r = None \<Longrightarrow> now \<le> t \<Longrightarrow> t < now + d \<Longrightarrow>
      GET R t k (snd (SETNX R now k v d r)) = Some v"
    and incr_other: "k' \<noteq> k \<Longrightarrow> same_key R now k' r (snd (INCR R now k r))"
    and incr_new: "GET R now k r = None \<Longrightarrow> fst (INCR R now k r) = Some 1"
    and incr_number: "GET R now k r = Some (show_int n) \<Longrightarrow> fst (INCR R now k r) = Some (n + 1)"
    and incr_get: "fst (INCR R now k r) = Some n \<Longrightarrow> now \<le> t \<Longrightarrow>
      GET R now k r = None \<or> GET R t k r \<noteq> None \<Longrightarrow> GET R t k (snd (INCR R now k r)) = Some (show_int n)"
    and del_other: "k' \<noteq> k \<Longrightarrow> same_key R now k' r (DEL R now k r)"
    and del_get: "now \<le> t \<Longrightarrow> GET R t k (DEL R now k r) = None"
    and sadd_other: "same_key R now k' r (SADD R now k m r) \<or> k' = k"
    and srem_other: "same_key R now k' r (SREM R now k m r) \<or> k' = k"
begin

lemma get_later_none: "t \<le> t' \<Longrightarrow> GET R t k r = None \<Longrightarrow> GET R t' k r = None"
  using get_earlier by (metis not_None_eq)

end

section \<open>An in-memory server\<close>

text \<open>The laws hold of a key-value store with expiry instants; the properties that depend on
  them are shown to be applicable on it.\<close>

record mem =
  m_keys :: "string \<rightharpoonup> string \<times> int option"
  m_sets :: "string \<Rightarrow> string list"

definition mem_get :: "int \<Rightarrow> string \<Rightarrow> mem \<Rightarrow> string option" where
  "mem_get now k r = (case m_keys r k of None \<Rightarrow> None
     | Some (v, e) \<Rightarrow> (case e of None \<Rightarrow> Some v | Some d \<Rightarrow> if now < d then Some v else None))"

definition mem_put :: "string \<Rightarrow> string \<Rightarrow> int option \<Rightarrow> mem \<Rightarrow> mem" where
  "mem_put k v e r = r\<lparr>m_keys := (m_keys r)(k \<mapsto> (v, e))\<rparr>"

definition read_int :: "string \<Rightarrow> int option" where
  "read_int s = (case s of
      [] \<Rightarrow> None
    | c # ds \<Rightarrow> if c = CHR ''-'' then (if ds \<noteq> [] \<and> list_all (\<lambda>d. 48 \<le> (of_char d :: nat) \<and> (of_char d :: nat) < 58) ds
                                     then Some (- int (read_nat ds)) else None)
                else if list_all (\<lambda>d. 48 \<le> (of_char d :: nat) \<and> (of_char d :: nat) < 58) s
                then Some (int (read_nat s)) else None)"

definition mem_incr :: "int \<Rightarrow> string \<Rightarrow> mem \<Rightarrow> int option \<times> mem" where
  "mem_incr now k r = (case mem_get now k r of
      None \<Rightarrow> (Some 1, mem_put k (show_int 1) None r)
    | Some v \<Rightarrow> (case read_int v of None \<Rightarrow> (None, r)
        | Some n \<Rightarrow> (Some (n + 1), mem_put k (show_int (n + 1)) (snd (the (m_keys r k))) r)))"

definition mem_redis :: "mem redis" where
  "mem_redis = \<lparr>
     GET = mem_get,
     SET = (\<lambda>now k v r. mem_put k v None r),
     SETEX = (\<lambda>now k v s r. mem_put k v (Some (now + s * Second)) r),
     SETNX = (\<lambda>now k v d r. if mem_get now k r = None then (True, mem_put k v (Some (now + d)) r)
                            else (False, r)),
     INCR = mem_incr,
     DEL = (\<lambda>now k r. r\<lparr>m_keys := (m_keys r)(k := None)\<rparr>),
     SADD = (\<lambda>now k m r. r\<lparr>m_sets := (m_sets r)(k := List.insert m (m_sets r k))\<rparr>),
     SREM = (\<lambda>now k m r. r\<lparr>m_sets := (m_sets r)(k := removeAll m (m_sets r k))\<rparr>),
     SMEMBERS = (\<lambda>now k r. m_sets r k)\<rparr>"

definition mem_empty :: mem where
  "mem_empty = \<lparr>m_keys = Map.empty, m_sets = (\<lambda>k. [])\<rparr>"

lemma read_digits:
  "list_all (\<lambda>d. 48 \<le> (of_char d :: nat) \<and> (of_char d :: nat) < 58) (show_nat n)"
  using show_nat_digits by (auto simp: list_all_iff)

lemma read_int_nat: "read_int (show_nat n) = Some (int n)"
proof (cases "show_nat n")
  case Nil
  then show ?thesis using show_nat_nonempty by simp
next
  case (Cons c ds)
  then have "c \<noteq> CHR ''-''" using show_nat_no_sign(1) [of n] by auto
  with Cons read_digits [of n] read_show_nat [of n] show ?thesis
    by (simp add: read_int_def)
qed

lemma read_show_int: "read_int (show_int i) = Some i"
proof (cases "i < 0")
  case True
  then show ?thesis
    using read_digits [of "nat (- i)"] read_show_nat [of "nat (- i)"] show_nat_nonempty [of "nat (- i)"]
    by (simp add: show_int_def read_int_def)
next
  case False
  then show ?thesis by (simp add: show_int_def read_int_nat)
qed

lemma mem_get_put [simp]:
  "mem_get t k' (mem_put k v e r) = (if k' = k then (case e of None \<Rightarrow> Some v
     | Some d \<Rightarrow> if t < d then Some v else None) else mem_get t k' r)"
  by (simp add: mem_get_def mem_put_def)

lemma mem_get_mono: "t \<le> t' \<Longrightarrow> mem_get t' k r = Some v \<Longrightarrow> mem_get t k r = Some v"
  by (auto simp: mem_get_def split: option.splits if_splits)

lemma mem_redis_sel [simp]:
  "GET mem_redis = mem_get" "SET mem_redis now k v r = mem_put k v None r"
  "SETEX mem_redis now k v s r = mem_put k v (Some (now + s * Second)) r"
  "SETNX mem_redis now k v d r =
     (if mem_get now k r = None then (True, mem_put k v (Some (now + d)) r) else (False, r))"
  "INCR mem_redis = mem_incr"
  "DEL mem_redis now k r = r\<lparr>m_keys := (m_keys r)(k := None)\<rparr>"
  "SADD mem_redis now k m r = r\<lparr>m_sets := (m_sets r)(k := List.insert m (m_sets r k))\<rparr>"
  "SREM mem_redis now k m r = r\<lparr>m_sets := (m_sets r)(k := removeAll m (m_sets r k))\<rparr>"
  by (simp_all add: mem_redis_def)

lemma mem_get_frame [simp]:
  "mem_get t k' (r\<lparr>m_keys := (m_keys r)(k := None)\<rparr>) = (if k' = k then None else mem_get t k' r)"
  "mem_get t k' (r\<lparr>m_sets := f\<rparr>) = mem_get t k' r"
  by (simp_all add: mem_get_def)

lemma mem_incr_other: "k' \<noteq> k \<Longrightarrow> mem_get t k' (snd (mem_incr now k r)) = mem_get t k' r"
  by (simp add: mem_incr_def split: option.split)

lemma mem_incr_get:
  assumes "fst (mem_incr now k r) = Some n" and "mem_get now k r = None \<or> mem_get t k r \<noteq> None"
  shows "mem_get t k (snd (mem_incr now k r)) = Some (show_int n)"
proof (cases "mem_get now k r")
  case None
  with assms(1) show ?thesis by (simp add: mem_incr_def)
next
  case (Some v)
  with assms show ?thesis
    by (auto simp: mem_incr_def split: option.splits)
       (auto simp: mem_get_def split: option.splits if_splits)
qed

interpretation mem: redis_server mem_redis
proof
  show "t \<le> t' \<Longrightarrow> GET mem_redis t' k r = Some v \<Longrightarrow> GET mem_redis t k r = Some v" for t t' k r v
    using mem_get_mono [of t t' k r v] by simp
  show "GET mem_redis now k r = None \<Longrightarrow> fst (INCR mem_redis now k r) = Some 1" for now k r
    by (simp add: mem_incr_def)
  show "GET mem_redis now k r = Some (show_int n) \<Longrightarrow> fst (INCR mem_redis now k r) = Some (n + 1)" for now k r n
    by (simp add: mem_incr_def read_show_int)
  show "fst (INCR mem_redis now k r) = Some n \<Longrightarrow> now \<le> t \<Longrightarrow>
      GET mem_redis now k r = None \<or> GET mem_redis t k r \<noteq> None \<Longrightarrow>
      GET mem_redis t k (snd (INCR mem_redis now k r)) = Some (show_int n)" for now k r n t
    using mem_incr_get [of now k r n t] by simp
  show "k' \<noteq> k \<Longrightarrow> same_key mem_redis now k' r (snd (INCR mem_redis now k r))" for k k' now r
    by (simp add: same_key_def mem_incr_other)
qed (auto simp: same_key_def)

end
