(* ===== verification/Lua_Scripts.thy ===== *)
theory Lua_Scripts
  imports Redis
begin

text \<open>
  The two Lua scripts of \<open>lua_scripts.go\<close>, translated over the Redis commands. Lua numbers are
  doubles; the counter stays at or below the number of worker IDs plus one, where they are
  exact. \<open>None\<close> is a script error.
\<close>

section \<open>The counter\<close>

definition LuaScriptIncrWithReset :: "'r redis \<Rightarrow> int \<Rightarrow> string \<Rightarrow> int \<Rightarrow> 'r \<Rightarrow> int option \<times> 'r" where
  "LuaScriptIncrWithReset R now key totalIDs r =
     (case INCR R now key r of
        (None, r) \<Rightarrow> (None, r)
      | (Some counter, r) \<Rightarrow>
          if counter > totalIDs then
            (let next_val = ((counter - 1) mod totalIDs) + 1
             in (Some next_val, SET R now key (show_int next_val) r))
          else (Some counter, r))"

section \<open>The heartbeat\<close>

text \<open>What \<open>cjson.decode\<close> makes of a string: an error, \<open>nil\<close> or \<open>false\<close>, a table with its field
  \<open>instance_id\<close> if that is a string, a string (whose fields are \<open>nil\<close>), or a value that cannot
  be indexed (a number, \<open>true\<close>, \<open>cjson.null\<close>), on which the script fails.\<close>

datatype lua_json = LuaUndecodable | LuaFalsy | LuaTable "string option" | LuaString | LuaScalar

definition LuaScriptHeartbeat ::
    "'r redis \<Rightarrow> (string \<Rightarrow> lua_json) \<Rightarrow> int \<Rightarrow> string \<Rightarrow> string \<Rightarrow> string \<Rightarrow> int \<Rightarrow> 'r \<Rightarrow> int option \<times> 'r" where
  "LuaScriptHeartbeat R decode now key info expected seconds r =
     (case GET R now key r of
        None \<Rightarrow> (Some (-1), r)
      | Some current \<Rightarrow>
          (case decode current of
             LuaUndecodable \<Rightarrow> (Some (-2), r)
           | LuaFalsy \<Rightarrow> (Some (-2), r)
           | LuaTable None \<Rightarrow> (Some (-2), r)
           | LuaString \<Rightarrow> (Some (-2), r)
           | LuaScalar \<Rightarrow> (None, r)
           | LuaTable (Some inst) \<Rightarrow>
               if inst \<noteq> expected then (Some 0, r)
               else if seconds \<le> 0 then (None, r)
               else (Some 1, SETEX R now key info seconds r)))"

section \<open>The counter goes round\<close>

text \<open>The key of the counter holds a number that does not expire, or nothing yet.\<close>

definition counter_is :: "'r redis \<Rightarrow> int \<Rightarrow> string \<Rightarrow> int \<Rightarrow> 'r \<Rightarrow> bool" where
  "counter_is R now key c r \<longleftrightarrow>
     (\<forall>t \<ge> now. GET R t key r = Some (show_int c)) \<or> c = 0 \<and> (\<forall>t \<ge> now. GET R t key r = None)"

context redis_server
begin

lemma incr_counter:
  assumes "counter_is R now key c r"
  shows "fst (INCR R now key r) = Some (c + 1)"
    and "\<forall>t \<ge> now. GET R t key (snd (INCR R now key r)) = Some (show_int (c + 1))"
proof -
  have c: "GET R now key r = None \<and> c = 0 \<or> GET R now key r = Some (show_int c)"
    and live: "\<And>t. now \<le> t \<Longrightarrow> GET R now key r = None \<or> GET R t key r \<noteq> None"
    using assms unfolding counter_is_def by force+
  from c show i: "fst (INCR R now key r) = Some (c + 1)"
    using incr_new incr_number by fastforce
  show "\<forall>t \<ge> now. GET R t key (snd (INCR R now key r)) = Some (show_int (c + 1))"
    using incr_get [OF i _ live] by simp
qed

lemma incr_script:
  assumes "counter_is R now key c r" and "0 \<le> c" and "0 < totalIDs"
    and "LuaScriptIncrWithReset R now key totalIDs r = (res, r')"
  shows "res = Some (c mod totalIDs + 1) \<and> counter_is R now key (c mod totalIDs + 1) r'"
proof -
  obtain m r1 where i: "INCR R now key r = (m, r1)" by (rule prod.exhaust)
  have m: "m = Some (c + 1)" and r1: "\<forall>t \<ge> now. GET R t key r1 = Some (show_int (c + 1))"
    using incr_counter [OF assms(1)] i by simp_all
  have pos: "c mod totalIDs + 1 \<noteq> 0" using pos_mod_sign [OF assms(3), of c] by linarith
  show ?thesis
  proof (cases "c + 1 > totalIDs")
    case True
    then have "res = Some (c mod totalIDs + 1)" "r' = SET R now key (show_int (c mod totalIDs + 1)) r1"
      using assms(4) i m by (simp_all add: LuaScriptIncrWithReset_def Let_def)
    with pos show ?thesis by (simp add: counter_is_def set_get)
  next
    case False
    then have "c mod totalIDs = c" using assms(2) by simp
    with False pos r1 show ?thesis
      using assms(4) i m by (simp add: LuaScriptIncrWithReset_def counter_is_def)
  qed
qed

lemma counter_is_later: "counter_is R now key c r \<Longrightarrow> now \<le> t \<Longrightarrow> counter_is R t key c r"
  unfolding counter_is_def by (meson order_trans)

end

text \<open>Calls of the script at the given times, by whatever instances.\<close>

fun incr_calls :: "'r redis \<Rightarrow> string \<Rightarrow> int \<Rightarrow> int list \<Rightarrow> 'r \<Rightarrow> int option list \<times> 'r" where
  "incr_calls R key totalIDs [] r = ([], r)"
| "incr_calls R key totalIDs (t # ts) r =
     (let (x, r) = LuaScriptIncrWithReset R t key totalIDs r;
          (xs, r) = incr_calls R key totalIDs ts r
      in (x # xs, r))"

lemma incr_calls_results:
  assumes R: "redis_server R" and "counter_is R now key c r" and "0 \<le> c" and "0 < totalIDs"
    and "sorted (now # ts)"
  shows "fst (incr_calls R key totalIDs ts r) = map (\<lambda>k. Some ((c + int k) mod totalIDs + 1)) [0..<length ts]"
  using assms(2-5)
proof (induction ts arbitrary: c r now)
  case Nil
  then show ?case by simp
next
  case (Cons t ts)
  have at: "counter_is R t key c r"
    using redis_server.counter_is_later [OF R Cons.prems(1)] Cons.prems(4) by simp
  obtain x r' where s: "LuaScriptIncrWithReset R t key totalIDs r = (x, r')" by (rule prod.exhaust)
  note sc = redis_server.incr_script [OF R at Cons.prems(2,3) s]
  have c': "0 \<le> c mod totalIDs + 1" using pos_mod_sign [OF Cons.prems(3), of c] by linarith
  have up: "[0..<Suc (length ts)] = 0 # map Suc [0..<length ts]"
    by (simp add: upt_conv_Cons map_Suc_upt del: upt_Suc)
  have m: "(c mod totalIDs + 1 + int k) mod totalIDs = (c + int (Suc k)) mod totalIDs" for k
    by (metis add.assoc add.commute int_ops(4) mod_add_left_eq)
  have "sorted (t # ts)" using Cons.prems(4) by simp
  from Cons.IH [OF conjunct2 [OF sc] c' Cons.prems(3) this] s sc show ?case
    by (simp add: up m case_prod_unfold Let_def del: upt_Suc)
qed

lemma counter_cycle_aux:
  assumes "redis_server R" and "counter_is R now key c r" and "0 \<le> c" and "0 < totalIDs"
    and "sorted (now # ts)" and "int (length ts) = totalIDs"
  shows "\<exists>xs. fst (incr_calls R key totalIDs ts r) = map Some xs \<and> distinct xs \<and> set xs = {1..totalIDs}"
proof (intro exI conjI)
  let ?xs = "map (\<lambda>k. (c + int k) mod totalIDs + 1) [0..<length ts]"
  show "fst (incr_calls R key totalIDs ts r) = map Some ?xs"
    by (simp add: incr_calls_results [OF assms(1-5)])
  have inj: "inj_on (\<lambda>k. (c + int k) mod totalIDs + 1) {0..<length ts}"
  proof (rule inj_onI)
    fix i j assume ij: "i \<in> {0..<length ts}" "j \<in> {0..<length ts}"
      and "(c + int i) mod totalIDs + 1 = (c + int j) mod totalIDs + 1"
    then have "totalIDs dvd int i - int j" using mod_eq_dvd_iff [of "c + int i" totalIDs "c + int j"] by simp
    moreover have "\<bar>int i - int j\<bar> < totalIDs" using ij assms(6) by auto
    ultimately show "i = j" using zdvd_imp_le [of totalIDs "\<bar>int i - int j\<bar>"] by auto
  qed
  then show d: "distinct ?xs" by (simp add: distinct_map)
  have "set ?xs \<subseteq> {1..totalIDs}"
    using assms(4) pos_mod_bound [OF assms(4)] pos_mod_sign [OF assms(4)]
    by (auto intro: add_increasing) (smt (verit) pos_mod_bound)+
  moreover have "card (set ?xs) = card {1..totalIDs}"
    using distinct_card [OF d] assms(6) by simp
  ultimately show "set ?xs = {1..totalIDs}" by (intro card_subset_eq) auto
qed

end
