(* ===== verification/Worker_Manager.thy ===== *)
theory Worker_Manager
  imports Lua_Scripts Prom_Metrics Gen_Config
begin

text \<open>
  The worker ID manager (\<open>worker_manager.go\<close>, \<open>WorkerIDManager\<close> of \<open>types.go\<close>): registration
  of a worker ID in Redis, its lease, heartbeats, recovery and deregistration. An operation is
  a function of the manager, of Redis, and of an environment that says, call by call, what
  other instances do to Redis before the call, when the server runs it and whether its reply
  arrives. The callback \<open>onWorkerIDChange\<close> works on a state of its own, the generator.
\<close>

section \<open>State\<close>

text \<open>Heartbeat contexts are numbered; \<open>w_contexts\<close> counts the ones created, \<open>w_cancelled\<close>
  lists the cancelled ones and \<open>w_loops\<close> those with which a heartbeat loop was started.\<close>

record WorkerIDManager =
  w_redisClient :: bool
  w_datacenterID :: int
  w_keyPrefix :: string
  w_ttl :: int
  w_heartbeatInterval :: int
  w_workerID :: int
  w_registered :: bool
  w_heartbeatCtx :: "nat option"
  w_heartbeatCancel :: "nat option"
  w_heartbeatRunning :: bool
  w_registerTime :: time
  w_instanceID :: string
  w_localIP :: string
  w_serviceName :: string
  w_serviceVersion :: string
  w_healthy :: int
  w_shuttingDown :: int
  w_recovering :: int
  w_leaseDeadline :: int
  w_maxWorkerID :: int
  w_contexts :: nat
  w_cancelled :: "nat list"
  w_loops :: "nat list"
  w_promCalls :: "prom_call list"

datatype worker_error =
  MaxWorkerNegative int
| RedisClientNil
| ManagerShuttingDown
| ContextDone
| IncrScriptFailed
| UnexpectedLuaType
| SetNXFailed int
| AllOccupied int
| WorkerNegative int
| AlreadyRegistered int
| WorkerIDConflictError int int \<comment> \<open>worker, datacenter\<close>
| NothingToReRegister
| HeartbeatScriptFailed
| TakenByAnother int
| KeyExpired int
| InvalidInfo int
| UnknownStatus int
| MaxWorkerUnknown
| ReacquireFailed int nat
| NotRegistered
| RegistryFailed

record WorkerInfo =
  wi_WorkerID :: int
  wi_DatacenterID :: int
  wi_IP :: string
  wi_ServiceName :: string
  wi_ServiceVersion :: string
  wi_RegisterTime :: int
  wi_LastHeartbeat :: int
  wi_InstanceID :: string

text \<open>The JSON of a worker's information: \<open>WorkerInfo.String\<close> and \<open>ParseWorkerInfo\<close> hand it to
  \<open>encoding/json\<close>, the script to \<open>cjson\<close>. Both are arguments here; what is relied on is that an
  instance ID of ASCII characters survives. \<open>Worker_Json\<close> gives Go's side of it.\<close>

record codec =
  marshal :: "WorkerInfo \<Rightarrow> string"
  ParseWorkerInfo :: "string \<Rightarrow> WorkerInfo option"
  cjson_decode :: "string \<Rightarrow> lua_json"

definition ascii :: "string \<Rightarrow> bool" where
  "ascii s \<longleftrightarrow> list_all (\<lambda>c. (of_char c :: nat) < 128) s"

definition codec_ok :: "codec \<Rightarrow> bool" where
  "codec_ok J \<longleftrightarrow> (\<forall>wi. ascii (wi_InstanceID wi) \<longrightarrow>
     cjson_decode J (marshal J wi) = LuaTable (Some (wi_InstanceID wi)) \<and>
     map_option wi_InstanceID (ParseWorkerInfo J (marshal J wi)) = Some (wi_InstanceID wi))"

section \<open>Keys\<close>

definition NormalizeKeyPrefix :: "string \<Rightarrow> string" where
  "NormalizeKeyPrefix prefix =
     (if prefix = '''' then DefaultRedisKeyPrefix
      else if last prefix \<noteq> CHR '':'' \<and> last prefix \<noteq> CHR ''_'' then prefix @ '':''
      else prefix)"

definition workerKey :: "string \<Rightarrow> int \<Rightarrow> int \<Rightarrow> string" where
  "workerKey prefix dc w = prefix @ ''dc:'' @ show_int dc @ '':worker:'' @ show_int w"

definition getWorkerKey :: "WorkerIDManager \<Rightarrow> int \<Rightarrow> string" where
  "getWorkerKey m workerID = workerKey (w_keyPrefix m) (w_datacenterID m) workerID"

definition getWorkerKeyForDatacenter :: "WorkerIDManager \<Rightarrow> int \<Rightarrow> int \<Rightarrow> string" where
  "getWorkerKeyForDatacenter m datacenterID workerID = workerKey (w_keyPrefix m) datacenterID workerID"

definition getCounterKey :: "WorkerIDManager \<Rightarrow> string" where
  "getCounterKey m = w_keyPrefix m @ ''dc:'' @ show_int (w_datacenterID m) @ '':counter''"

definition getRegistryKey :: "WorkerIDManager \<Rightarrow> string" where
  "getRegistryKey m = w_keyPrefix m @ ''registry''"

definition registryMember :: "int \<Rightarrow> int \<Rightarrow> string" where
  "registryMember dc w = show_int dc @ '':'' @ show_int w"

section \<open>Construction\<close>

record WorkerManagerConfig =
  wc_KeyPrefix :: string
  wc_TTL :: int
  wc_HeartbeatInterval :: int
  wc_ServiceName :: string
  wc_ServiceVersion :: string

definition DefaultWorkerManagerConfig :: WorkerManagerConfig where
  "DefaultWorkerManagerConfig = \<lparr>wc_KeyPrefix = DefaultRedisKeyPrefix, wc_TTL = DefaultWorkerIDTTL,
     wc_HeartbeatInterval = DefaultHeartbeatInterval, wc_ServiceName = '''', wc_ServiceVersion = ''''\<rparr>"

definition NewWorkerIDManager :: "bool \<Rightarrow> int \<Rightarrow> WorkerManagerConfig option \<Rightarrow> string \<Rightarrow> WorkerIDManager" where
  "NewWorkerIDManager redisClient datacenterID config localIP =
     (let config = (case config of None \<Rightarrow> DefaultWorkerManagerConfig | Some c \<Rightarrow> c);
          ttl = (if wc_TTL config \<le> 0 then DefaultWorkerIDTTL else wc_TTL config);
          heartbeatInterval = (if wc_HeartbeatInterval config \<le> 0 then DefaultHeartbeatInterval
                               else wc_HeartbeatInterval config)
      in \<lparr>w_redisClient = redisClient, w_datacenterID = datacenterID,
          w_keyPrefix = NormalizeKeyPrefix (wc_KeyPrefix config), w_ttl = ttl,
          w_heartbeatInterval = heartbeatInterval, w_workerID = -1, w_registered = False,
          w_heartbeatCtx = None, w_heartbeatCancel = None, w_heartbeatRunning = False,
          w_registerTime = zero_time, w_instanceID = '''', w_localIP = localIP,
          w_serviceName = wc_ServiceName config, w_serviceVersion = wc_ServiceVersion config,
          w_healthy = 1, w_shuttingDown = 0, w_recovering = 0, w_leaseDeadline = 0,
          w_maxWorkerID = 0, w_contexts = 0, w_cancelled = [], w_loops = [], w_promCalls = []\<rparr>)"

text \<open>\<open>getLocalIP\<close> on what \<open>net.InterfaceAddrs\<close> returns (\<open>None\<close>: an error): the addresses in
  order, each an IP network or not, with its loopback flag, whether it is IPv4, and its text.\<close>

datatype iface_addr = IPNetAddr bool bool string | OtherAddr

fun firstIPv4 :: "iface_addr list \<Rightarrow> string" where
  "firstIPv4 [] = ''unknown''"
| "firstIPv4 (OtherAddr # addrs) = firstIPv4 addrs"
| "firstIPv4 (IPNetAddr loopback v4 s # addrs) = (if \<not> loopback \<and> v4 then s else firstIPv4 addrs)"

definition getLocalIP :: "iface_addr list option \<Rightarrow> string" where
  "getLocalIP addrs = (case addrs of None \<Rightarrow> ''unknown'' | Some as \<Rightarrow> firstIPv4 as)"

definition GetWorkerID :: "WorkerIDManager \<Rightarrow> int" where
  "GetWorkerID m = w_workerID m"

definition GetRegisterTime :: "WorkerInfo \<Rightarrow> time" where
  "GetRegisterTime wi = time_Unix (wi_RegisterTime wi) 0"

definition GetLastHeartbeat :: "WorkerInfo \<Rightarrow> time" where
  "GetLastHeartbeat wi = time_Unix (wi_LastHeartbeat wi) 0"

section \<open>Calls\<close>

datatype net = Reached | Unreached | ReplyLost

record 'r call =
  c_before :: "'r \<Rightarrow> 'r"
  c_at :: int
  c_net :: net

definition issue :: "'r call \<Rightarrow> (int \<Rightarrow> 'r \<Rightarrow> 'a \<times> 'r) \<Rightarrow> 'r \<Rightarrow> 'a option \<times> 'r" where
  "issue c cmd r =
     (let r = c_before c r
      in case c_net c of
           Unreached \<Rightarrow> (None, r)
         | Reached \<Rightarrow> (case cmd (c_at c) r of (a, r) \<Rightarrow> (Some a, r))
         | ReplyLost \<Rightarrow> (None, snd (cmd (c_at c) r)))"

text \<open>\<open>redisResultToInt64\<close>, by the dynamic type of the reply.\<close>

datatype reply = AnyInt64 int | AnyFloat64 float64 | AnyInt int | AnyOther

definition redisResultToInt64 :: "reply \<Rightarrow> int option" where
  "redisResultToInt64 v = (case v of AnyInt64 n \<Rightarrow> Some n | AnyFloat64 x \<Rightarrow> Some (int_of_float x)
     | AnyInt n \<Rightarrow> Some n | AnyOther \<Rightarrow> None)"

section \<open>Health and heartbeat contexts\<close>

definition setLeaseDeadline :: "time \<Rightarrow> WorkerIDManager \<Rightarrow> WorkerIDManager" where
  "setLeaseDeadline now m = m\<lparr>w_leaseDeadline := UnixNano (time_Add now (w_ttl m))\<rparr>"

definition worker_IsHealthy :: "time \<Rightarrow> WorkerIDManager \<Rightarrow> bool \<times> WorkerIDManager" where
  "worker_IsHealthy now m =
     (if w_healthy m \<noteq> 1 then (False, m)
      else
      let deadline = w_leaseDeadline m
      in if deadline \<noteq> 0 \<and> UnixNano now > deadline then (False, m\<lparr>w_healthy := 0\<rparr>)
         else (True, m))"

definition startHeartbeatLocked :: "WorkerIDManager \<Rightarrow> WorkerIDManager" where
  "startHeartbeatLocked m =
     (if w_heartbeatRunning m then m
      else
      let m = (case w_heartbeatCancel m of None \<Rightarrow> m | Some c \<Rightarrow> m\<lparr>w_cancelled := w_cancelled m @ [c]\<rparr>);
          ctx = w_contexts m;
          m = m\<lparr>w_contexts := ctx + 1\<rparr>;
          m = m\<lparr>w_heartbeatCtx := Some ctx, w_heartbeatCancel := Some ctx, w_heartbeatRunning := True\<rparr>
      in m\<lparr>w_loops := w_loops m @ [ctx]\<rparr>)"

definition stopHeartbeat :: "WorkerIDManager \<Rightarrow> WorkerIDManager" where
  "stopHeartbeat m = (case w_heartbeatCancel m of None \<Rightarrow> m
     | Some c \<Rightarrow> m\<lparr>w_cancelled := w_cancelled m @ [c], w_heartbeatCancel := None,
                   w_heartbeatCtx := None, w_heartbeatRunning := False\<rparr>)"

text \<open>The deferred clean-up of a heartbeat loop that ends.\<close>

definition heartbeatLoopExit :: "nat \<Rightarrow> WorkerIDManager \<Rightarrow> WorkerIDManager" where
  "heartbeatLoopExit ctx m =
     (if w_heartbeatCtx m = Some ctx
      then m\<lparr>w_heartbeatCtx := None, w_heartbeatCancel := None, w_heartbeatRunning := False\<rparr>
      else m)"

definition wprom :: "prom_call \<Rightarrow> WorkerIDManager \<Rightarrow> WorkerIDManager" where
  "wprom c m = m\<lparr>w_promCalls := w_promCalls m @ [c]\<rparr>"

section \<open>Instance identity\<close>

text \<open>The inputs of \<open>generateInstanceID\<close>: two readings of the clock, the process ID, and what
  \<open>crypto/rand\<close> returns.\<close>

record ident =
  id_nano :: time
  id_pid :: int
  id_micro :: time
  id_rand :: "int option"
  id_fallback :: time

definition secureInt63n :: "int \<Rightarrow> int option \<Rightarrow> time \<Rightarrow> int" where
  "secureInt63n maxN rand now =
     (if maxN \<le> 0 then 0 else case rand of Some n \<Rightarrow> n | None \<Rightarrow> UnixNano now smod maxN)"

definition UnixMicro :: "time \<Rightarrow> int" where
  "UnixMicro t = i64 (wall t div Microsecond)"

definition generateInstanceID :: "WorkerIDManager \<Rightarrow> ident \<Rightarrow> string" where
  "generateInstanceID m i =
     (let r = secureInt63n 100000 (id_rand i) (id_fallback i)
      in ''instance-'' @ show_int (UnixNano (id_nano i)) @ ''-'' @ show_int (w_datacenterID m) @ ''-'' @
         show_int (id_pid i) @ ''-'' @ show_int (UnixMicro (id_micro i) smod 10000) @ ''-'' @ show_int r)"

definition newInfo :: "WorkerIDManager \<Rightarrow> int \<Rightarrow> time \<Rightarrow> WorkerInfo" where
  "newInfo m workerID now = \<lparr>wi_WorkerID = workerID, wi_DatacenterID = w_datacenterID m,
     wi_IP = w_localIP m, wi_ServiceName = w_serviceName m, wi_ServiceVersion = w_serviceVersion m,
     wi_RegisterTime = time_Unix_seconds now, wi_LastHeartbeat = time_Unix_seconds now,
     wi_InstanceID = w_instanceID m\<rparr>"

section \<open>Registration\<close>

text \<open>The environment of one attempt: whether the context is done at its start, the script
  call, the clock, the identity, the \<open>SETNX\<close> and the \<open>SADD\<close>, and whether the context is done
  during the back-off.\<close>

record 'r attempt_env =
  a_done :: bool
  a_incr :: "'r call"
  a_now :: time
  a_ident :: ident
  a_setnx :: "'r call"
  a_sadd :: "'r call"
  a_backoffDone :: bool

text \<open>After a successful \<open>SETNX\<close>.\<close>

definition registered_as :: "'r redis \<Rightarrow> (int \<Rightarrow> 'g \<Rightarrow> 'g) option \<Rightarrow> 'r attempt_env \<Rightarrow> int \<Rightarrow>
    WorkerIDManager \<Rightarrow> 'g \<Rightarrow> 'r \<Rightarrow> WorkerIDManager \<times> 'g \<times> 'r" where
  "registered_as R onWorkerIDChange env workerID m g r =
     (let m = m\<lparr>w_workerID := workerID, w_registered := True, w_registerTime := a_now env\<rparr>;
          m = setLeaseDeadline (a_now env) m;
          r = snd (issue (a_sadd env)
                (\<lambda>now r. ((), SADD R now (getRegistryKey m) (registryMember (w_datacenterID m) workerID) r)) r);
          g = (case onWorkerIDChange of None \<Rightarrow> g | Some f \<Rightarrow> f workerID g);
          m = wprom (PromWorkerIDGauge (float_of_int workerID)) m;
          m = startHeartbeatLocked m;
          m = m\<lparr>w_healthy := 1\<rparr>
      in (m, g, r))"

fun registerLoop :: "'r redis \<Rightarrow> codec \<Rightarrow> (int \<Rightarrow> 'g \<Rightarrow> 'g) option \<Rightarrow> (nat \<Rightarrow> 'r attempt_env) \<Rightarrow> int \<Rightarrow>
    nat \<Rightarrow> nat \<Rightarrow> WorkerIDManager \<Rightarrow> 'g \<Rightarrow> 'r \<Rightarrow>
    (worker_error, int) result \<times> WorkerIDManager \<times> 'g \<times> 'r" where
  "registerLoop R J cb env totalWorkerIDs 0 retryCount m g r =
     (Inl (AllOccupied totalWorkerIDs), wprom PromWorkerIDFailures (m\<lparr>w_healthy := 0\<rparr>), g, r)"
| "registerLoop R J cb env totalWorkerIDs (Suc retriesLeft) retryCount m g r =
     (let e = env retryCount
      in if a_done e then (Inl ContextDone, m, g, r)
      else case issue (a_incr e) (\<lambda>now. LuaScriptIncrWithReset R now (getCounterKey m) totalWorkerIDs) r of
        (None, r) \<Rightarrow> (Inl IncrScriptFailed, m, g, r)
      | (Some None, r) \<Rightarrow> (Inl IncrScriptFailed, m, g, r)
      | (Some (Some n), r) \<Rightarrow>
        (case redisResultToInt64 (AnyInt64 n) of
           None \<Rightarrow> (Inl UnexpectedLuaType, m, g, r)
         | Some seq \<Rightarrow>
           (let workerID = i64 (seq - 1);
                m = m\<lparr>w_instanceID := generateInstanceID m (a_ident e)\<rparr>;
                info = marshal J (newInfo m workerID (a_now e))
            in case issue (a_setnx e) (\<lambda>now. SETNX R now (getWorkerKey m workerID) info (w_ttl m)) r of
                 (None, r) \<Rightarrow> (Inl (SetNXFailed workerID), m, g, r)
               | (Some success, r) \<Rightarrow>
                   if success then
                     (let (m, g, r) = registered_as R cb e workerID m g r in (Inr workerID, m, g, r))
                   else if a_backoffDone e then (Inl ContextDone, m, g, r)
                   else registerLoop R J cb env totalWorkerIDs retriesLeft (Suc retryCount) m g r)))"

definition RegisterWorkerID :: "'r redis \<Rightarrow> codec \<Rightarrow> (int \<Rightarrow> 'g \<Rightarrow> 'g) option \<Rightarrow> (nat \<Rightarrow> 'r attempt_env) \<Rightarrow>
    int \<Rightarrow> WorkerIDManager \<Rightarrow> 'g \<Rightarrow> 'r \<Rightarrow> (worker_error, int) result \<times> WorkerIDManager \<times> 'g \<times> 'r" where
  "RegisterWorkerID R J cb env maxWorkerID m g r =
     (if maxWorkerID < 0 then (Inl (MaxWorkerNegative maxWorkerID), m\<lparr>w_healthy := 0\<rparr>, g, r)
      else if \<not> w_redisClient m then (Inl RedisClientNil, m\<lparr>w_healthy := 0\<rparr>, g, r)
      else if w_shuttingDown m = 1 then (Inl ManagerShuttingDown, m\<lparr>w_healthy := 0\<rparr>, g, r)
      else if w_registered m then (Inr (w_workerID m), m, g, r)
      else
      let m = m\<lparr>w_maxWorkerID := maxWorkerID\<rparr>;
          totalWorkerIDs = i64 (maxWorkerID + 1);
          maxRetries = totalWorkerIDs
      in registerLoop R J cb env totalWorkerIDs (nat maxRetries) 0 m g r)"

record 'r specific_env =
  s_now :: time
  s_ident :: ident
  s_setnx :: "'r call"
  s_sadd :: "'r call"

definition RegisterSpecificWorkerID :: "'r redis \<Rightarrow> codec \<Rightarrow> 'r specific_env \<Rightarrow> int \<Rightarrow> WorkerIDManager \<Rightarrow> 'r \<Rightarrow>
    worker_error option \<times> WorkerIDManager \<times> 'r" where
  "RegisterSpecificWorkerID R J e workerID m r =
     (if workerID < 0 then (Some (WorkerNegative workerID), m\<lparr>w_healthy := 0\<rparr>, r)
      else if \<not> w_redisClient m then (Some RedisClientNil, m\<lparr>w_healthy := 0\<rparr>, r)
      else if w_registered m then
        (if w_workerID m = workerID then (None, m, r) else (Some (AlreadyRegistered (w_workerID m)), m, r))
      else
      let m = m\<lparr>w_instanceID := generateInstanceID m (s_ident e)\<rparr>;
          info = marshal J (newInfo m workerID (s_now e))
      in case issue (s_setnx e) (\<lambda>now. SETNX R now (getWorkerKey m workerID) info (w_ttl m)) r of
           (None, r) \<Rightarrow> (Some (SetNXFailed workerID), m, r)
         | (Some False, r) \<Rightarrow>
             (Some (WorkerIDConflictError workerID (w_datacenterID m)), m\<lparr>w_healthy := 0\<rparr>, r)
         | (Some True, r) \<Rightarrow>
             (let m = m\<lparr>w_workerID := workerID, w_registered := True, w_registerTime := s_now e\<rparr>;
                  m = setLeaseDeadline (s_now e) m;
                  r = snd (issue (s_sadd e)
                        (\<lambda>now r. ((), SADD R now (getRegistryKey m) (registryMember (w_datacenterID m) workerID) r)) r);
                  m = m\<lparr>w_healthy := 1\<rparr>;
                  m = wprom (PromWorkerIDGauge (float_of_int workerID)) m;
                  m = startHeartbeatLocked m
              in (None, m, r)))"

section \<open>Heartbeat\<close>

record 'r beat_env =
  b_infoNow :: time
  b_call :: "'r call"
  b_after :: time

definition beatInfo :: "WorkerIDManager \<Rightarrow> time \<Rightarrow> WorkerInfo" where
  "beatInfo m now = \<lparr>wi_WorkerID = w_workerID m, wi_DatacenterID = w_datacenterID m,
     wi_IP = w_localIP m, wi_ServiceName = w_serviceName m, wi_ServiceVersion = w_serviceVersion m,
     wi_RegisterTime = time_Unix_seconds (w_registerTime m), wi_LastHeartbeat = time_Unix_seconds now,
     wi_InstanceID = w_instanceID m\<rparr>"

text \<open>\<open>int64(w.ttl.Seconds())\<close>\<close>

definition ttlSeconds :: "WorkerIDManager \<Rightarrow> int" where
  "ttlSeconds m = int_of_float (duration_Seconds (w_ttl m))"

text \<open>The script call that \<open>sendHeartbeat\<close> and \<open>tryReRegister\<close> share, and its decoded code.\<close>

definition beat :: "'r redis \<Rightarrow> codec \<Rightarrow> 'r beat_env \<Rightarrow> WorkerIDManager \<Rightarrow> 'r \<Rightarrow>
    (worker_error, int) result \<times> 'r" where
  "beat R J e m r =
     (case issue (b_call e) (\<lambda>now. LuaScriptHeartbeat R (cjson_decode J) now (getWorkerKey m (w_workerID m))
              (marshal J (beatInfo m (b_infoNow e))) (w_instanceID m) (ttlSeconds m)) r of
        (None, r) \<Rightarrow> (Inl HeartbeatScriptFailed, r)
      | (Some None, r) \<Rightarrow> (Inl HeartbeatScriptFailed, r)
      | (Some (Some n), r) \<Rightarrow>
          (case redisResultToInt64 (AnyInt64 n) of
             None \<Rightarrow> (Inl UnexpectedLuaType, r)
           | Some code \<Rightarrow> (Inr code, r)))"

definition sendHeartbeat :: "'r redis \<Rightarrow> codec \<Rightarrow> 'r beat_env \<Rightarrow> WorkerIDManager \<Rightarrow> 'r \<Rightarrow>
    worker_error option \<times> WorkerIDManager \<times> 'r" where
  "sendHeartbeat R J e m r =
     (if \<not> w_redisClient m then (Some RedisClientNil, m, r)
      else if w_workerID m = -1 then (Some NotRegistered, m, r)
      else case beat R J e m r of
        (Inl err, r) \<Rightarrow> (Some err, m, r)
      | (Inr code, r) \<Rightarrow>
          if code = 1 then (None, setLeaseDeadline (b_after e) m, r)
          else if code = 0 then (Some (TakenByAnother (w_workerID m)), m, r)
          else if code = -1 then (Some (KeyExpired (w_workerID m)), m, r)
          else if code = -2 then (Some (InvalidInfo (w_workerID m)), m, r)
          else (Some (UnknownStatus code), m, r))"

section \<open>Recovery\<close>

text \<open>The back-off before attempt \<open>i > 0\<close>: 200 ms doubled, at most 5 s.\<close>

definition freshBackoff :: "nat \<Rightarrow> int" where
  "freshBackoff i =
     (let backoff = i64 (i64 (200 * shl64 1 (int (i - 1))) * Millisecond)
      in if backoff > 5 * Second then 5 * Second else backoff)"

text \<open>\<open>shut i\<close>: a shutdown was signalled before attempt \<open>i\<close>. The sleeps are returned.\<close>

fun attemptRegisterFresh :: "'r redis \<Rightarrow> codec \<Rightarrow> (int \<Rightarrow> 'g \<Rightarrow> 'g) option \<Rightarrow> (nat \<Rightarrow> bool) \<Rightarrow>
    (nat \<Rightarrow> nat \<Rightarrow> 'r attempt_env) \<Rightarrow> int \<Rightarrow> nat \<Rightarrow> nat \<Rightarrow> worker_error option \<Rightarrow>
    WorkerIDManager \<Rightarrow> 'g \<Rightarrow> 'r \<Rightarrow>
    (worker_error option, int) result \<times> int list \<times> WorkerIDManager \<times> 'g \<times> 'r" where
  "attemptRegisterFresh R J cb shut env maxWorkerID 0 i lastErr m g r = (Inl lastErr, [], m, g, r)"
| "attemptRegisterFresh R J cb shut env maxWorkerID (Suc left) i lastErr m g r =
     (let m = (if shut i then m\<lparr>w_shuttingDown := 1\<rparr> else m)
      in if w_shuttingDown m = 1 then (Inl (Some ManagerShuttingDown), [], m, g, r)
      else
      let sleeps = (if i > 0 then [freshBackoff i] else [])
      in case RegisterWorkerID R J cb (env i) maxWorkerID m g r of
           (Inr newWorkerID, m, g, r) \<Rightarrow> (Inr newWorkerID, sleeps, m, g, r)
         | (Inl err, m, g, r) \<Rightarrow>
             (case attemptRegisterFresh R J cb shut env maxWorkerID left (Suc i) (Some err) m g r of
                (res, later, m, g, r) \<Rightarrow> (res, sleeps @ later, m, g, r)))"

definition reacquireFreshWorkerID :: "'r redis \<Rightarrow> codec \<Rightarrow> (int \<Rightarrow> 'g \<Rightarrow> 'g) option \<Rightarrow> (nat \<Rightarrow> bool) \<Rightarrow>
    (nat \<Rightarrow> nat \<Rightarrow> 'r attempt_env) \<Rightarrow> int \<Rightarrow> WorkerIDManager \<Rightarrow> 'g \<Rightarrow> 'r \<Rightarrow>
    worker_error option \<times> WorkerIDManager \<times> 'g \<times> 'r" where
  "reacquireFreshWorkerID R J cb shut env previousWorkerID m g r =
     (let m = m\<lparr>w_healthy := 0\<rparr>;
          m = m\<lparr>w_leaseDeadline := 0\<rparr>;
          m = m\<lparr>w_workerID := -1, w_registered := False\<rparr>;
          m = stopHeartbeat m;
          maxWorkerID = w_maxWorkerID m
      in if maxWorkerID < 0 then (Some MaxWorkerUnknown, m, g, r)
      else case attemptRegisterFresh R J cb shut env maxWorkerID 3 0 None m g r of
        (Inr newWorkerID, sleeps, m, g, r) \<Rightarrow> (None, m, g, r)
      | (Inl err, sleeps, m, g, r) \<Rightarrow>
          (Some (ReacquireFailed previousWorkerID 3),
           (if w_recovering m = 0 then m\<lparr>w_recovering := 1\<rparr> else m), g, r))"

record 'r rereg_env =
  r_beat :: "'r beat_env"
  r_shut :: "nat \<Rightarrow> bool"
  r_attempts :: "nat \<Rightarrow> nat \<Rightarrow> 'r attempt_env"

definition tryReRegister :: "'r redis \<Rightarrow> codec \<Rightarrow> (int \<Rightarrow> 'g \<Rightarrow> 'g) option \<Rightarrow> 'r rereg_env \<Rightarrow>
    WorkerIDManager \<Rightarrow> 'g \<Rightarrow> 'r \<Rightarrow> worker_error option \<times> WorkerIDManager \<times> 'g \<times> 'r" where
  "tryReRegister R J cb e m g r =
     (if \<not> w_redisClient m then (Some RedisClientNil, m, g, r)
      else if \<not> w_registered m \<or> w_workerID m < 0 then (Some NothingToReRegister, m, g, r)
      else case beat R J (r_beat e) m r of
        (Inl err, r) \<Rightarrow> (Some err, m, g, r)
      | (Inr code, r) \<Rightarrow>
          if code = 1 then (None, setLeaseDeadline (b_after (r_beat e)) m, g, r)
          else if code = 0 \<or> code = -1 then
            reacquireFreshWorkerID R J cb (r_shut e) (r_attempts e) (w_workerID m) m g r
          else if code = -2 then (Some (InvalidInfo (w_workerID m)), m, g, r)
          else (Some (UnknownStatus code), m, g, r))"

text \<open>One tick of \<open>heartbeatLoop\<close>, with the loop's counter of consecutive failures.\<close>

definition heartbeatTick :: "'r redis \<Rightarrow> codec \<Rightarrow> (int \<Rightarrow> 'g \<Rightarrow> 'g) option \<Rightarrow> 'r beat_env \<Rightarrow> 'r rereg_env \<Rightarrow>
    int \<Rightarrow> WorkerIDManager \<Rightarrow> 'g \<Rightarrow> 'r \<Rightarrow> int \<times> WorkerIDManager \<times> 'g \<times> 'r" where
  "heartbeatTick R J cb e e' consecutiveFailures m g r =
     (case sendHeartbeat R J e m r of
        (Some err, m, r) \<Rightarrow>
          (let consecutiveFailures = i64 (consecutiveFailures + 1);
               m = wprom PromHeartbeatFailures m;
               m = (if consecutiveFailures \<ge> 1 then m\<lparr>w_healthy := 0\<rparr> else m)
           in if consecutiveFailures \<ge> 3 then
                (case tryReRegister R J cb e' m g r of
                   (Some reregErr, m, g, r) \<Rightarrow> (consecutiveFailures, m, g, r)
                 | (None, m, g, r) \<Rightarrow> (0, m\<lparr>w_healthy := 1\<rparr>, g, r))
              else (consecutiveFailures, m, g, r))
      | (None, m, r) \<Rightarrow>
          (let consecutiveFailures = (if consecutiveFailures > 0 then 0 else consecutiveFailures)
           in (consecutiveFailures, m\<lparr>w_healthy := 1\<rparr>, g, r)))"

text \<open>\<open>heartbeatLoop\<close> with the context \<open>ctx\<close>, as the events its \<open>select\<close> receives: a tick, the
  cancellation of the context, or a panic, which the deferred calls recover from after the
  clean-up. The loop is still running when the events end.\<close>

datatype 'r hb_event = HbTick "'r beat_env" "'r rereg_env" | HbDone | HbPanic

fun heartbeatLoop :: "'r redis \<Rightarrow> codec \<Rightarrow> (int \<Rightarrow> 'g \<Rightarrow> 'g) option \<Rightarrow> nat \<Rightarrow> 'r hb_event list \<Rightarrow>
    int \<Rightarrow> WorkerIDManager \<Rightarrow> 'g \<Rightarrow> 'r \<Rightarrow> int \<times> WorkerIDManager \<times> 'g \<times> 'r" where
  "heartbeatLoop R J cb ctx [] k m g r = (k, m, g, r)"
| "heartbeatLoop R J cb ctx (HbDone # evs) k m g r = (k, heartbeatLoopExit ctx m, g, r)"
| "heartbeatLoop R J cb ctx (HbPanic # evs) k m g r = (k, (heartbeatLoopExit ctx m)\<lparr>w_healthy := 0\<rparr>, g, r)"
| "heartbeatLoop R J cb ctx (HbTick e e' # evs) k m g r =
     (case heartbeatTick R J cb e e' k m g r of (k, m, g, r) \<Rightarrow> heartbeatLoop R J cb ctx evs k m g r)"

text \<open>\<open>backgroundRecover\<close>, one round at a time on fuel: it retries until it succeeds or the
  manager shuts down. The deferred store clears \<open>recovering\<close> when it returns.\<close>

definition nextBackoff :: "int \<Rightarrow> int" where
  "nextBackoff backoff =
     (if backoff < 10 * Second then
        (let backoff = i64 (backoff * 2) in if backoff > 10 * Second then 10 * Second else backoff)
      else backoff)"

fun backgroundRecover :: "'r redis \<Rightarrow> codec \<Rightarrow> (int \<Rightarrow> 'g \<Rightarrow> 'g) option \<Rightarrow> (nat \<Rightarrow> bool) \<Rightarrow>
    (nat \<Rightarrow> nat \<Rightarrow> 'r attempt_env) \<Rightarrow> int \<Rightarrow> nat \<Rightarrow> nat \<Rightarrow> int \<Rightarrow> WorkerIDManager \<Rightarrow> 'g \<Rightarrow> 'r \<Rightarrow>
    (int list \<times> WorkerIDManager \<times> 'g \<times> 'r) option" where
  "backgroundRecover R J cb shut env maxWorkerID 0 i backoff m g r = None"
| "backgroundRecover R J cb shut env maxWorkerID (Suc fuel) i backoff m g r =
     (let m = (if shut i then m\<lparr>w_shuttingDown := 1\<rparr> else m)
      in if w_shuttingDown m = 1 then Some ([], m\<lparr>w_recovering := 0\<rparr>, g, r)
      else if w_registered m then Some ([], m\<lparr>w_recovering := 0\<rparr>, g, r)
      else case RegisterWorkerID R J cb (env i) maxWorkerID m g r of
        (Inr newWorkerID, m, g, r) \<Rightarrow> Some ([], m\<lparr>w_recovering := 0\<rparr>, g, r)
      | (Inl err, m, g, r) \<Rightarrow>
          map_option (\<lambda>(sleeps, rest). (backoff # sleeps, rest))
            (backgroundRecover R J cb shut env maxWorkerID fuel (Suc i) (nextBackoff backoff) m g r))"

section \<open>Deregistration\<close>

record 'r unregister_env =
  u_get :: "'r call"
  u_del :: "'r call"
  u_srem :: "'r call"

definition UnregisterWorkerID :: "'r redis \<Rightarrow> codec \<Rightarrow> 'r unregister_env \<Rightarrow> WorkerIDManager \<Rightarrow> 'r \<Rightarrow>
    worker_error option \<times> WorkerIDManager \<times> 'r" where
  "UnregisterWorkerID R J e m r =
     (let m = m\<lparr>w_shuttingDown := 1\<rparr>
      in if \<not> w_registered m then (None, m, r)
      else if \<not> w_redisClient m then
        (let m = stopHeartbeat (m\<lparr>w_healthy := 0\<rparr>)
         in (Some RedisClientNil, m\<lparr>w_workerID := -1, w_registered := False\<rparr>, r))
      else
      let workerID = w_workerID m;
          instanceID = w_instanceID m;
          member = registryMember (w_datacenterID m) (w_workerID m);
          m = m\<lparr>w_healthy := 0\<rparr>;
          m = wprom (PromWorkerIDGauge (float_of_int (-1))) m;
          m = stopHeartbeat m;
          m = m\<lparr>w_workerID := -1, w_registered := False\<rparr>;
          key = getWorkerKey m workerID;
          srem = (\<lambda>r. snd (issue (u_srem e) (\<lambda>now r. ((), SREM R now (getRegistryKey m) member r)) r))
      in case issue (u_get e) (\<lambda>now r. (GET R now key r, r)) r of
           (None, r) \<Rightarrow> (None, m, r)
         | (Some None, r) \<Rightarrow> (None, m, srem r)
         | (Some (Some infoStr), r) \<Rightarrow>
             (case ParseWorkerInfo J infoStr of
                None \<Rightarrow> (None, m, r)
              | Some info \<Rightarrow>
                  if wi_InstanceID info \<noteq> instanceID then (None, m, r)
                  else
                  let r = snd (issue (u_del e) (\<lambda>now r. ((), DEL R now key r)) r)
                  in (None, m, srem r)))"

section \<open>The registry\<close>

text \<open>\<open>strings.Split(s, ":")\<close> and \<open>strconv.ParseInt(s, 10, 64)\<close>.\<close>

fun splitColon :: "string \<Rightarrow> string list" where
  "splitColon [] = [[]]"
| "splitColon (c # cs) = (if c = CHR '':'' then [] # splitColon cs
     else case splitColon cs of [] \<Rightarrow> [[c]] | p # ps \<Rightarrow> (c # p) # ps)"

definition all_digits :: "string \<Rightarrow> bool" where
  "all_digits s \<longleftrightarrow> s \<noteq> [] \<and> list_all (\<lambda>d. 48 \<le> (of_char d :: nat) \<and> (of_char d :: nat) < 58) s"

definition ParseInt :: "string \<Rightarrow> int option" where
  "ParseInt s =
     (let neg = (s \<noteq> [] \<and> hd s = CHR ''-'');
          digits = (if s \<noteq> [] \<and> (hd s = CHR ''-'' \<or> hd s = CHR ''+'') then tl s else s)
      in if \<not> all_digits digits then None
      else
      let n = (if neg then - int (read_nat digits) else int (read_nat digits))
      in if in_i64 n then Some n else None)"

record 'r member_env =
  me_get :: "'r call"
  me_srem :: "'r call"

fun collectWorkers :: "'r redis \<Rightarrow> codec \<Rightarrow> WorkerIDManager \<Rightarrow> (nat \<Rightarrow> 'r member_env) \<Rightarrow> nat \<Rightarrow>
    string list \<Rightarrow> 'r \<Rightarrow> WorkerInfo list \<times> 'r" where
  "collectWorkers R J m env i [] r = ([], r)"
| "collectWorkers R J m env i (member # members) r =
     (let rest = collectWorkers R J m env (Suc i) members
      in case splitColon member of
           [p0, p1] \<Rightarrow>
             (case (ParseInt p0, ParseInt p1) of
                (Some datacenterID, Some workerID) \<Rightarrow>
                  (case issue (me_get (env i))
                          (\<lambda>now r. (GET R now (getWorkerKeyForDatacenter m datacenterID workerID) r, r)) r of
                     (None, r) \<Rightarrow> rest r
                   | (Some None, r) \<Rightarrow>
                       rest (snd (issue (me_srem (env i))
                         (\<lambda>now r. ((), SREM R now (getRegistryKey m) member r)) r))
                   | (Some (Some infoStr), r) \<Rightarrow>
                       (case ParseWorkerInfo J infoStr of
                          None \<Rightarrow> rest r
                        | Some workerInfo \<Rightarrow> (case rest r of (ws, r) \<Rightarrow> (workerInfo # ws, r))))
              | _ \<Rightarrow> rest r)
         | _ \<Rightarrow> rest r)"

definition GetRegisteredWorkers :: "'r redis \<Rightarrow> codec \<Rightarrow> 'r call \<Rightarrow> (nat \<Rightarrow> 'r member_env) \<Rightarrow>
    WorkerIDManager \<Rightarrow> 'r \<Rightarrow> (worker_error, WorkerInfo list) result \<times> 'r" where
  "GetRegisteredWorkers R J c env m r =
     (if \<not> w_redisClient m then (Inl RedisClientNil, r)
      else case issue c (\<lambda>now r. (SMEMBERS R now (getRegistryKey m) r, r)) r of
        (None, r) \<Rightarrow> (Inl RegistryFailed, r)
      | (Some members, r) \<Rightarrow>
          (case collectWorkers R J m env 0 members r of (ws, r) \<Rightarrow> (Inr ws, r)))"

end
