(* ===== verification/Worker_Safety.thy ===== *)
theory Worker_Safety
  imports Worker_Manager
begin

text \<open>
  Why two instances do not use one worker ID at the same time: every command an instance
  issues leaves the live keys of the others alone, and while an instance's lease runs, Redis
  holds its key. The argument is of the rely-guarantee kind: interference by other instances
  is arbitrary, as long as it leaves this instance's keys alone.
\<close>

section \<open>Keys do not collide\<close>

lemma workerKey_inj: "workerKey p dc w = workerKey p dc' w' \<longleftrightarrow> dc = dc' \<and> w = w'"
proof
  assume "workerKey p dc w = workerKey p dc' w'"
  then have "show_int dc @ CHR '':'' # (''worker:'' @ show_int w) =
      show_int dc' @ CHR '':'' # (''worker:'' @ show_int w')"
    by (simp add: workerKey_def)
  from append_colon_inj [OF this show_int_no_colon show_int_no_colon]
  show "dc = dc' \<and> w = w'" by (simp add: show_int_inj)
qed simp

lemma counterKey_not_worker: "getCounterKey m \<noteq> workerKey (w_keyPrefix m) dc w"
proof
  assume "getCounterKey m = workerKey (w_keyPrefix m) dc w"
  then have "show_int (w_datacenterID m) @ CHR '':'' # ''counter'' =
      show_int dc @ CHR '':'' # (''worker:'' @ show_int w)"
    by (simp add: workerKey_def getCounterKey_def)
  from append_colon_inj [OF this show_int_no_colon show_int_no_colon] show False by simp
qed

lemma registryKey_not_worker: "getRegistryKey m \<noteq> workerKey (w_keyPrefix m) dc w"
  by (simp add: getRegistryKey_def workerKey_def)

lemma registryKey_not_counter: "getRegistryKey m \<noteq> getCounterKey m"
  by (simp add: getRegistryKey_def getCounterKey_def)

section \<open>Ownership of keys\<close>

definition owner_of :: "codec \<Rightarrow> string \<Rightarrow> string option" where
  "owner_of J v = (case cjson_decode J v of LuaTable i \<Rightarrow> i | _ \<Rightarrow> None)"

text \<open>At time \<open>t\<close> the key holds information of the instance.\<close>

definition held :: "'r redis \<Rightarrow> codec \<Rightarrow> int \<Rightarrow> string \<Rightarrow> string \<Rightarrow> 'r \<Rightarrow> bool" where
  "held R J t k inst r \<longleftrightarrow> (\<exists>v. GET R t k r = Some v \<and> owner_of J v = Some inst)"

text \<open>What an instance guarantees: from \<open>now\<close> on, no worker key held by another instance
  stops being held by it.\<close>

definition leaves_others :: "'r redis \<Rightarrow> codec \<Rightarrow> string \<Rightarrow> string \<Rightarrow> int \<Rightarrow> 'r \<Rightarrow> 'r \<Rightarrow> bool" where
  "leaves_others R J p inst now r r' \<longleftrightarrow>
     (\<forall>dc w i t. now \<le> t \<and> i \<noteq> inst \<and> held R J t (workerKey p dc w) i r \<longrightarrow>
        held R J t (workerKey p dc w) i r')"

text \<open>What it relies on: interference keeps what it holds.\<close>

definition keeps_mine :: "'r redis \<Rightarrow> codec \<Rightarrow> string \<Rightarrow> string \<Rightarrow> int \<Rightarrow> 'r \<Rightarrow> 'r \<Rightarrow> bool" where
  "keeps_mine R J p inst now r r' \<longleftrightarrow>
     (\<forall>dc w t. now \<le> t \<and> held R J t (workerKey p dc w) inst r \<longrightarrow> held R J t (workerKey p dc w) inst r')"

lemma guarantee_gives_rely:
  "leaves_others R J p i now r r' \<Longrightarrow> inst \<noteq> i \<Longrightarrow> keeps_mine R J p inst now r r'"
  by (simp add: leaves_others_def keeps_mine_def)

lemma same_keys_leave:
  assumes "\<And>dc w. same_key R now (workerKey p dc w) r r'"
  shows "leaves_others R J p inst now r r' \<and> keeps_mine R J p inst now r r'"
  using assms by (simp add: leaves_others_def keeps_mine_def held_def same_key_def)

text \<open>Two instances never hold one key at the same time.\<close>

lemma held_unique: "held R J t k i r \<Longrightarrow> held R J t k j r \<Longrightarrow> i = j"
  by (auto simp: held_def)

section \<open>Every command leaves the others alone\<close>

context redis_server
begin

lemma counter_leaves:
  assumes "LuaScriptIncrWithReset R now (getCounterKey m) n r = (x, r')" and "p = w_keyPrefix m"
  shows "same_key R now (workerKey p dc w) r r'"
proof -
  have k: "workerKey p dc w \<noteq> getCounterKey m" using counterKey_not_worker [of m] assms(2) by metis
  obtain c r1 where i: "INCR R now (getCounterKey m) r = (c, r1)" by (rule prod.exhaust)
  have 1: "same_key R now (workerKey p dc w) r r1" using incr_other [OF k, of now r] i by simp
  have 2: "same_key R now (workerKey p dc w) r1 (SET R now (getCounterKey m) v r1)" for v
    using set_other [OF k] .
  show ?thesis
    using assms(1) i 1 2
    by (fastforce simp: LuaScriptIncrWithReset_def same_key_def Let_def split: option.splits if_splits)
qed

lemma registry_leaves:
  assumes "p = w_keyPrefix m"
  shows "same_key R now (workerKey p dc w) r (SADD R now (getRegistryKey m) x r)"
    and "same_key R now (workerKey p dc w) r (SREM R now (getRegistryKey m) x r)"
  using sadd_other srem_other registryKey_not_worker [of m] assms by metis+

lemma setnx_leaves:
  "leaves_others R J p inst now r (snd (SETNX R now k v d r))"
proof -
  have "held R J t (workerKey p dc w) i (snd (SETNX R now k v d r))"
    if t: "now \<le> t" and h: "held R J t (workerKey p dc w) i r" for dc w i t
  proof -
    have "same_key R now (workerKey p dc w) r (snd (SETNX R now k v d r))"
    proof (cases "workerKey p dc w = k")
      case True
      have "GET R now k r \<noteq> None"
      proof
        assume "GET R now k r = None"
        from get_later_none [OF t this] h True show False by (simp add: held_def)
      qed
      with setnx_taken True show ?thesis by simp
    qed (rule setnx_other)
    with t h show ?thesis by (simp add: held_def same_key_def)
  qed
  then show ?thesis by (simp add: leaves_others_def)
qed

lemma heartbeat_leaves:
  assumes "LuaScriptHeartbeat R (cjson_decode J) now k info inst s r = (x, r')"
  shows "leaves_others R J p inst now r r'"
proof -
  consider (same) "r' = r"
    | (renew) v where "GET R now k r = Some v" "owner_of J v = Some inst" "r' = SETEX R now k info s r"
    using assms
    by (fastforce simp: LuaScriptHeartbeat_def owner_of_def split: option.splits lua_json.splits if_splits)
  then show ?thesis
  proof cases
    case renew
    have "held R J t (workerKey p dc w) i r'"
      if t: "now \<le> t" and i: "i \<noteq> inst" and h: "held R J t (workerKey p dc w) i r" for dc w i t
    proof -
      have "workerKey p dc w \<noteq> k"
        using get_earlier [OF t] h renew(1,2) i by (auto simp: held_def)
      from setex_other [OF this] t h renew(3) show ?thesis by (simp add: held_def same_key_def)
    qed
    then show ?thesis by (simp add: leaves_others_def)
  qed (simp add: leaves_others_def)
qed

end

section \<open>Instance IDs survive the encoding\<close>

lemma show_nat_ascii: "ascii (show_nat n)"
  using show_nat_digits by (fastforce simp: ascii_def list_all_iff)

lemma show_int_ascii: "ascii (show_int i)"
  using show_nat_ascii by (simp add: show_int_def ascii_def)

lemma instanceID_ascii: "ascii (generateInstanceID m i)"
  using show_int_ascii by (simp add: generateInstanceID_def ascii_def Let_def)

lemma owner_of_marshal:
  "codec_ok J \<Longrightarrow> ascii (wi_InstanceID wi) \<Longrightarrow> owner_of J (marshal J wi) = Some (wi_InstanceID wi)"
  by (simp add: codec_ok_def owner_of_def)

section \<open>The lease after a registration\<close>

text \<open>From \<open>t\<close> until \<open>slack\<close> nanoseconds before the lease ends, Redis holds the key of the
  manager's worker ID for it.\<close>

definition lease_held :: "'r redis \<Rightarrow> codec \<Rightarrow> int \<Rightarrow> int \<Rightarrow> WorkerIDManager \<Rightarrow> 'r \<Rightarrow> bool" where
  "lease_held R J t slack m r \<longleftrightarrow>
     (\<forall>s. t \<le> s \<and> s \<le> w_leaseDeadline m - slack \<longrightarrow>
        held R J s (getWorkerKey m (w_workerID m)) (w_instanceID m) r)"

text \<open>The environment of an attempt: the clock is read before the server runs \<open>SETNX\<close>, and
  other instances keep what this one holds once it has been set.\<close>

definition attempt_ok :: "'r redis \<Rightarrow> codec \<Rightarrow> WorkerIDManager \<Rightarrow> 'r attempt_env \<Rightarrow> bool" where
  "attempt_ok R J m e \<longleftrightarrow>
     0 \<le> wall (a_now e) \<and> wall (a_now e) < c_at (a_setnx e) \<and> c_at (a_setnx e) \<le> c_at (a_sadd e) \<and>
     0 \<le> w_ttl m \<and> wall (a_now e) + w_ttl m < 2 ^ 63 \<and>
     (\<forall>r. keeps_mine R J (w_keyPrefix m) (generateInstanceID m (a_ident e)) (c_at (a_sadd e)) r
        (c_before (a_sadd e) r))"

lemma issue_Some:
  "issue c cmd r = (Some a, r') \<longleftrightarrow> c_net c = Reached \<and> cmd (c_at c) (c_before c r) = (a, r')"
  by (auto simp: issue_def Let_def split: net.splits prod.splits)

lemma issue_unit:
  "snd (issue c (\<lambda>now r. ((), f now r)) r) = c_before c r \<or>
   snd (issue c (\<lambda>now r. ((), f now r)) r) = f (c_at c) (c_before c r)"
  by (auto simp: issue_def Let_def split: net.splits)

lemma startHeartbeatLocked_frame [simp]:
  "w_workerID (startHeartbeatLocked m) = w_workerID m"
  "w_registered (startHeartbeatLocked m) = w_registered m"
  "w_leaseDeadline (startHeartbeatLocked m) = w_leaseDeadline m"
  "w_instanceID (startHeartbeatLocked m) = w_instanceID m"
  "w_keyPrefix (startHeartbeatLocked m) = w_keyPrefix m"
  "w_datacenterID (startHeartbeatLocked m) = w_datacenterID m"
  "w_ttl (startHeartbeatLocked m) = w_ttl m"
  "w_healthy (startHeartbeatLocked m) = w_healthy m"
  "w_maxWorkerID (startHeartbeatLocked m) = w_maxWorkerID m"
  "w_shuttingDown (startHeartbeatLocked m) = w_shuttingDown m"
  by (simp_all add: startHeartbeatLocked_def Let_def split: option.split)

lemma wprom_frame [simp]:
  "w_workerID (wprom c m) = w_workerID m" "w_registered (wprom c m) = w_registered m"
  "w_leaseDeadline (wprom c m) = w_leaseDeadline m" "w_instanceID (wprom c m) = w_instanceID m"
  "w_keyPrefix (wprom c m) = w_keyPrefix m" "w_datacenterID (wprom c m) = w_datacenterID m"
  "w_ttl (wprom c m) = w_ttl m" "w_healthy (wprom c m) = w_healthy m"
  "w_maxWorkerID (wprom c m) = w_maxWorkerID m" "w_shuttingDown (wprom c m) = w_shuttingDown m"
  by (simp_all add: wprom_def)

lemma getWorkerKey_cong:
  "w_keyPrefix m' = w_keyPrefix m \<Longrightarrow> w_datacenterID m' = w_datacenterID m \<Longrightarrow>
   getWorkerKey m' w = getWorkerKey m w"
  by (simp add: getWorkerKey_def)

text \<open>The environment of a beat: interference keeps what this instance holds; the lease was
  last set before the beat; and \<open>slack\<close> covers what the beat adds to the lease beyond the
  key'r life, that is the way of the reply and the fraction of a second of the TTL.\<close>

definition beat_ok :: "'r redis \<Rightarrow> codec \<Rightarrow> int \<Rightarrow> WorkerIDManager \<Rightarrow> 'r beat_env \<Rightarrow> bool" where
  "beat_ok R J slack m e \<longleftrightarrow>
     ascii (w_instanceID m) \<and> 0 \<le> w_ttl m \<and> w_ttl m < 2 ^ 22 * Second \<and>
     w_leaseDeadline m \<le> c_at (b_call e) + w_ttl m \<and> c_at (b_call e) \<le> wall (b_after e) \<and>
     0 \<le> wall (b_after e) \<and> wall (b_after e) + w_ttl m < 2 ^ 63 \<and>
     wall (b_after e) - c_at (b_call e) + w_ttl m mod Second < slack \<and>
     (\<forall>r. keeps_mine R J (w_keyPrefix m) (w_instanceID m) (c_at (b_call e)) r (c_before (b_call e) r))"

context redis_server
begin

text \<open>A successful \<open>SETNX\<close> of this instance's information holds the key for the whole TTL.\<close>

lemma setnx_holds:
  assumes "codec_ok J" and "ascii (wi_InstanceID wi)"
    and "SETNX R now k (marshal J wi) d r = (True, r')" and "now \<le> t" and "t < now + d"
  shows "held R J t k (wi_InstanceID wi) r'"
proof -
  have "GET R now k r = None" using setnx_result [of now k "marshal J wi" d r] assms(3) by simp
  from setnx_get [OF this assms(4,5), of "marshal J wi"] assms(3)
  show ?thesis using owner_of_marshal [OF assms(1,2)] by (simp add: held_def)
qed

lemma registered_as_lease:
  assumes J: "codec_ok J" and ok: "attempt_ok R J m e"
    and inst: "w_instanceID m = generateInstanceID m (a_ident e)"
    and setnx: "SETNX R (c_at (a_setnx e)) (getWorkerKey m w) (marshal J (newInfo m w (a_now e))) (w_ttl m) r0
      = (True, r)"
    and reg: "registered_as R cb e w m g r = (m', g', r')"
  shows "w_registered m' \<and> w_workerID m' = w \<and> w_healthy m' = 1 \<and> w_instanceID m' = w_instanceID m \<and>
    w_leaseDeadline m' = wall (a_now e) + w_ttl m \<and> lease_held R J (c_at (a_sadd e)) 0 m' r' \<and>
    g' = (case cb of None \<Rightarrow> g | Some f \<Rightarrow> f w g)"
proof -
  define sadd where "sadd = (\<lambda>now r. ((), SADD R now (getRegistryKey m) (registryMember (w_datacenterID m) w) r))"
  have m': "w_registered m'" "w_workerID m' = w" "w_healthy m' = 1" "w_instanceID m' = w_instanceID m"
    "w_leaseDeadline m' = UnixNano (time_Add (a_now e) (w_ttl m))" "w_keyPrefix m' = w_keyPrefix m"
    "w_datacenterID m' = w_datacenterID m" "g' = (case cb of None \<Rightarrow> g | Some f \<Rightarrow> f w g)"
    and r': "r' = snd (issue (a_sadd e) sadd r)"
    using reg by (auto simp: registered_as_def Let_def setLeaseDeadline_def sadd_def getRegistryKey_def)
  have lease: "w_leaseDeadline m' = wall (a_now e) + w_ttl m"
    using ok m'(5) by (simp add: attempt_ok_def UnixNano_def time_Add_def i64_id)
  have "held R J s (getWorkerKey m w) (w_instanceID m) r'"
    if s: "c_at (a_sadd e) \<le> s" "s < c_at (a_setnx e) + w_ttl m" for s
  proof -
    let ?k = "getWorkerKey m w"
    have "c_at (a_setnx e) \<le> s" using ok s(1) by (simp add: attempt_ok_def)
    then have "held R J s ?k (w_instanceID m) r"
      using setnx_holds [OF J _ setnx _ s(2)] inst instanceID_ascii by (simp add: newInfo_def)
    then have mine: "held R J s ?k (w_instanceID m) (c_before (a_sadd e) r)"
      using ok s(1) inst by (simp add: attempt_ok_def keeps_mine_def getWorkerKey_def)
    have "same_key R (c_at (a_sadd e)) ?k x (snd (sadd (c_at (a_sadd e)) x))" for x
      using registry_leaves(1) [of "w_keyPrefix m" m "c_at (a_sadd e)" "w_datacenterID m" w x]
      by (simp add: sadd_def getWorkerKey_def)
    with mine s(1) have "held R J s ?k (w_instanceID m) (snd (sadd (c_at (a_sadd e)) (c_before (a_sadd e) r)))"
      by (simp add: held_def same_key_def)
    with mine show ?thesis
      unfolding r' sadd_def using issue_unit [of "a_sadd e"] by (metis sadd_def snd_conv)
  qed
  moreover have "getWorkerKey m' w = getWorkerKey m w" by (rule getWorkerKey_cong) (simp_all add: m')
  ultimately have "lease_held R J (c_at (a_sadd e)) 0 m' r'"
    using ok lease by (simp add: lease_held_def m'(2,4) attempt_ok_def)
  then show ?thesis using m' lease by simp
qed

lemma registerLoop_lease:
  assumes J: "codec_ok J" and ok: "\<forall>k. attempt_ok R J m (env k)"
    and "registerLoop R J cb env n left i m g r = (Inr w, m', g', r')"
  shows "\<exists>k. w_registered m' \<and> w_workerID m' = w \<and> w_healthy m' = 1 \<and>
    w_instanceID m' = generateInstanceID m (a_ident (env k)) \<and>
    w_leaseDeadline m' = wall (a_now (env k)) + w_ttl m \<and>
    lease_held R J (c_at (a_sadd (env k))) 0 m' r' \<and>
    g' = (case cb of None \<Rightarrow> g | Some f \<Rightarrow> f w g)"
  using ok assms(3)
proof (induction left arbitrary: i m g r)
  case 0
  then show ?case by simp
next
  case (Suc left)
  let ?e = "env i"
  obtain ri r1 where i1: "issue (a_incr ?e) (\<lambda>now. LuaScriptIncrWithReset R now (getCounterKey m) n) r = (ri, r1)"
    by (rule prod.exhaust)
  obtain c where ri: "ri = Some (Some c)"
    using Suc.prems(2) i1 by (auto simp: Let_def split: if_splits option.splits)
  define m1 where "m1 = m\<lparr>w_instanceID := generateInstanceID m (a_ident ?e)\<rparr>"
  let ?w = "i64 (c - 1)"
  obtain rs r2 where s2: "issue (a_setnx ?e) (\<lambda>now. SETNX R now (getWorkerKey m1 ?w)
      (marshal J (newInfo m1 ?w (a_now ?e))) (w_ttl m1)) r1 = (rs, r2)" by (rule prod.exhaust)
  have frame: "w_keyPrefix m1 = w_keyPrefix m" "w_datacenterID m1 = w_datacenterID m" "w_ttl m1 = w_ttl m"
    "w_instanceID m1 = generateInstanceID m (a_ident ?e)"
    "\<And>x. generateInstanceID m1 x = generateInstanceID m x"
    by (simp_all add: m1_def generateInstanceID_def)
  have ok1: "attempt_ok R J m1 (env k)" for k
    using Suc.prems(1) by (simp add: attempt_ok_def frame)
  have not_done: "\<not> a_done ?e" using Suc.prems(2) by (auto simp: Let_def split: if_splits)
  have body: "(case rs of None \<Rightarrow> (Inl (SetNXFailed ?w), m1, g, r2)
      | Some success \<Rightarrow> if success then (let (m, g, r) = registered_as R cb ?e ?w m1 g r2 in (Inr ?w, m, g, r))
          else if a_backoffDone ?e then (Inl ContextDone, m1, g, r2)
          else registerLoop R J cb env n left (Suc i) m1 g r2) = (Inr w, m', g', r')"
    using Suc.prems(2) not_done s2
    by (simp add: Let_def i1 ri redisResultToInt64_def m1_def [symmetric])
  then obtain success where rs: "rs = Some success" by (cases rs) auto
  show ?case
  proof (cases success)
    case True
    obtain ma ga ra where reg: "registered_as R cb ?e ?w m1 g r2 = (ma, ga, ra)" by (rule prod_cases3)
    have "SETNX R (c_at (a_setnx ?e)) (getWorkerKey m1 ?w) (marshal J (newInfo m1 ?w (a_now ?e))) (w_ttl m1)
        (c_before (a_setnx ?e) r1) = (True, r2)"
      using s2 rs True by (simp add: issue_Some)
    from registered_as_lease [OF J ok1 _ this reg] frame body rs True reg show ?thesis
      by (intro exI [of _ i]) auto
  next
    case False
    then have "registerLoop R J cb env n left (Suc i) m1 g r2 = (Inr w, m', g', r')"
      using body rs by (auto split: if_splits)
    from Suc.IH [OF _ this] ok1 show ?thesis by (simp add: frame)
  qed
qed

lemma RegisterWorkerID_lease:
  assumes J: "codec_ok J" and ok: "\<forall>k. attempt_ok R J m (env k)" and new: "\<not> w_registered m"
    and reg: "RegisterWorkerID R J cb env maxW m g r = (Inr w, m', g', r')"
  shows "\<exists>k. w_registered m' \<and> w_workerID m' = w \<and> w_healthy m' = 1 \<and>
    w_instanceID m' = generateInstanceID m (a_ident (env k)) \<and>
    w_leaseDeadline m' = wall (a_now (env k)) + w_ttl m \<and>
    lease_held R J (c_at (a_sadd (env k))) 0 m' r' \<and>
    g' = (case cb of None \<Rightarrow> g | Some f \<Rightarrow> f w g)"
proof -
  let ?m = "m\<lparr>w_maxWorkerID := maxW\<rparr>"
  have loop: "registerLoop R J cb env (i64 (maxW + 1)) (nat (i64 (maxW + 1))) 0 ?m g r = (Inr w, m', g', r')"
    using reg new by (simp add: RegisterWorkerID_def Let_def split: if_splits)
  have "\<forall>k. attempt_ok R J ?m (env k)"
    using ok by (simp add: attempt_ok_def generateInstanceID_def)
  from registerLoop_lease [OF J this loop] show ?thesis
    by (simp add: generateInstanceID_def)
qed

text \<open>The same for a specific worker ID.\<close>

lemma RegisterSpecificWorkerID_lease:
  assumes J: "codec_ok J" and new: "\<not> w_registered m"
    and ok: "attempt_ok R J m \<lparr>a_done = False, a_incr = s_setnx e, a_now = s_now e, a_ident = s_ident e,
      a_setnx = s_setnx e, a_sadd = s_sadd e, a_backoffDone = False\<rparr>"
    and reg: "RegisterSpecificWorkerID R J e w m r = (None, m', r')"
  shows "w_registered m' \<and> w_workerID m' = w \<and> w_healthy m' = 1 \<and>
    w_leaseDeadline m' = wall (s_now e) + w_ttl m \<and> lease_held R J (c_at (s_sadd e)) 0 m' r'"
proof -
  define a where "a = \<lparr>a_done = False, a_incr = s_setnx e, a_now = s_now e, a_ident = s_ident e,
      a_setnx = s_setnx e, a_sadd = s_sadd e, a_backoffDone = False\<rparr>"
  define m1 where "m1 = m\<lparr>w_instanceID := generateInstanceID m (s_ident e)\<rparr>"
  obtain rs r2 where s2: "issue (s_setnx e) (\<lambda>now. SETNX R now (getWorkerKey m1 w)
      (marshal J (newInfo m1 w (s_now e))) (w_ttl m1)) r = (rs, r2)" by (rule prod.exhaust)
  have rs: "rs = Some True"
    using reg new s2
    by (auto simp: RegisterSpecificWorkerID_def Let_def m1_def [symmetric] split: if_splits option.splits bool.splits)
  obtain ma ga ra where ra: "registered_as R None a w m1 () r2 = (ma, ga, ra)" by (rule prod_cases3)
  have eq: "w_registered m' = w_registered ma" "w_workerID m' = w_workerID ma" "w_healthy m' = w_healthy ma"
    "w_leaseDeadline m' = w_leaseDeadline ma" "w_instanceID m' = w_instanceID ma" "w_keyPrefix m' = w_keyPrefix ma"
    "w_datacenterID m' = w_datacenterID ma" "r' = ra"
    using reg new s2 rs ra
    by (auto simp: RegisterSpecificWorkerID_def registered_as_def Let_def m1_def [symmetric] a_def
        setLeaseDeadline_def getRegistryKey_def split: if_splits)
  have ok1: "attempt_ok R J m1 a"
    using ok by (simp add: attempt_ok_def a_def m1_def generateInstanceID_def)
  have "SETNX R (c_at (a_setnx a)) (getWorkerKey m1 w) (marshal J (newInfo m1 w (a_now a))) (w_ttl m1)
      (c_before (s_setnx e) r) = (True, r2)"
    using s2 rs by (simp add: issue_Some a_def)
  from registered_as_lease [OF J ok1 _ this ra]
  have "w_registered ma \<and> w_workerID ma = w \<and> w_healthy ma = 1 \<and>
      w_leaseDeadline ma = wall (s_now e) + w_ttl m \<and> lease_held R J (c_at (s_sadd e)) 0 ma ra"
    by (simp add: a_def m1_def generateInstanceID_def)
  then show ?thesis unfolding lease_held_def getWorkerKey_def eq by auto
qed

section \<open>The lease through heartbeats\<close>

text \<open>A beat that the server runs either renews the whole key or changes nothing.\<close>

lemma beat_held:
  assumes J: "codec_ok J" and ok: "beat_ok R J slack m e" and b: "beat R J e m r = (res, r')"
    and held0: "lease_held R J t0 slack m r"
  shows "lease_held R J (max t0 (c_at (b_call e))) slack m r' \<and>
    (res = Inr 1 \<longrightarrow> (\<forall>s. c_at (b_call e) \<le> s \<and> s \<le> wall (b_after e) + w_ttl m - slack \<longrightarrow>
        held R J s (getWorkerKey m (w_workerID m)) (w_instanceID m) r'))"
proof -
  let ?now = "c_at (b_call e)" and ?r1 = "c_before (b_call e) r" and ?k = "getWorkerKey m (w_workerID m)"
  let ?info = "marshal J (beatInfo m (b_infoNow e))" and ?s = "ttlSeconds m"
  have secs: "?s = w_ttl m div Second"
    using ok int_of_Seconds [of "w_ttl m"] by (simp add: ttlSeconds_def beat_ok_def)
  have d: "w_ttl m = w_ttl m div Second * Second + w_ttl m mod Second"
    by (rule div_mult_mod_eq [symmetric])
  have sl: "wall (b_after e) - ?now + w_ttl m mod Second < slack" "?now \<le> wall (b_after e)"
    "w_leaseDeadline m \<le> ?now + w_ttl m"
    using ok unfolding beat_ok_def by blast+
  have cover: "wall (b_after e) + w_ttl m - slack < ?now + ?s * Second"
    unfolding secs using d sl by linarith
  have lease: "w_leaseDeadline m - slack < ?now + ?s * Second"
    unfolding secs using d sl by linarith
  have owner: "owner_of J ?info = Some (w_instanceID m)"
    using owner_of_marshal [OF J, of "beatInfo m (b_infoNow e)"] ok by (simp add: beatInfo_def beat_ok_def)
  have pre: "held R J s ?k (w_instanceID m) ?r1"
    if "t0 \<le> s" "?now \<le> s" "s \<le> w_leaseDeadline m - slack" for s
    using held0 ok that by (auto simp: lease_held_def beat_ok_def keeps_mine_def getWorkerKey_def)
  have renewed: "held R J s ?k (w_instanceID m) (SETEX R ?now ?k ?info ?s ?r1)"
    if "?now \<le> s" "s < ?now + ?s * Second" for s
    using setex_get [OF that, of ?k ?info ?r1] owner by (simp add: held_def)
  have "r' = ?r1 \<and> res \<noteq> Inr 1 \<or> r' = SETEX R ?now ?k ?info ?s ?r1"
    using b
    by (fastforce simp: beat_def issue_def Let_def LuaScriptHeartbeat_def redisResultToInt64_def
        split: net.splits option.splits prod.splits lua_json.splits if_splits)
  then show ?thesis
  proof
    assume "r' = ?r1 \<and> res \<noteq> Inr 1"
    with pre show ?thesis by (simp add: lease_held_def)
  next
    assume "r' = SETEX R ?now ?k ?info ?s ?r1"
    with renewed cover lease show ?thesis by (simp add: lease_held_def)
  qed
qed

lemma sendHeartbeat_lease:
  assumes J: "codec_ok J" and ok: "beat_ok R J slack m e" and b: "sendHeartbeat R J e m r = (err, m', r')"
    and held0: "lease_held R J t0 slack m r"
  shows "lease_held R J (max t0 (c_at (b_call e))) slack m' r' \<and>
    w_workerID m' = w_workerID m \<and> w_instanceID m' = w_instanceID m \<and> w_registered m' = w_registered m"
proof (cases "w_redisClient m \<and> w_workerID m \<noteq> -1")
  case False
  then have "m' = m" "r' = r" using b by (cases "w_redisClient m"; simp add: sendHeartbeat_def)+
  with held0 show ?thesis by (simp add: lease_held_def)
next
  case True
  obtain res r1 where bt: "beat R J e m r = (res, r1)" by (rule prod.exhaust)
  note h = beat_held [OF J ok bt held0]
  have up: "setLeaseDeadline (b_after e) m = m\<lparr>w_leaseDeadline := wall (b_after e) + w_ttl m\<rparr>"
    using ok by (simp add: setLeaseDeadline_def beat_ok_def UnixNano_def time_Add_def i64_id)
  show ?thesis
  proof (cases "res = Inr 1")
    case True
    with \<open>w_redisClient m \<and> _\<close> bt b have "m' = m\<lparr>w_leaseDeadline := wall (b_after e) + w_ttl m\<rparr>" "r' = r1"
      by (simp_all add: sendHeartbeat_def up)
    with h True show ?thesis by (simp add: lease_held_def getWorkerKey_def)
  next
    case False
    with \<open>w_redisClient m \<and> _\<close> bt b have "m' = m" "r' = r1"
      by (auto simp: sendHeartbeat_def split: sum.splits if_splits)
    with h show ?thesis by simp
  qed
qed

end

text \<open>While both leases run (short of the slack), instances with different identities have
  different worker keys.\<close>

lemma leases_disjoint:
  assumes "lease_held R J t slack1 m1 r" and "lease_held R J t slack2 m2 r"
    and "t \<le> s" and "s \<le> w_leaseDeadline m1 - slack1" and "s \<le> w_leaseDeadline m2 - slack2"
    and "w_instanceID m1 \<noteq> w_instanceID m2"
    and "w_keyPrefix m1 = w_keyPrefix m2" and "w_datacenterID m1 = w_datacenterID m2"
  shows "w_workerID m1 \<noteq> w_workerID m2"
proof
  assume "w_workerID m1 = w_workerID m2"
  then have "getWorkerKey m1 (w_workerID m1) = getWorkerKey m2 (w_workerID m2)"
    using assms(7,8) by (simp add: getWorkerKey_def)
  with assms(1-5) held_unique assms(6) show False by (metis lease_held_def)
qed

section \<open>Registration finds a free worker ID\<close>

text \<open>An attempt whose calls all arrive, with no interference and no cancellation.\<close>

definition quiet :: "'r attempt_env \<Rightarrow> bool" where
  "quiet e \<longleftrightarrow> \<not> a_done e \<and> \<not> a_backoffDone e \<and>
     c_net (a_incr e) = Reached \<and> c_net (a_setnx e) = Reached \<and>
     c_before (a_incr e) = id \<and> c_before (a_setnx e) = id \<and> c_at (a_incr e) \<le> c_at (a_setnx e)"

definition quiet_envs :: "(nat \<Rightarrow> 'r attempt_env) \<Rightarrow> bool" where
  "quiet_envs env \<longleftrightarrow> (\<forall>k. quiet (env k) \<and> c_at (a_setnx (env k)) \<le> c_at (a_incr (env (Suc k))))"

text \<open>The worker ID that attempt \<open>j\<close> tries when the counter starts at \<open>c\<close>, and whether its
  key is taken when it does.\<close>

definition tried :: "int \<Rightarrow> int \<Rightarrow> nat \<Rightarrow> int" where
  "tried c n j = (c + int j) mod n"

definition taken :: "'r redis \<Rightarrow> WorkerIDManager \<Rightarrow> (nat \<Rightarrow> 'r attempt_env) \<Rightarrow> int \<Rightarrow> int \<Rightarrow> nat \<Rightarrow> 'r \<Rightarrow> nat \<Rightarrow> bool" where
  "taken R m env c n i r j \<longleftrightarrow>
     GET R (c_at (a_setnx (env (i + j)))) (getWorkerKey m (tried c n j)) r \<noteq> None"

lemma tried_next: "0 < n \<Longrightarrow> tried (c mod n + 1) n j = tried c n (Suc j)"
  unfolding tried_def by (metis add.assoc add.commute int_ops(4) mod_add_left_eq)

context redis_server
begin

lemma attempt_quiet:
  assumes q: "quiet e" and c: "counter_is R (c_at (a_incr e)) (getCounterKey m) c r" "0 \<le> c" "0 < n"
    and i: "issue (a_incr e) (\<lambda>now. LuaScriptIncrWithReset R now (getCounterKey m) n) r = (x, r1)"
    and s: "issue (a_setnx e) (\<lambda>now. SETNX R now (getWorkerKey m w) v d) r1 = (y, r2)"
  shows "x = Some (Some (c mod n + 1)) \<and>
    y = Some (GET R (c_at (a_setnx e)) (getWorkerKey m w) r = None) \<and>
    counter_is R (c_at (a_setnx e)) (getCounterKey m) (c mod n + 1) r2 \<and>
    (GET R (c_at (a_setnx e)) (getWorkerKey m w) r \<noteq> None \<longrightarrow>
      (\<forall>u t. c_at (a_setnx e) \<le> t \<longrightarrow> GET R t (getWorkerKey m u) r2 = GET R t (getWorkerKey m u) r))"
proof -
  let ?t1 = "c_at (a_incr e)" and ?t2 = "c_at (a_setnx e)" and ?k = "getWorkerKey m w"
  have t: "?t1 \<le> ?t2" using q by (simp add: quiet_def)
  obtain x1 where x1: "LuaScriptIncrWithReset R ?t1 (getCounterKey m) n r = (x1, r1)" and x: "x = Some x1"
    using i q by (auto simp: issue_def quiet_def split: prod.splits)
  have y: "y = Some (fst (SETNX R ?t2 ?k v d r1))" "r2 = snd (SETNX R ?t2 ?k v d r1)"
    using s q by (auto simp: issue_def quiet_def split: prod.splits)
  note sc = incr_script [OF c x1]
  have same1: "GET R t' (getWorkerKey m u) r1 = GET R t' (getWorkerKey m u) r" if "?t1 \<le> t'" for u t'
    using counter_leaves [OF x1 refl] that by (simp add: same_key_def getWorkerKey_def)
  have nk: "getCounterKey m \<noteq> ?k" using counterKey_not_worker by (simp add: getWorkerKey_def)
  have cnt: "counter_is R ?t2 (getCounterKey m) (c mod n + 1) r2"
    using counter_is_later [OF conjunct2 [OF sc] t] setnx_other [OF nk, of ?t2 r1 v d]
    unfolding counter_is_def y(2) same_key_def by auto
  have "GET R t' (getWorkerKey m u) r2 = GET R t' (getWorkerKey m u) r"
    if "GET R ?t2 ?k r \<noteq> None" "?t2 \<le> t'" for u t'
  proof -
    have "same_key R ?t2 (getWorkerKey m u) r1 r2"
    proof (cases "getWorkerKey m u = ?k")
      case True
      have "GET R ?t2 ?k r1 \<noteq> None" using that(1) same1 t by simp
      from setnx_taken [OF this] show ?thesis by (simp only: True y(2))
    next
      case False
      from setnx_other [OF this] show ?thesis by (simp only: y(2))
    qed
    then show ?thesis using that(2) same1 t by (simp add: same_key_def)
  qed
  then show ?thesis using x sc y(1) setnx_result same1 t cnt by auto
qed

lemma registerLoop_quiet:
  assumes "quiet_envs env" and "counter_is R (c_at (a_incr (env i))) (getCounterKey m) c r"
    and "0 \<le> c" and "0 < n" and "n < 2 ^ 63"
    and "registerLoop R J cb env n left i m g r = (res, m', g', r')"
  shows "(\<exists>j < left. \<not> taken R m env c n i r j \<and> (\<forall>j' < j. taken R m env c n i r j') \<and>
       res = Inr (tried c n j) \<and> w_workerID m' = tried c n j \<and> w_registered m' \<and> w_healthy m' = 1) \<or>
    (\<forall>j < left. taken R m env c n i r j) \<and> res = Inl (AllOccupied n) \<and> w_healthy m' = 0"
  using assms
proof (induction left arbitrary: i m g r c)
  case 0
  then show ?case by auto
next
  case (Suc left)
  let ?e = "env i"
  have q: "quiet ?e" and later: "c_at (a_setnx ?e) \<le> c_at (a_incr (env (Suc i)))"
    using Suc.prems(1) by (simp_all add: quiet_envs_def)
  obtain x r1 where i1: "issue (a_incr ?e) (\<lambda>now. LuaScriptIncrWithReset R now (getCounterKey m) n) r = (x, r1)"
    by (rule prod.exhaust)
  define m1 where "m1 = m\<lparr>w_instanceID := generateInstanceID m (a_ident ?e)\<rparr>"
  have frame: "getWorkerKey m1 = getWorkerKey m" "getCounterKey m1 = getCounterKey m"
    by (simp_all add: m1_def getWorkerKey_def getCounterKey_def fun_eq_iff)
  let ?w = "tried c n 0"
  obtain y r2 where s2: "issue (a_setnx ?e) (\<lambda>now. SETNX R now (getWorkerKey m ?w)
      (marshal J (newInfo m1 ?w (a_now ?e))) (w_ttl m1)) r1 = (y, r2)" by (rule prod.exhaust)
  note a = attempt_quiet [OF q Suc.prems(2-4) i1 s2]
  have w: "i64 (c mod n + 1 - 1) = ?w"
  proof -
    have "0 \<le> c mod n" "c mod n < n" using Suc.prems(4) by simp_all
    then have "- (2 ^ 63) \<le> c mod n" "c mod n < 2 ^ 63" using Suc.prems(5) by linarith+
    then show ?thesis by (simp add: tried_def i64_id)
  qed
  have body: "(case y of None \<Rightarrow> (Inl (SetNXFailed ?w), m1, g, r2)
      | Some success \<Rightarrow> if success then (let (m, g, r) = registered_as R cb ?e ?w m1 g r2 in (Inr ?w, m, g, r))
          else if a_backoffDone ?e then (Inl ContextDone, m1, g, r2)
          else registerLoop R J cb env n left (Suc i) m1 g r2) = (res, m', g', r')"
    using Suc.prems(6) q a s2 w
    by (simp add: Let_def i1 redisResultToInt64_def quiet_def m1_def [symmetric] frame)
  show ?case
  proof (cases "taken R m env c n i r 0")
    case False
    then have y: "y = Some True" using a by (simp add: taken_def)
    obtain ma ga ra where reg: "registered_as R cb ?e ?w m1 g r2 = (ma, ga, ra)" by (rule prod_cases3)
    have "w_workerID ma = ?w \<and> w_registered ma \<and> w_healthy ma = 1"
      using reg by (auto simp: registered_as_def Let_def setLeaseDeadline_def)
    with body y reg False show ?thesis by auto
  next
    case True
    then have y: "y = Some False" using a by (simp add: taken_def)
    have rec: "registerLoop R J cb env n left (Suc i) m1 g r2 = (res, m', g', r')"
      using body y q by (simp add: quiet_def)
    have cnt: "counter_is R (c_at (a_incr (env (Suc i)))) (getCounterKey m1) (c mod n + 1) r2"
      using counter_is_later [OF _ later, of "getCounterKey m" "c mod n + 1" r2] a by (simp add: frame)
    have c': "0 \<le> c mod n + 1" using pos_mod_sign [OF Suc.prems(4), of c] by linarith
    have mono: "c_at (a_setnx (env i)) \<le> c_at (a_setnx (env (i + j)))" for j
    proof (induction j)
      case (Suc j)
      have "quiet (env (Suc (i + j)))" "c_at (a_setnx (env (i + j))) \<le> c_at (a_incr (env (Suc (i + j))))"
        using \<open>quiet_envs env\<close> by (simp_all add: quiet_envs_def)
      with Suc show ?case by (simp add: quiet_def)
    qed simp
    have tk: "taken R m1 env (c mod n + 1) n (Suc i) r2 j = taken R m env c n i r (Suc j)" for j
      using a True mono [of "Suc j"] Suc.prems(4)
      by (simp add: taken_def tried_next frame)
    from Suc.IH [OF Suc.prems(1) cnt c' Suc.prems(4,5) rec]
    show ?thesis
      unfolding tk tried_next [OF Suc.prems(4)]
    proof
      assume "\<exists>j < left. \<not> taken R m env c n i r (Suc j) \<and> (\<forall>j' < j. taken R m env c n i r (Suc j')) \<and>
        res = Inr (tried c n (Suc j)) \<and> w_workerID m' = tried c n (Suc j) \<and> w_registered m' \<and> w_healthy m' = 1"
      then obtain j where j: "j < left" "\<not> taken R m env c n i r (Suc j)"
        "\<forall>j' < j. taken R m env c n i r (Suc j')" "res = Inr (tried c n (Suc j))"
        "w_workerID m' = tried c n (Suc j)" "w_registered m'" "w_healthy m' = 1" by blast
      have "\<forall>j' < Suc j. taken R m env c n i r j'" using j(3) True by (auto simp: less_Suc_eq_0_disj)
      with j show ?thesis by (intro disjI1 exI [of _ "Suc j"]) simp
    next
      assume "(\<forall>j < left. taken R m env c n i r (Suc j)) \<and> res = Inl (AllOccupied n) \<and> w_healthy m' = 0"
      with True show ?thesis by (auto simp: less_Suc_eq_0_disj)
    qed
  qed
qed

end

end
