(* ===== verification/Worker_Recovery.thy ===== *)
theory Worker_Recovery
  imports Worker_Safety
begin

text \<open>
  The state of the manager through heartbeats, failures, recovery and deregistration: health
  implies a registration, and the generator carries the registered worker ID.
\<close>

section \<open>Health, registration and the generator agree\<close>

text \<open>\<open>S w g\<close>: the generator \<open>g\<close> uses the worker ID \<open>w\<close>.\<close>

definition in_sync :: "(int \<Rightarrow> 'g \<Rightarrow> bool) \<Rightarrow> WorkerIDManager \<Rightarrow> 'g \<Rightarrow> bool" where
  "in_sync S m g \<longleftrightarrow> (w_registered m \<longrightarrow> S (w_workerID m) g) \<and>
     (\<not> w_registered m \<longrightarrow> w_workerID m = -1) \<and> (w_healthy m = 1 \<longrightarrow> w_registered m)"

text \<open>The contract of \<open>onWorkerIDChange\<close>.\<close>

locale worker_callback =
  fixes S :: "int \<Rightarrow> 'g \<Rightarrow> bool" and f :: "int \<Rightarrow> 'g \<Rightarrow> 'g"
  assumes follows: "S w (f w g)"
begin

lemma registered_as_sync:
  "registered_as R (Some f) e w m g r = (m', g', r') \<Longrightarrow>
     in_sync S m' g' \<and> w_registered m' \<and> w_workerID m' = w \<and> w_healthy m' = 1 \<and>
     w_maxWorkerID m' = w_maxWorkerID m"
  by (auto simp: registered_as_def Let_def in_sync_def setLeaseDeadline_def follows)

lemma registerLoop_sync:
  assumes "registerLoop R J (Some f) env n left i m g r = (res, m', g', r')"
    and "in_sync S m g" and "w_healthy m \<noteq> 1"
  shows "in_sync S m' g' \<and> w_maxWorkerID m' = w_maxWorkerID m \<and>
    (case res of Inr w \<Rightarrow> w_registered m' \<and> w_workerID m' = w \<and> w_healthy m' = 1
     | Inl e \<Rightarrow> w_healthy m' \<noteq> 1 \<and> w_registered m' = w_registered m)"
  using assms
proof (induction left arbitrary: i m g r)
  case 0
  then show ?case by (auto simp: in_sync_def)
next
  case (Suc left)
  let ?e = "env i" and ?m = "m\<lparr>w_instanceID := generateInstanceID m (a_ident (env i))\<rparr>"
  have sync: "in_sync S ?m g" "w_healthy ?m \<noteq> 1" using Suc.prems(2,3) by (simp_all add: in_sync_def)
  obtain x r1 where i1: "issue (a_incr ?e) (\<lambda>now. LuaScriptIncrWithReset R now (getCounterKey m) n) r = (x, r1)"
    by (rule prod.exhaust)
  show ?case
  proof (cases "a_done ?e \<or> x = None \<or> x = Some None")
    case True
    with Suc.prems i1 show ?thesis by (auto simp: Let_def split: if_splits)
  next
    case False
    then obtain c where x: "x = Some (Some c)" by (metis not_None_eq)
    let ?w = "i64 (c - 1)"
    obtain y r2 where s2: "issue (a_setnx ?e) (\<lambda>now. SETNX R now (getWorkerKey ?m ?w)
        (marshal J (newInfo ?m ?w (a_now ?e))) (w_ttl ?m)) r1 = (y, r2)" by (rule prod.exhaust)
    have body: "(case y of None \<Rightarrow> (Inl (SetNXFailed ?w), ?m, g, r2)
        | Some success \<Rightarrow> if success then (let (m, g, r) = registered_as R (Some f) ?e ?w ?m g r2 in (Inr ?w, m, g, r))
            else if a_backoffDone ?e then (Inl ContextDone, ?m, g, r2)
            else registerLoop R J (Some f) env n left (Suc i) ?m g r2) = (res, m', g', r')"
      using Suc.prems(1) False i1 x s2 by (simp add: Let_def redisResultToInt64_def)
    obtain ma ga ra where reg: "registered_as R (Some f) ?e ?w ?m g r2 = (ma, ga, ra)" by (rule prod_cases3)
    show ?thesis
    proof (cases "y = Some True \<or> y = None \<or> a_backoffDone ?e")
      case True
      with body registered_as_sync [OF reg] reg sync Suc.prems(3) show ?thesis
        by (cases y) (auto split: if_splits)
    next
      case False
      then have "registerLoop R J (Some f) env n left (Suc i) ?m g r2 = (res, m', g', r')"
        using body by (cases y) (auto split: if_splits)
      from Suc.IH [OF this sync] show ?thesis by (cases res) simp_all
    qed
  qed
qed

lemma RegisterWorkerID_sync:
  assumes "RegisterWorkerID R J (Some f) env maxW m g r = (res, m', g', r')" and "in_sync S m g"
    and "\<not> w_registered m"
  shows "in_sync S m' g' \<and>
    (case res of Inr w \<Rightarrow> w_registered m' \<and> w_workerID m' = w \<and> w_healthy m' = 1
     | Inl e \<Rightarrow> w_healthy m' \<noteq> 1 \<and> \<not> w_registered m')"
proof -
  have h: "w_healthy m \<noteq> 1" using assms(2,3) by (auto simp: in_sync_def)
  consider (refused) "maxW < 0 \<or> \<not> w_redisClient m \<or> w_shuttingDown m = 1"
    | (loop) "registerLoop R J (Some f) env (i64 (maxW + 1)) (nat (i64 (maxW + 1))) 0
        (m\<lparr>w_maxWorkerID := maxW\<rparr>) g r = (res, m', g', r')"
    using assms(1,3) by (auto simp: RegisterWorkerID_def Let_def split: if_splits)
  then show ?thesis
  proof cases
    case refused
    with assms h show ?thesis by (auto simp: RegisterWorkerID_def in_sync_def split: if_splits)
  next
    case loop
    have "in_sync S (m\<lparr>w_maxWorkerID := maxW\<rparr>) g" using assms(2) by (simp add: in_sync_def)
    from registerLoop_sync [OF loop this] h assms(3) show ?thesis by (auto split: sum.splits)
  qed
qed

lemma attemptRegisterFresh_sync:
  assumes "attemptRegisterFresh R J (Some f) shut env maxW left i err m g r = (res, sl, m', g', r')"
    and "in_sync S m g" and "\<not> w_registered m"
  shows "in_sync S m' g' \<and>
    (case res of Inr w \<Rightarrow> w_registered m' \<and> w_workerID m' = w \<and> w_healthy m' = 1
     | Inl e \<Rightarrow> w_healthy m' \<noteq> 1 \<and> \<not> w_registered m')"
  using assms
proof (induction left arbitrary: i err m g r sl)
  case 0
  then show ?case by (auto simp: in_sync_def)
next
  case (Suc left)
  define m1 where "m1 = (if shut i then m\<lparr>w_shuttingDown := 1\<rparr> else m)"
  have m1: "in_sync S m1 g" "\<not> w_registered m1"
    using Suc.prems(2,3) by (simp_all add: m1_def in_sync_def)
  obtain x ma ga ra where reg: "RegisterWorkerID R J (Some f) (env i) maxW m1 g r = (x, ma, ga, ra)"
    by (rule prod_cases4)
  note rs = RegisterWorkerID_sync [OF reg m1]
  show ?case
  proof (cases "w_shuttingDown m1 = 1")
    case True
    with Suc.prems(1) m1 show ?thesis
      by (auto simp: Let_def m1_def [symmetric] in_sync_def)
  next
    case False
    show ?thesis
    proof (cases x)
      case (Inr w)
      with Suc.prems(1) False reg rs show ?thesis
        by (auto simp: Let_def m1_def [symmetric])
    next
      case (Inl e)
      obtain res2 sl2 m2 g2 r2 where rec:
        "attemptRegisterFresh R J (Some f) shut env maxW left (Suc i) (Some e) ma ga ra = (res2, sl2, m2, g2, r2)"
        by (rule prod_cases5)
      have eqs: "res2 = res" "m2 = m'" "g2 = g'" "r2 = r'"
        using Suc.prems(1) False reg rec Inl by (auto simp: Let_def m1_def [symmetric])
      have "in_sync S ma ga" "\<not> w_registered ma" using rs Inl by simp_all
      from Suc.IH [OF rec [unfolded eqs] this] show ?thesis .
    qed
  qed
qed

lemma stopHeartbeat_frame:
  "w_registered (stopHeartbeat m) = w_registered m" "w_workerID (stopHeartbeat m) = w_workerID m"
  "w_healthy (stopHeartbeat m) = w_healthy m" "w_shuttingDown (stopHeartbeat m) = w_shuttingDown m"
  "w_redisClient (stopHeartbeat m) = w_redisClient m"
  by (simp_all add: stopHeartbeat_def split: option.split)

lemma reacquire_sync:
  assumes "reacquireFreshWorkerID R J (Some f) shut env prev m g r = (res, m', g', r')"
  shows "in_sync S m' g' \<and> (if res = None then w_registered m' \<and> w_healthy m' = 1
    else w_healthy m' \<noteq> 1 \<and> \<not> w_registered m')"
proof -
  define m1 where "m1 = stopHeartbeat (m\<lparr>w_healthy := 0, w_leaseDeadline := 0, w_workerID := -1, w_registered := False\<rparr>)"
  have m1: "in_sync S m1 g" "\<not> w_registered m1" "w_healthy m1 = 0"
    by (simp_all add: m1_def in_sync_def stopHeartbeat_frame)
  obtain x sl ma ga ra where at:
    "attemptRegisterFresh R J (Some f) shut env (w_maxWorkerID m1) 3 0 None m1 g r = (x, sl, ma, ga, ra)"
    by (rule prod_cases5)
  note as = attemptRegisterFresh_sync [OF at m1(1,2)]
  show ?thesis
  proof (cases "w_maxWorkerID m1 < 0")
    case True
    with assms m1 show ?thesis
      by (auto simp: reacquireFreshWorkerID_def Let_def m1_def [symmetric])
  next
    case False
    with assms as at show ?thesis
      by (cases x) (auto simp: reacquireFreshWorkerID_def Let_def m1_def [symmetric] in_sync_def
          split: if_splits)
  qed
qed

lemma tryReRegister_sync:
  assumes "tryReRegister R J (Some f) e m g r = (res, m', g', r')" and "in_sync S m g" and "w_healthy m \<noteq> 1"
  shows "in_sync S m' g' \<and> (res = None \<longrightarrow> w_registered m') \<and> (res \<noteq> None \<longrightarrow> w_healthy m' \<noteq> 1)"
proof (cases "w_redisClient m \<and> w_registered m \<and> \<not> w_workerID m < 0")
  case False
  then have "m' = m \<and> g' = g \<and> res \<noteq> None"
    using assms(1)
    by (cases "w_redisClient m"; cases "w_registered m"; cases "w_workerID m < 0")
       (auto simp: tryReRegister_def)
  with assms(2,3) show ?thesis by auto
next
  case True
  obtain x r1 where b: "beat R J (r_beat e) m r = (x, r1)" by (rule prod.exhaust)
  obtain y mb gb rb where rq: "reacquireFreshWorkerID R J (Some f) (r_shut e) (r_attempts e) (w_workerID m) m g r1
      = (y, mb, gb, rb)" by (rule prod_cases4)
  show ?thesis
    using assms True b rq reacquire_sync [OF rq]
    by (cases x) (auto simp: tryReRegister_def in_sync_def setLeaseDeadline_def split: if_splits)
qed

lemma heartbeatTick_sync:
  assumes "heartbeatTick R J (Some f) e e' k m g r = (k', m', g', r')" and "in_sync S m g"
    and "0 \<le> k" and "k < 2 ^ 62"
  shows "in_sync S m' g' \<and> 0 \<le> k' \<and> (k' > 0 \<longrightarrow> w_healthy m' \<noteq> 1) \<and> k' \<le> k + 1"
proof -
  obtain x m1 r1 where hb: "sendHeartbeat R J e m r = (x, m1, r1)" by (rule prod_cases3)
  have m1: "w_registered m1 = w_registered m" "w_workerID m1 = w_workerID m" "w_healthy m1 = w_healthy m"
    "x = None \<Longrightarrow> w_workerID m \<noteq> -1"
    using hb by (auto simp: sendHeartbeat_def setLeaseDeadline_def split: if_splits prod.splits sum.splits)
  show ?thesis
  proof (cases x)
    case None
    with assms hb m1 show ?thesis
      by (auto simp: heartbeatTick_def Let_def in_sync_def split: if_splits)
  next
    case (Some err)
    define m2 where "m2 = (wprom PromHeartbeatFailures m1)\<lparr>w_healthy := 0\<rparr>"
    have c1: "(1 \<le> k + 1) = True" using assms(3) by simp
    have k: "i64 (k + 1) = k + 1" using assms(3,4) by (simp add: i64_id)
    have m2: "in_sync S m2 g" "w_healthy m2 \<noteq> 1"
      using assms(2) m1 by (simp_all add: m2_def in_sync_def)
    obtain y m3 g3 r3 where tr: "tryReRegister R J (Some f) e' m2 g r1 = (y, m3, g3, r3)"
      by (rule prod_cases4)
    note ts = tryReRegister_sync [OF tr m2]
    have body: "(if k + 1 \<ge> 3 then (case y of Some reregErr \<Rightarrow> (k + 1, m3, g3, r3)
        | None \<Rightarrow> (0, m3\<lparr>w_healthy := 1\<rparr>, g3, r3)) else (k + 1, m2, g, r1)) = (k', m', g', r')"
      using assms(1) tr unfolding heartbeatTick_def hb Some
      by (simp only: Let_def prod.case option.case k c1 if_True m2_def [symmetric])
    show ?thesis
    proof (cases "k + 1 \<ge> 3")
      case False
      with body m2 assms(3) show ?thesis by auto
    next
      case True
      with body ts assms(3) show ?thesis
        by (cases y) (auto simp: in_sync_def)
    qed
  qed
qed

end

end
