(* ===== verification/Worker_Demo.thy ===== *)
theory Worker_Demo
  imports Worker_Recovery Demo
begin

text \<open>
  Concrete instances for the witnesses about worker IDs: a codec that stores the instance ID
  only, calls that arrive at once, and two instances on the in-memory server.
\<close>

definition demo_codec :: codec where
  "demo_codec = \<lparr>marshal = wi_InstanceID,
     ParseWorkerInfo = (\<lambda>s. Some \<lparr>wi_WorkerID = 0, wi_DatacenterID = 0, wi_IP = '''', wi_ServiceName = '''',
       wi_ServiceVersion = '''', wi_RegisterTime = 0, wi_LastHeartbeat = 0, wi_InstanceID = s\<rparr>),
     cjson_decode = (\<lambda>s. LuaTable (Some s))\<rparr>"

lemma demo_codec_ok: "codec_ok demo_codec"
  by (simp add: codec_ok_def demo_codec_def)

text \<open>Instants in milliseconds.\<close>

definition at_ms :: "int \<Rightarrow> int" where
  "at_ms ms = 1700000000000000000 + ms * Millisecond"

definition arrives :: "int \<Rightarrow> mem call" where
  "arrives t = \<lparr>c_before = id, c_at = t, c_net = Reached\<rparr>"

definition demo_ident :: "int \<Rightarrow> ident" where
  "demo_ident pid = \<lparr>id_nano = reading 1 1, id_pid = pid, id_micro = reading 1 1, id_rand = Some 5,
     id_fallback = reading 1 1\<rparr>"

text \<open>An attempt at a given instant by the process \<open>pid\<close>; the clock was read one nanosecond
  before.\<close>

definition demo_attempt :: "int \<Rightarrow> int \<Rightarrow> nat \<Rightarrow> mem attempt_env" where
  "demo_attempt pid ms k = \<lparr>a_done = False, a_incr = arrives (at_ms ms),
     a_now = reading (at_ms ms - 1) (ms * Millisecond), a_ident = demo_ident pid,
     a_setnx = arrives (at_ms ms), a_sadd = arrives (at_ms ms), a_backoffDone = False\<rparr>"

definition demo_manager :: WorkerIDManager where
  "demo_manager = NewWorkerIDManager True 3
     (Some \<lparr>wc_KeyPrefix = ''eon'', wc_TTL = 10 * Second, wc_HeartbeatInterval = 3 * Second,
        wc_ServiceName = ''orders'', wc_ServiceVersion = ''1.0''\<rparr>) ''10.0.0.1''"

text \<open>The instance with process \<open>1\<close> registers at the start, in an empty store.\<close>

definition demo_first :: "(worker_error, int) result \<times> WorkerIDManager \<times> Generator \<times> mem" where
  "demo_first = RegisterWorkerID mem_redis demo_codec (Some SetWorkerID) (demo_attempt 1 0) 31
     demo_manager demo_gen mem_empty"

definition demo_m1 :: WorkerIDManager where "demo_m1 = fst (snd demo_first)"
definition demo_g1 :: Generator where "demo_g1 = fst (snd (snd demo_first))"
definition demo_r1 :: mem where "demo_r1 = snd (snd (snd demo_first))"

lemma demo_first_ok: "fst demo_first = Inr 0"
  by code_simp

lemma demo_first_eq: "RegisterWorkerID mem_redis demo_codec (Some SetWorkerID) (demo_attempt 1 0) 31
     demo_manager demo_gen mem_empty = (Inr 0, demo_m1, demo_g1, demo_r1)"
  using demo_first_ok by (simp add: demo_m1_def demo_g1_def demo_r1_def demo_first_def [symmetric] prod_eq_iff)

lemma demo_m1_facts: "w_workerID demo_m1 = 0 \<and> w_registered demo_m1 \<and> w_healthy demo_m1 = 1 \<and>
    w_leaseDeadline demo_m1 = at_ms 10000 - 1 \<and> w_keyPrefix demo_m1 = ''eon:'' \<and>
    w_instanceID demo_m1 = ''instance-1-3-1-0-5''"
  by code_simp

text \<open>The instance with process \<open>2\<close> registers one second later; the first one's key is live.\<close>

definition demo_second :: "(worker_error, int) result \<times> WorkerIDManager \<times> Generator \<times> mem" where
  "demo_second = RegisterWorkerID mem_redis demo_codec (Some SetWorkerID) (demo_attempt 2 1000) 31
     demo_manager demo_gen demo_r1"

definition demo_m2 :: WorkerIDManager where "demo_m2 = fst (snd demo_second)"
definition demo_g2 :: Generator where "demo_g2 = fst (snd (snd demo_second))"
definition demo_r2 :: mem where "demo_r2 = snd (snd (snd demo_second))"

lemma demo_second_ok: "fst demo_second = Inr 1"
  by code_simp

lemma demo_second_eq: "RegisterWorkerID mem_redis demo_codec (Some SetWorkerID) (demo_attempt 2 1000) 31
     demo_manager demo_gen demo_r1 = (Inr 1, demo_m2, demo_g2, demo_r2)"
  using demo_second_ok
  by (simp add: demo_m2_def demo_g2_def demo_r2_def demo_second_def [symmetric] prod_eq_iff)

lemma demo_m2_facts: "w_workerID demo_m2 = 1 \<and> w_instanceID demo_m2 = ''instance-1-3-2-0-5'' \<and>
    w_healthy demo_m2 = 1 \<and> w_leaseDeadline demo_m2 = at_ms 11000 - 1"
  by code_simp

text \<open>Attempts of a manager with the demonstration's TTL, without interference.\<close>

lemma demo_attempt_ok:
  assumes "0 \<le> ms" and "ms < 1000000" and "w_ttl m = 10 * Second"
  shows "\<forall>k. attempt_ok R J m (demo_attempt pid ms k)"
  using assms
  by (simp add: attempt_ok_def demo_attempt_def arrives_def at_ms_def keeps_mine_def)

lemma demo_quiet: "quiet_envs (demo_attempt pid ms)"
  by (simp add: quiet_envs_def quiet_def demo_attempt_def arrives_def)

lemma demo_ttl: "w_ttl demo_manager = 10 * Second" "\<not> w_registered demo_manager"
  "w_keyPrefix demo_manager = ''eon:''" "w_datacenterID demo_manager = 3"
  "w_redisClient demo_manager" "w_shuttingDown demo_manager \<noteq> 1"
  by (simp_all add: demo_manager_def NewWorkerIDManager_def Let_def NormalizeKeyPrefix_def)

lemma demo_m1_lease: "lease_held mem_redis demo_codec (at_ms 0) 0 demo_m1 demo_r1"
proof -
  note l = mem.RegisterWorkerID_lease [OF demo_codec_ok demo_attempt_ok demo_ttl(2) demo_first_eq]
  show ?thesis using l demo_ttl(1) by (auto simp: demo_attempt_def arrives_def)
qed

text \<open>A beat at \<open>ms\<close> whose reply is read \<open>late\<close> milliseconds later.\<close>

definition demo_beat :: "int \<Rightarrow> int \<Rightarrow> mem beat_env" where
  "demo_beat ms late = \<lparr>b_infoNow = reading (at_ms ms - 1) (ms * Millisecond), b_call = arrives (at_ms ms),
     b_after = reading (at_ms (ms + late)) ((ms + late) * Millisecond)\<rparr>"

definition demo_beaten :: "worker_error option \<times> WorkerIDManager \<times> mem" where
  "demo_beaten = sendHeartbeat mem_redis demo_codec (demo_beat 3000 2) demo_m1 demo_r1"

lemma demo_beaten_facts: "fst demo_beaten = None \<and> w_leaseDeadline (fst (snd demo_beaten)) = at_ms 13002"
  by code_simp

end
