(* ===== verification/Worker_Exclusion.thy ===== *)
theory Worker_Exclusion
  imports Worker_Safety
begin

text \<open>
  Whole operations leave the keys of the other instances alone, so that two instances whose
  leases run at the same time have different worker IDs.
\<close>

section \<open>Registration\<close>

text \<open>The server-side effect of a registration on another instance, whose keys the
  interference keeps: at no step are they touched.\<close>

definition spares :: "'r redis \<Rightarrow> codec \<Rightarrow> string \<Rightarrow> string \<Rightarrow> int \<Rightarrow> 'r attempt_env \<Rightarrow> bool" where
  "spares R J p inst T e \<longleftrightarrow>
     c_at (a_incr e) \<le> T \<and> c_at (a_setnx e) \<le> T \<and> c_at (a_sadd e) \<le> T \<and>
     (\<forall>r. keeps_mine R J p inst T r (c_before (a_incr e) r) \<and>
          keeps_mine R J p inst T r (c_before (a_setnx e) r) \<and>
          keeps_mine R J p inst T r (c_before (a_sadd e) r))"

lemma keeps_mine_refl: "keeps_mine R J p inst T r r"
  by (simp add: keeps_mine_def)

lemma keeps_mine_trans:
  "keeps_mine R J p inst T r r' \<Longrightarrow> keeps_mine R J p inst T r' r'' \<Longrightarrow> keeps_mine R J p inst T r r''"
  by (simp add: keeps_mine_def)

lemma keeps_mine_same:
  assumes "now \<le> T" and "\<And>dc w. same_key R now (workerKey p dc w) r r'"
  shows "keeps_mine R J p inst T r r'"
  using assms by (simp add: keeps_mine_def held_def same_key_def)

lemma keeps_mine_issue:
  assumes "issue c cmd r = (x, r')" and "keeps_mine R J p inst T r (c_before c r)"
    and "\<And>r. keeps_mine R J p inst T r (snd (cmd (c_at c) r))"
  shows "keeps_mine R J p inst T r r'"
  using assms keeps_mine_trans
  by (fastforce simp: issue_def Let_def split: net.splits prod.splits)

context redis_server
begin

lemma setnx_keeps:
  "now \<le> T \<Longrightarrow> keeps_mine R J p inst T r (snd (SETNX R now k v d r))"
  using setnx_leaves [of J p "inst @ ''x''" now r k v d] by (simp add: leaves_others_def keeps_mine_def)

lemma counter_keeps:
  assumes "now \<le> T" and "p = w_keyPrefix m"
  shows "keeps_mine R J p inst T r (snd (LuaScriptIncrWithReset R now (getCounterKey m) n r))"
proof -
  obtain x r' where s: "LuaScriptIncrWithReset R now (getCounterKey m) n r = (x, r')" by (rule prod.exhaust)
  from keeps_mine_same [OF assms(1) counter_leaves [OF s assms(2)]] s show ?thesis by simp
qed

lemma registered_as_keeps:
  assumes "registered_as R cb e w m g r = (m', g', r')" and "spares R J (w_keyPrefix m) inst T e"
  shows "keeps_mine R J (w_keyPrefix m) inst T r r'"
proof -
  let ?f = "\<lambda>now r. SADD R now (getRegistryKey m) (registryMember (w_datacenterID m) w) r"
  have r': "r' = snd (issue (a_sadd e) (\<lambda>now r. ((), ?f now r)) r)"
    using assms(1) by (auto simp: registered_as_def Let_def setLeaseDeadline_def getRegistryKey_def)
  have "keeps_mine R J (w_keyPrefix m) inst T x (snd ((), ?f (c_at (a_sadd e)) x))" for x
    using assms(2) keeps_mine_same [OF _ registry_leaves(1) [OF refl]] by (simp add: spares_def)
  moreover obtain x r1 where i: "issue (a_sadd e) (\<lambda>now r. ((), ?f now r)) r = (x, r1)" by (rule prod.exhaust)
  ultimately show ?thesis
    using assms(2) keeps_mine_issue [OF i] unfolding r' spares_def by simp
qed

lemma registerLoop_keeps:
  assumes "registerLoop R J cb env n left i m g r = (res, m', g', r')"
    and "\<forall>k. spares R J (w_keyPrefix m) inst T (env k)"
  shows "keeps_mine R J (w_keyPrefix m) inst T r r' \<and> w_keyPrefix m' = w_keyPrefix m \<and>
    w_datacenterID m' = w_datacenterID m"
  using assms
proof (induction left arbitrary: i m g r)
  case 0
  then show ?case by (auto simp: keeps_mine_refl)
next
  case (Suc left)
  let ?e = "env i" and ?p = "w_keyPrefix m"
  let ?m = "m\<lparr>w_instanceID := generateInstanceID m (a_ident ?e)\<rparr>"
  have sp: "spares R J ?p inst T ?e" using Suc.prems(2) by simp
  obtain x r1 where i1: "issue (a_incr ?e) (\<lambda>now. LuaScriptIncrWithReset R now (getCounterKey m) n) r = (x, r1)"
    by (rule prod.exhaust)
  have k1: "keeps_mine R J ?p inst T r r1"
    using sp by (intro keeps_mine_issue [OF i1] counter_keeps) (simp_all add: spares_def)
  show ?case
  proof (cases "a_done ?e \<or> x = None \<or> x = Some None")
    case True
    with Suc.prems(1) i1 k1 show ?thesis by (auto simp: Let_def keeps_mine_refl split: if_splits)
  next
    case False
    then obtain c where x: "x = Some (Some c)" by (metis not_None_eq)
    let ?w = "i64 (c - 1)"
    obtain y r2 where s2: "issue (a_setnx ?e) (\<lambda>now. SETNX R now (getWorkerKey ?m ?w)
        (marshal J (newInfo ?m ?w (a_now ?e))) (w_ttl ?m)) r1 = (y, r2)" by (rule prod.exhaust)
    have "keeps_mine R J ?p inst T r1 r2"
      using sp by (intro keeps_mine_issue [OF s2] setnx_keeps) (simp_all add: spares_def)
    with k1 have k2: "keeps_mine R J ?p inst T r r2" by (rule keeps_mine_trans)
    have body: "(case y of None \<Rightarrow> (Inl (SetNXFailed ?w), ?m, g, r2)
        | Some success \<Rightarrow> if success then (let (m, g, r) = registered_as R cb ?e ?w ?m g r2 in (Inr ?w, m, g, r))
            else if a_backoffDone ?e then (Inl ContextDone, ?m, g, r2)
            else registerLoop R J cb env n left (Suc i) ?m g r2) = (res, m', g', r')"
      using Suc.prems(1) False i1 x s2 by (simp add: Let_def redisResultToInt64_def)
    consider (stop) "y = None \<or> y = Some False \<and> a_backoffDone ?e" | (won) "y = Some True"
      | (next_one) "y = Some False" "\<not> a_backoffDone ?e" by (cases y) auto
    then show ?thesis
    proof cases
      case stop
      with body k2 show ?thesis by auto
    next
      case won
      obtain ma ga ra where reg: "registered_as R cb ?e ?w ?m g r2 = (ma, ga, ra)" by (rule prod_cases3)
      have "keeps_mine R J ?p inst T r2 ra" using registered_as_keeps [OF reg] sp by simp
      moreover have "w_keyPrefix ma = ?p" "w_datacenterID ma = w_datacenterID m"
        using reg by (auto simp: registered_as_def Let_def setLeaseDeadline_def)
      ultimately show ?thesis using body won reg k2 keeps_mine_trans by auto
    next
      case next_one
      then have "registerLoop R J cb env n left (Suc i) ?m g r2 = (res, m', g', r')" using body by simp
      from Suc.IH [OF this] Suc.prems(2) k2 keeps_mine_trans show ?thesis by auto
    qed
  qed
qed

end

section \<open>Two instances\<close>

lemma lease_kept:
  assumes "lease_held R J t slack m r" and "keeps_mine R J (w_keyPrefix m) (w_instanceID m) T r r'" and "t \<le> T"
  shows "lease_held R J T slack m r'"
  using assms by (auto simp: lease_held_def keeps_mine_def getWorkerKey_def)

lemma worker_IsHealthy_lease:
  "fst (worker_IsHealthy now m) \<Longrightarrow> w_leaseDeadline m \<noteq> 0 \<Longrightarrow> UnixNano now \<le> w_leaseDeadline m"
  by (auto simp: worker_IsHealthy_def Let_def split: if_splits)

lemma second_registration_aux:
  assumes R: "redis_server R" and J: "codec_ok J"
    and first: "lease_held R J t1 slack m1 r" "t1 \<le> T"
    and same: "w_keyPrefix m2 = w_keyPrefix m1" "w_datacenterID m2 = w_datacenterID m1"
    and ok: "\<forall>k. attempt_ok R J m2 (env k)" and new: "\<not> w_registered m2" "0 < w_ttl m2"
    and sp: "\<forall>k. spares R J (w_keyPrefix m1) (w_instanceID m1) T (env k)"
    and reg: "RegisterWorkerID R J cb env maxW m2 g r = (Inr w, m2', g', r')"
    and ids: "w_instanceID m2' \<noteq> w_instanceID m1"
    and now: "T \<le> UnixNano now" "UnixNano now \<le> w_leaseDeadline m1 - slack" "fst (worker_IsHealthy now m2')"
  shows "w_workerID m2' = w \<and> w \<noteq> w_workerID m1"
proof -
  let ?m = "m2\<lparr>w_maxWorkerID := maxW\<rparr>"
  have loop: "registerLoop R J cb env (i64 (maxW + 1)) (nat (i64 (maxW + 1))) 0 ?m g r = (Inr w, m2', g', r')"
    using reg new by (simp add: RegisterWorkerID_def Let_def split: if_splits)
  have k: "keeps_mine R J (w_keyPrefix m1) (w_instanceID m1) T r r'"
    and f: "w_keyPrefix m2' = w_keyPrefix m1" "w_datacenterID m2' = w_datacenterID m1"
    using redis_server.registerLoop_keeps [OF R loop, of "w_instanceID m1" T] sp same by simp_all
  note l1 = lease_kept [OF first(1) k first(2)]
  obtain j where j: "w_workerID m2' = w" "w_leaseDeadline m2' = wall (a_now (env j)) + w_ttl m2"
    "lease_held R J (c_at (a_sadd (env j))) 0 m2' r'"
    using redis_server.RegisterWorkerID_lease [OF R J ok new(1) reg] by blast
  have "0 \<le> wall (a_now (env j))" "c_at (a_sadd (env j)) \<le> T"
    using ok sp by (simp_all add: attempt_ok_def spares_def)
  then have l2: "lease_held R J T 0 m2' r'" and d: "w_leaseDeadline m2' \<noteq> 0"
    using j new(2) by (auto simp: lease_held_def)
  from worker_IsHealthy_lease [OF now(3) d] have "UnixNano now \<le> w_leaseDeadline m2' - 0" by simp
  from leases_disjoint [OF l2 l1 now(1) this now(2) ids f] j(1) show ?thesis by simp
qed

section \<open>Deregistration\<close>

lemma UnregisterWorkerID_state:
  assumes "UnregisterWorkerID R J e m r = (err, m', r')"
  shows "w_shuttingDown m' = 1 \<and> (w_registered m \<longrightarrow> \<not> w_registered m' \<and> w_workerID m' = -1 \<and>
      w_healthy m' = 0 \<and> w_heartbeatCancel m' = None \<and>
      (\<forall>c. w_heartbeatCancel m = Some c \<longrightarrow> c \<in> set (w_cancelled m'))) \<and>
    (\<not> w_registered m \<longrightarrow> m' = m\<lparr>w_shuttingDown := 1\<rparr> \<and> r' = r)"
  using assms
  by (auto simp: UnregisterWorkerID_def Let_def stopHeartbeat_def wprom_def
      split: if_splits option.splits prod.splits)

context redis_server
begin

lemma del_keeps:
  assumes own: "held R J now (workerKey p dc w) inst r" and "now \<le> T" and "i \<noteq> inst"
  shows "keeps_mine R J p i T r (DEL R now (workerKey p dc w) r)"
proof -
  have "held R J t (workerKey p dc' w') i (DEL R now (workerKey p dc w) r)"
    if t: "T \<le> t" and h: "held R J t (workerKey p dc' w') i r" for dc' w' t
  proof -
    have nt: "now \<le> t" using t assms(2) by simp
    have "workerKey p dc' w' \<noteq> workerKey p dc w"
      using get_earlier [OF nt] h own assms(3) by (auto simp: held_def)
    from del_other [OF this, of now r] h nt show ?thesis by (simp add: held_def same_key_def)
  qed
  then show ?thesis by (simp add: keeps_mine_def)
qed

lemma stopHeartbeat_keys [simp]:
  "w_keyPrefix (stopHeartbeat m) = w_keyPrefix m" "w_datacenterID (stopHeartbeat m) = w_datacenterID m"
  by (simp_all add: stopHeartbeat_def split: option.split)

text \<open>What a deregistration may do to the store.\<close>

lemma unregister_store:
  assumes run: "UnregisterWorkerID R J e m r = (err, m', r')"
    and r1: "issue (u_get e) (\<lambda>now r. (GET R now (getWorkerKey m (w_workerID m)) r, r)) r = (x, r1)"
    and d: "d = (\<lambda>r. snd (issue (u_del e) (\<lambda>now r. ((), DEL R now (getWorkerKey m (w_workerID m)) r)) r))"
    and s: "s = (\<lambda>r. snd (issue (u_srem e) (\<lambda>now r. ((), SREM R now (getRegistryKey m)
      (registryMember (w_datacenterID m) (w_workerID m)) r)) r))"
  shows "r' \<in> {r, r1, s r1, s (d r1)}"
proof (cases "w_registered m \<and> w_redisClient m")
  case False
  with run show ?thesis by (cases "w_registered m") (auto simp: UnregisterWorkerID_def Let_def)
next
  case True
  have run': "(case (x, r1) of
           (None, r) \<Rightarrow> r
         | (Some None, r) \<Rightarrow> s r
         | (Some (Some infoStr), r) \<Rightarrow>
             (case ParseWorkerInfo J infoStr of
                None \<Rightarrow> r
              | Some info \<Rightarrow> if wi_InstanceID info \<noteq> w_instanceID m then r else s (d r))) = r'"
    using True run r1
    by (auto simp: UnregisterWorkerID_def Let_def getWorkerKey_def getRegistryKey_def d s wprom_def
        split: option.splits prod.splits if_splits)
  then show ?thesis by (auto split: option.splits if_splits)
qed

lemma keeps_mine_unit:
  assumes "keeps_mine R J p i T r (c_before c r)"
    and "keeps_mine R J p i T (c_before c r) (f (c_at c) (c_before c r))"
  shows "keeps_mine R J p i T r (snd (issue c (\<lambda>now r. ((), f now r)) r))"
  using issue_unit [of c f r] assms(1) keeps_mine_trans [OF assms] by auto

lemma keeps_mine_stages:
  assumes "r' \<in> {r, g, s g, s (d g)}" and "keeps_mine R J p i T r g"
    and "\<And>x. keeps_mine R J p i T x (s x)" and "keeps_mine R J p i T g (d g)"
  shows "keeps_mine R J p i T r r'"
  using assms(1)
  by (auto intro: keeps_mine_refl assms(2) keeps_mine_trans [OF assms(2) assms(3)]
      keeps_mine_trans [OF keeps_mine_trans [OF assms(2,4)] assms(3)])

lemma unregister_safe:
  assumes run: "UnregisterWorkerID R J e m r = (err, m', r')"
    and lease: "lease_held R J t0 slack m r" "t0 \<le> c_at (u_get e)" "c_at (u_get e) \<le> c_at (u_del e)"
      "c_at (u_del e) \<le> w_leaseDeadline m - slack"
    and mine: "\<forall>r. keeps_mine R J (w_keyPrefix m) (w_instanceID m) (c_at (u_get e)) r (c_before (u_get e) r) \<and>
      keeps_mine R J (w_keyPrefix m) (w_instanceID m) (c_at (u_del e)) r (c_before (u_del e) r)"
    and others: "\<forall>r. keeps_mine R J (w_keyPrefix m) i T r (c_before (u_get e) r) \<and>
      keeps_mine R J (w_keyPrefix m) i T r (c_before (u_del e) r) \<and>
      keeps_mine R J (w_keyPrefix m) i T r (c_before (u_srem e) r)"
    and T: "c_at (u_del e) \<le> T" "c_at (u_srem e) \<le> T" and i: "i \<noteq> w_instanceID m"
  shows "keeps_mine R J (w_keyPrefix m) i T r r'"
proof -
  let ?p = "w_keyPrefix m" and ?k = "getWorkerKey m (w_workerID m)"
  let ?g = "snd (issue (u_get e) (\<lambda>now r. (GET R now ?k r, r)) r)"
  let ?d = "\<lambda>r. snd (issue (u_del e) (\<lambda>now r. ((), DEL R now ?k r)) r)"
  let ?s = "\<lambda>r. snd (issue (u_srem e) (\<lambda>now r. ((), SREM R now (getRegistryKey m) (registryMember (w_datacenterID m) (w_workerID m)) r)) r)"
  have g: "?g = c_before (u_get e) r" by (auto simp: issue_def Let_def split: net.split)
  have kg: "keeps_mine R J ?p i T r ?g" using others g by simp
  have ks: "keeps_mine R J ?p i T x (?s x)" for x
    using others keeps_mine_same [OF T(2) registry_leaves(2) [OF refl]]
    by (intro keeps_mine_unit) simp_all
  have kd: "keeps_mine R J ?p i T ?g (?d ?g)"
  proof -
    have "held R J (c_at (u_del e)) ?k (w_instanceID m) (c_before (u_del e) ?g)"
    proof -
      have "held R J (c_at (u_del e)) ?k (w_instanceID m) r" using lease by (simp add: lease_held_def)
      then have "held R J (c_at (u_del e)) ?k (w_instanceID m) ?g"
        using mine lease(3) unfolding g by (simp add: keeps_mine_def getWorkerKey_def)
      then show ?thesis using mine by (simp add: keeps_mine_def getWorkerKey_def)
    qed
    from del_keeps [OF this [unfolded getWorkerKey_def] T(1) i]
    have "keeps_mine R J ?p i T (c_before (u_del e) ?g) (DEL R (c_at (u_del e)) ?k (c_before (u_del e) ?g))"
      by (simp add: getWorkerKey_def)
    moreover have "keeps_mine R J ?p i T ?g (c_before (u_del e) ?g)" using others by simp
    ultimately show ?thesis by (intro keeps_mine_unit)
  qed
  obtain x r1 where i1: "issue (u_get e) (\<lambda>now r. (GET R now ?k r, r)) r = (x, r1)" by (rule prod.exhaust)
  have "r' \<in> {r, ?g, ?s ?g, ?s (?d ?g)}"
    using unregister_store [OF run i1 refl refl] i1 by simp
  show ?thesis by (rule keeps_mine_stages [where s = ?s and d = ?d and g = ?g]) fact+
qed

end

end
