(* ===== verification/Worker_Props.thy ===== *)
theory Worker_Props
  imports Worker_Demo Worker_Exclusion
begin

text \<open>
  The properties of the worker ID manager, with witnesses on the in-memory server. Redis and
  the JSON codec are arguments; \<open>redis_server\<close> and \<open>codec_ok\<close> are what is relied on.
\<close>

section \<open>Leases\<close>

text \<open>No two instances use one worker ID at a time. While an instance's lease runs, another
  instance that registers against the same Redis, with any interference that leaves the first
  one's keys alone, obtains a different worker ID; at every later instant at which its own
  manager reports health and the first lease still runs, the two IDs differ.\<close>

theorem exclusive_worker_ids:
  assumes "redis_server R" and "codec_ok J"
    and "lease_held R J t1 slack m1 r" and "t1 \<le> T"
    and "w_keyPrefix m2 = w_keyPrefix m1" and "w_datacenterID m2 = w_datacenterID m1"
    and "\<forall>k. attempt_ok R J m2 (env k)" and "\<not> w_registered m2" and "0 < w_ttl m2"
    and "\<forall>k. spares R J (w_keyPrefix m1) (w_instanceID m1) T (env k)"
    and "RegisterWorkerID R J cb env maxW m2 g r = (Inr w, m2', g', r')"
    and "w_instanceID m2' \<noteq> w_instanceID m1"
    and "T \<le> UnixNano now" and "UnixNano now \<le> w_leaseDeadline m1 - slack"
    and "fst (worker_IsHealthy now m2')"
  shows "w_workerID m2' = w \<and> w \<noteq> w_workerID m1"
  by (rule second_registration_aux [OF assms])

lemma exclusive_worker_ids_witness: "w_workerID demo_m2 = 1 \<and> 1 \<noteq> w_workerID demo_m1"
proof (rule exclusive_worker_ids [OF mem.redis_server_axioms demo_codec_ok demo_m1_lease _ _ _
      demo_attempt_ok demo_ttl(2) _ _ demo_second_eq])
  show "w_datacenterID demo_manager = w_datacenterID demo_m1" by code_simp
  show "\<forall>k. spares mem_redis demo_codec (w_keyPrefix demo_m1) (w_instanceID demo_m1) (at_ms 1000) (demo_attempt 2 1000 k)"
    by (simp add: spares_def demo_attempt_def arrives_def keeps_mine_refl)
  show "w_instanceID demo_m2 \<noteq> w_instanceID demo_m1"
    using demo_m1_facts demo_m2_facts by simp
  show "at_ms 1000 \<le> UnixNano (demo_time 5000)" "UnixNano (demo_time 5000) \<le> w_leaseDeadline demo_m1 - 0"
    using demo_m1_facts by (simp_all add: UnixNano_def demo_time_def at_ms_def i64_id)
  show "fst (worker_IsHealthy (demo_time 5000) demo_m2)"
    using demo_m2_facts by (simp add: worker_IsHealthy_def UnixNano_def demo_time_def at_ms_def i64_id Let_def)
qed (use demo_ttl demo_m1_facts in \<open>simp_all add: at_ms_def\<close>)

text \<open>A registration that succeeds leaves the manager registered and healthy under the
  returned ID and the instance ID of the attempt, runs the callback with that ID, sets the
  lease to end one TTL after the clock reading of the attempt, and until then Redis holds the
  worker's key for this instance.\<close>

theorem register_holds_lease:
  assumes "redis_server R" and "codec_ok J" and "\<forall>k. attempt_ok R J m (env k)" and "\<not> w_registered m"
    and "RegisterWorkerID R J cb env maxW m g r = (Inr w, m', g', r')"
  shows "\<exists>k. w_registered m' \<and> w_workerID m' = w \<and> w_healthy m' = 1 \<and>
    w_instanceID m' = generateInstanceID m (a_ident (env k)) \<and>
    w_leaseDeadline m' = wall (a_now (env k)) + w_ttl m \<and>
    lease_held R J (c_at (a_sadd (env k))) 0 m' r' \<and>
    g' = (case cb of None \<Rightarrow> g | Some f \<Rightarrow> f w g)"
  using redis_server.RegisterWorkerID_lease assms by metis

lemma register_holds_lease_witness:
  "\<exists>k. w_registered demo_m1 \<and> w_workerID demo_m1 = 0 \<and> w_healthy demo_m1 = 1 \<and>
    w_instanceID demo_m1 = generateInstanceID demo_manager (a_ident (demo_attempt 1 0 k)) \<and>
    w_leaseDeadline demo_m1 = wall (a_now (demo_attempt 1 0 k)) + w_ttl demo_manager \<and>
    lease_held mem_redis demo_codec (c_at (a_sadd (demo_attempt 1 0 k))) 0 demo_m1 demo_r1 \<and>
    demo_g1 = SetWorkerID 0 demo_gen"
  using register_holds_lease [OF mem.redis_server_axioms demo_codec_ok demo_attempt_ok demo_ttl(2) demo_first_eq]
    demo_ttl(1) by simp

text \<open>C14: A heartbeat keeps the lease: whatever its outcome, until \<open>slack\<close> before the (possibly
  extended) end of the lease, Redis still holds the worker's key for this instance. The slack
  is the way of the reply and the fraction of a second of the TTL, which Redis never sees.\<close>

theorem heartbeat_keeps_lease:
  assumes "redis_server R" and "codec_ok J" and "beat_ok R J slack m e"
    and "sendHeartbeat R J e m r = (err, m', r')" and "lease_held R J t0 slack m r"
  shows "lease_held R J (max t0 (c_at (b_call e))) slack m' r' \<and> w_workerID m' = w_workerID m \<and>
    w_instanceID m' = w_instanceID m \<and> w_registered m' = w_registered m"
  using redis_server.sendHeartbeat_lease assms by metis

lemma heartbeat_keeps_lease_witness:
  "lease_held mem_redis demo_codec (max (at_ms 0) (at_ms 3000)) (3 * Millisecond) (fst (snd demo_beaten)) (snd (snd demo_beaten)) \<and>
   w_workerID (fst (snd demo_beaten)) = w_workerID demo_m1 \<and>
   w_instanceID (fst (snd demo_beaten)) = w_instanceID demo_m1 \<and>
   w_registered (fst (snd demo_beaten)) = w_registered demo_m1"
proof -
  have ttl: "w_ttl demo_m1 = 10 * Second" by code_simp
  have ok: "beat_ok mem_redis demo_codec (3 * Millisecond) demo_m1 (demo_beat 3000 2)"
    using demo_m1_facts
    by (simp add: beat_ok_def ttl demo_beat_def arrives_def at_ms_def keeps_mine_refl)
       (simp add: ascii_def)
  have run: "sendHeartbeat mem_redis demo_codec (demo_beat 3000 2) demo_m1 demo_r1 =
      (fst demo_beaten, fst (snd demo_beaten), snd (snd demo_beaten))"
    by (simp add: demo_beaten_def)
  have l: "lease_held mem_redis demo_codec (at_ms 0) (3 * Millisecond) demo_m1 demo_r1"
    using demo_m1_lease by (simp add: lease_held_def)
  show ?thesis
    using heartbeat_keeps_lease [OF mem.redis_server_axioms demo_codec_ok ok run l]
    by (simp add: demo_beat_def arrives_def)
qed

section \<open>The search for a free ID\<close>

lemma tried_surj:
  assumes "0 \<le> w" and "w < n"
  shows "\<exists>j < nat n. tried c n j = w"
proof (intro exI conjI)
  let ?j = "nat ((w - c) mod n)"
  have b: "0 \<le> (w - c) mod n" "(w - c) mod n < n" using assms by simp_all
  then show "?j < nat n" by simp
  have "tried c n ?j = (c + (w - c) mod n) mod n" using b by (simp add: tried_def)
  also have "\<dots> = (c + (w - c)) mod n" by (rule mod_add_right_eq)
  finally show "tried c n ?j = w" using assms by simp
qed

lemma tried_range: "0 < n \<Longrightarrow> 0 \<le> tried c n j \<and> tried c n j < n"
  by (simp add: tried_def)

lemma finds_free_aux:
  assumes R: "redis_server R" and env: "quiet_envs env"
    and c: "counter_is R (c_at (a_incr (env 0))) (getCounterKey m) c r" "0 \<le> c"
    and W: "0 \<le> maxW" "maxW < 2 ^ 63 - 1"
    and m: "w_redisClient m" "w_shuttingDown m \<noteq> 1" "\<not> w_registered m"
    and run: "RegisterWorkerID R J cb env maxW m g r = (res, m', g', r')"
  shows "(\<exists>j w. res = Inr w \<and> w = tried c (maxW + 1) j \<and> 0 \<le> w \<and> w \<le> maxW \<and>
       GET R (c_at (a_setnx (env j))) (getWorkerKey m w) r = None \<and>
       (\<forall>i < j. GET R (c_at (a_setnx (env i))) (getWorkerKey m (tried c (maxW + 1) i)) r \<noteq> None) \<and>
       w_registered m' \<and> w_workerID m' = w \<and> w_healthy m' = 1) \<or>
    (res = Inl (AllOccupied (maxW + 1)) \<and> w_healthy m' = 0 \<and>
       (\<forall>w. 0 \<le> w \<and> w \<le> maxW \<longrightarrow> (\<exists>i. GET R (c_at (a_setnx (env i))) (getWorkerKey m w) r \<noteq> None)))"
proof -
  let ?n = "maxW + 1" and ?m = "m\<lparr>w_maxWorkerID := maxW\<rparr>"
  have n: "i64 ?n = ?n" "0 < ?n" "?n < 2 ^ 63" using W by (simp_all add: i64_id)
  have loop: "registerLoop R J cb env ?n (nat ?n) 0 ?m g r = (res, m', g', r')"
    using run m W n(1) by (simp add: RegisterWorkerID_def Let_def)
  have key: "getWorkerKey ?m = getWorkerKey m" "getCounterKey ?m = getCounterKey m"
    by (simp_all add: getWorkerKey_def getCounterKey_def fun_eq_iff)
  from redis_server.registerLoop_quiet [OF R env _ c(2) n(2,3) loop] c(1)
  have "(\<exists>j < nat ?n. \<not> taken R ?m env c ?n 0 r j \<and> (\<forall>j' < j. taken R ?m env c ?n 0 r j') \<and>
       res = Inr (tried c ?n j) \<and> w_workerID m' = tried c ?n j \<and> w_registered m' \<and> w_healthy m' = 1) \<or>
    (\<forall>j < nat ?n. taken R ?m env c ?n 0 r j) \<and> res = Inl (AllOccupied ?n) \<and> w_healthy m' = 0"
    by (simp add: key)
  then show ?thesis
  proof
    assume "\<exists>j < nat ?n. \<not> taken R ?m env c ?n 0 r j \<and> (\<forall>j' < j. taken R ?m env c ?n 0 r j') \<and>
       res = Inr (tried c ?n j) \<and> w_workerID m' = tried c ?n j \<and> w_registered m' \<and> w_healthy m' = 1"
    with tried_range [OF n(2)] show ?thesis by (force simp: taken_def key)
  next
    assume all: "(\<forall>j < nat ?n. taken R ?m env c ?n 0 r j) \<and> res = Inl (AllOccupied ?n) \<and> w_healthy m' = 0"
    have "\<exists>i. GET R (c_at (a_setnx (env i))) (getWorkerKey m w) r \<noteq> None" if "0 \<le> w" "w \<le> maxW" for w
    proof -
      have "w < ?n" using that(2) by simp
      from tried_surj [OF that(1) this, of c] obtain j where j: "j < nat ?n" "tried c ?n j = w" by blast
      with all have "taken R ?m env c ?n 0 r j" by simp
      with j(2) have "GET R (c_at (a_setnx (env j))) (getWorkerKey m w) r \<noteq> None" by (simp add: taken_def key)
      then show ?thesis by blast
    qed
    with all show ?thesis by simp
  qed
qed

text \<open>C12: Undisturbed, registration tries the worker IDs in the order of the shared counter, takes
  the first whose key is free, and reports that all IDs are occupied only if every ID from 0
  to the maximum was indeed taken; the manager is healthy exactly in the first case.\<close>

theorem register_finds_free:
  assumes "redis_server R" and "quiet_envs env"
    and "counter_is R (c_at (a_incr (env 0))) (getCounterKey m) c r" and "0 \<le> c"
    and "0 \<le> maxW" and "maxW < 2 ^ 63 - 1"
    and "w_redisClient m" and "w_shuttingDown m \<noteq> 1" and "\<not> w_registered m"
    and "RegisterWorkerID R J cb env maxW m g r = (res, m', g', r')"
  shows "(\<exists>j w. res = Inr w \<and> w = tried c (maxW + 1) j \<and> 0 \<le> w \<and> w \<le> maxW \<and>
       GET R (c_at (a_setnx (env j))) (getWorkerKey m w) r = None \<and>
       (\<forall>i < j. GET R (c_at (a_setnx (env i))) (getWorkerKey m (tried c (maxW + 1) i)) r \<noteq> None) \<and>
       w_registered m' \<and> w_workerID m' = w \<and> w_healthy m' = 1) \<or>
    (res = Inl (AllOccupied (maxW + 1)) \<and> w_healthy m' = 0 \<and>
       (\<forall>w. 0 \<le> w \<and> w \<le> maxW \<longrightarrow> (\<exists>i. GET R (c_at (a_setnx (env i))) (getWorkerKey m w) r \<noteq> None)))"
  by (rule finds_free_aux [OF assms])

lemma register_finds_free_witness:
  "\<exists>j. 0 = tried 0 32 j \<and> mem_get (at_ms 0) (getWorkerKey demo_manager 0) mem_empty = None"
proof -
  have c: "counter_is mem_redis (c_at (a_incr (demo_attempt 1 0 0))) (getCounterKey demo_manager) 0 mem_empty"
    by (simp add: counter_is_def mem_get_def mem_empty_def)
  from register_finds_free [OF mem.redis_server_axioms demo_quiet c _ _ _ demo_ttl(5,6,2) demo_first_eq]
  show ?thesis by (auto simp: demo_attempt_def arrives_def)
qed

text \<open>However the instances interleave, as many consecutive calls of the counter script as
  there are worker IDs yield every ID once (plus one, as the script counts from 1), from
  whatever value the counter had: the search of an instance that is not interrupted visits
  every ID.\<close>

theorem counter_cycle:
  assumes "redis_server R" and "counter_is R now key c r" and "0 \<le> c" and "0 < totalIDs"
    and "sorted (now # ts)" and "int (length ts) = totalIDs"
  shows "\<exists>xs. fst (incr_calls R key totalIDs ts r) = map Some xs \<and> distinct xs \<and> set xs = {1..totalIDs}"
  by (rule counter_cycle_aux [OF assms])

lemma counter_cycle_witness:
  "\<exists>xs. fst (incr_calls mem_redis ''k'' 3 [1, 2, 2] (mem_put ''k'' (show_int 7) None mem_empty)) = map Some xs \<and>
    distinct xs \<and> set xs = {1..3}"
proof (rule counter_cycle [OF mem.redis_server_axioms])
  show "counter_is mem_redis 1 ''k'' 7 (mem_put ''k'' (show_int 7) None mem_empty)"
    by (simp add: counter_is_def)
qed simp_all

section \<open>Health follows the heartbeat\<close>

text \<open>The plugin's callback: the generator uses the worker ID if it is one it can use.\<close>

definition uses_worker :: "int \<Rightarrow> Generator \<Rightarrow> bool" where
  "uses_worker w g \<longleftrightarrow> (0 \<le> w \<and> w \<le> g_maxWorkerID g \<longrightarrow> g_workerID g = w)"

interpretation gen_cb: worker_callback uses_worker SetWorkerID
  by unfold_locales (auto simp: uses_worker_def SetWorkerID_def)

lemma heartbeatLoopExit_frame [simp]:
  "w_registered (heartbeatLoopExit c m) = w_registered m" "w_workerID (heartbeatLoopExit c m) = w_workerID m"
  "w_healthy (heartbeatLoopExit c m) = w_healthy m"
  by (simp_all add: heartbeatLoopExit_def)

lemma heartbeatLoop_sync_aux:
  assumes "heartbeatLoop R J (Some SetWorkerID) ctx evs k m g r = (k', m', g', r')"
    and "in_sync uses_worker m g" and "0 \<le> k" and "k > 0 \<longrightarrow> w_healthy m \<noteq> 1"
    and "k + int (length evs) < 2 ^ 62"
  shows "in_sync uses_worker m' g' \<and> 0 \<le> k' \<and> (k' > 0 \<longrightarrow> w_healthy m' \<noteq> 1)"
  using assms
proof (induction evs arbitrary: k m g r)
  case Nil
  then show ?case by simp
next
  case (Cons ev evs)
  show ?case
  proof (cases ev)
    case (HbTick e e')
    obtain k1 m1 g1 r1 where tick: "heartbeatTick R J (Some SetWorkerID) e e' k m g r = (k1, m1, g1, r1)"
      by (rule prod_cases4)
    have "k < 2 ^ 62" using Cons.prems(5) by simp
    note s = gen_cb.heartbeatTick_sync [OF tick Cons.prems(2,3) this]
    have "k1 + int (length evs) < 2 ^ 62" using s Cons.prems(5) by simp
    with Cons.IH [of k1 m1 g1 r1] s Cons.prems(1) tick HbTick show ?thesis by simp
  qed (use Cons.prems in \<open>auto simp: in_sync_def\<close>)
qed

text \<open>Three beats that do not arrive while the key runs out; the manager then registers afresh,
  and the loop, whose context that cancelled, ends.\<close>

definition lost :: "int \<Rightarrow> mem call" where
  "lost t = \<lparr>c_before = id, c_at = t, c_net = Unreached\<rparr>"

definition demo_events :: "mem hb_event list" where
  "demo_events = replicate 3 (HbTick (demo_beat 20000 1\<lparr>b_call := lost (at_ms 20000)\<rparr>)
     \<lparr>r_beat = demo_beat 20000 1, r_shut = (\<lambda>i. False), r_attempts = (\<lambda>i j. demo_attempt 1 20000 j)\<rparr>) @ [HbDone]"

definition demo_recovered :: "int \<times> WorkerIDManager \<times> Generator \<times> mem" where
  "demo_recovered = heartbeatLoop mem_redis demo_codec (Some SetWorkerID) 0 demo_events 0 demo_m1 demo_g1 demo_r1"

lemma demo_recovered_facts: "fst demo_recovered = 0 \<and> w_healthy (fst (snd demo_recovered)) = 1 \<and>
    w_workerID (fst (snd demo_recovered)) = 1 \<and> g_maxWorkerID (fst (snd (snd demo_recovered))) = 31 \<and>
    w_heartbeatRunning (fst (snd demo_recovered))"
  by code_simp

text \<open>C11: Through any run of the heartbeat loop, with its failures and recoveries, and whatever
  Redis answers, a healthy manager is a registered one, and the generator uses the worker ID
  the manager is registered under (if it fits its layout); an unregistered manager has no
  worker ID. While the last beat is a failed one the manager is not healthy, so that the gate
  in front of the generator is shut.\<close>

theorem heartbeats_keep_sync:
  assumes "heartbeatLoop R J (Some SetWorkerID) ctx evs 0 m g r = (k', m', g', r')"
    and "w_registered m" and "uses_worker (w_workerID m) g" and "int (length evs) < 2 ^ 62"
  shows "(w_healthy m' = 1 \<longrightarrow> w_registered m') \<and>
    (w_registered m' \<and> 0 \<le> w_workerID m' \<and> w_workerID m' \<le> g_maxWorkerID g' \<longrightarrow>
       g_workerID g' = w_workerID m') \<and>
    (\<not> w_registered m' \<longrightarrow> w_workerID m' = -1) \<and> (k' > 0 \<longrightarrow> w_healthy m' \<noteq> 1)"
proof -
  have "in_sync uses_worker m g" using assms(2,3) by (simp add: in_sync_def)
  from heartbeatLoop_sync_aux [OF assms(1) this] assms(4) show ?thesis
    by (simp add: in_sync_def uses_worker_def)
qed

lemma heartbeats_keep_sync_witness:
  "w_registered (fst (snd demo_recovered)) \<and> g_workerID (fst (snd (snd demo_recovered))) = 1"
proof -
  have run: "heartbeatLoop mem_redis demo_codec (Some SetWorkerID) 0 demo_events 0 demo_m1 demo_g1 demo_r1 =
      (fst demo_recovered, fst (snd demo_recovered), fst (snd (snd demo_recovered)), snd (snd (snd demo_recovered)))"
    by (simp add: demo_recovered_def)
  have "uses_worker (w_workerID demo_m1) demo_g1" by code_simp
  from heartbeats_keep_sync [OF run _ this] demo_m1_facts demo_recovered_facts show ?thesis
    by (simp add: demo_events_def)
qed

end
