(* ===== verification/Lease_Protocol.thy ===== *)
theory Lease_Protocol
  imports Worker_Exclusion
begin

text \<open>
  The protocol behind the worker IDs, one Redis command at a time: any number of instances,
  each with its identity and the stage of its lease, share one server, and their commands
  interleave freely with each other and with those of other clients. The operations of
  \<open>Worker_Manager\<close> are runs of it (\<open>Lease_Refinement\<close>).
\<close>

section \<open>Instances\<close>

text \<open>A worker ID that was claimed after the clock reading \<open>a\<close>; a lease with its deadline; a
  renewal that the server granted at an instant and whose reply is on its way; a lease that
  was given up, with the key still in Redis.\<close>

datatype stage = Free | Claimed int int | Leased int int | Renewing int int int | Releasing int int

record lease_node =
  ln_id :: string
  ln_stage :: stage

text \<open>What is fixed: the prefix, the datacenter, the TTL and the possible identities of every
  instance, and the slack (the longest way of a reply plus the fraction of a second of a TTL).\<close>

record params =
  pr_prefix :: string
  pr_dc :: "nat \<Rightarrow> int"
  pr_ttl :: "nat \<Rightarrow> int"
  pr_ids :: "nat \<Rightarrow> string set"
  pr_slack :: int

definition params_ok :: "params \<Rightarrow> bool" where
  "params_ok P \<longleftrightarrow> 0 \<le> pr_slack P \<and> (\<forall>i. pr_ttl P i mod Second < pr_slack P) \<and>
     (\<forall>i j. i \<noteq> j \<longrightarrow> pr_ids P i \<inter> pr_ids P j = {})"

definition nkey :: "params \<Rightarrow> nat \<Rightarrow> int \<Rightarrow> string" where
  "nkey P i w = workerKey (pr_prefix P) (pr_dc P i) w"

text \<open>The steps of instance \<open>i\<close> at the instant \<open>s\<close>, each with at most one command.\<close>

inductive nstep :: "'r redis \<Rightarrow> codec \<Rightarrow> params \<Rightarrow> nat \<Rightarrow> int \<Rightarrow> lease_node \<times> 'r \<Rightarrow> lease_node \<times> 'r \<Rightarrow> bool"
  for R J P i s where
  identity: "ln_stage n = Free \<Longrightarrow> x \<in> pr_ids P i \<Longrightarrow> nstep R J P i s (n, r) (n\<lparr>ln_id := x\<rparr>, r)"
| aux: "(\<And>dc w. same_key R s (workerKey (pr_prefix P) dc w) r r') \<Longrightarrow> nstep R J P i s (n, r) (n, r')"
| claim: "ln_stage n = Free \<Longrightarrow> ln_id n \<in> pr_ids P i \<Longrightarrow> owner_of J v = Some (ln_id n) \<Longrightarrow> a < s \<Longrightarrow>
    SETNX R s (nkey P i w) v (pr_ttl P i) r = (True, r') \<Longrightarrow>
    nstep R J P i s (n, r) (n\<lparr>ln_stage := Claimed w a\<rparr>, r')"
| claim_failed: "ln_stage n = Free \<Longrightarrow>
    nstep R J P i s (n, r) (n, snd (SETNX R s (nkey P i w) v d r))"
| grant: "ln_stage n = Claimed w a \<Longrightarrow>
    nstep R J P i s (n, r) (n\<lparr>ln_stage := Leased w (a + pr_ttl P i)\<rparr>, r)"
| beat: "ln_stage n = Leased w d \<Longrightarrow> owner_of J v = Some (ln_id n) \<Longrightarrow>
    LuaScriptHeartbeat R (cjson_decode J) s (nkey P i w) v (ln_id n) (pr_ttl P i div Second) r = (Some 1, r') \<Longrightarrow>
    nstep R J P i s (n, r) (n\<lparr>ln_stage := Renewing w d s\<rparr>, r')"
| beat_failed: "ln_stage n = Leased w d \<Longrightarrow> owner_of J v = Some (ln_id n) \<Longrightarrow>
    LuaScriptHeartbeat R (cjson_decode J) s (nkey P i w) v (ln_id n) (pr_ttl P i div Second) r = (y, r') \<Longrightarrow>
    nstep R J P i s (n, r) (n, r')"
| renew: "ln_stage n = Renewing w d t0 \<Longrightarrow> t0 \<le> s \<Longrightarrow> s - t0 + pr_ttl P i mod Second < pr_slack P \<Longrightarrow>
    nstep R J P i s (n, r) (n\<lparr>ln_stage := Leased w (s + pr_ttl P i)\<rparr>, r)"
| lose: "nstep R J P i s (n, r) (n\<lparr>ln_stage := Free\<rparr>, r)"
| release: "ln_stage n = Leased w d \<Longrightarrow> nstep R J P i s (n, r) (n\<lparr>ln_stage := Releasing w d\<rparr>, r)"
| delete: "ln_stage n = Releasing w d \<Longrightarrow> s \<le> d - pr_slack P \<Longrightarrow>
    nstep R J P i s (n, r) (n\<lparr>ln_stage := Free\<rparr>, DEL R s (nkey P i w) r)"

section \<open>The system\<close>

record 'r sys =
  sy_now :: int
  sy_store :: 'r
  sy_node :: "nat \<Rightarrow> lease_node"

text \<open>A step of one instance, or of a client that leaves what the instances hold alone.\<close>

definition spares_all :: "'r redis \<Rightarrow> codec \<Rightarrow> params \<Rightarrow> int \<Rightarrow> 'r \<Rightarrow> 'r \<Rightarrow> bool" where
  "spares_all R J P s r r' \<longleftrightarrow> (\<forall>i. \<forall>x \<in> pr_ids P i. keeps_mine R J (pr_prefix P) x s r r')"

inductive sys_step :: "'r redis \<Rightarrow> codec \<Rightarrow> params \<Rightarrow> 'r sys \<Rightarrow> 'r sys \<Rightarrow> bool" for R J P where
  own: "sy_now S \<le> s \<Longrightarrow> nstep R J P i s (sy_node S i, sy_store S) (n', r') \<Longrightarrow>
    sys_step R J P S \<lparr>sy_now = s, sy_store = r', sy_node = (sy_node S)(i := n')\<rparr>"
| outside: "sy_now S \<le> s \<Longrightarrow> spares_all R J P s (sy_store S) r' \<Longrightarrow>
    sys_step R J P S (S\<lparr>sy_now := s, sy_store := r'\<rparr>)"

inductive reachable :: "'r redis \<Rightarrow> codec \<Rightarrow> params \<Rightarrow> 'r sys \<Rightarrow> bool" for R J P where
  init: "(\<And>i. ln_stage (sy_node S i) = Free) \<Longrightarrow> reachable R J P S"
| step: "reachable R J P S \<Longrightarrow> sys_step R J P S S' \<Longrightarrow> reachable R J P S'"

inductive_cases sys_step_cases: "sys_step R J P S S'"

section \<open>The invariant\<close>

text \<open>From \<open>t\<close> up to \<open>u\<close> Redis holds the key of the worker ID for the instance.\<close>

definition holds_until :: "'r redis \<Rightarrow> codec \<Rightarrow> params \<Rightarrow> nat \<Rightarrow> int \<Rightarrow> int \<Rightarrow> int \<Rightarrow> lease_node \<Rightarrow> 'r \<Rightarrow> bool" where
  "holds_until R J P i t w u n r \<longleftrightarrow> (\<forall>s. t \<le> s \<and> s \<le> u \<longrightarrow> held R J s (nkey P i w) (ln_id n) r)"

definition node_inv :: "'r redis \<Rightarrow> codec \<Rightarrow> params \<Rightarrow> nat \<Rightarrow> int \<Rightarrow> lease_node \<Rightarrow> 'r \<Rightarrow> bool" where
  "node_inv R J P i t n r \<longleftrightarrow> (ln_stage n \<noteq> Free \<longrightarrow> ln_id n \<in> pr_ids P i) \<and>
     (case ln_stage n of
        Free \<Rightarrow> True
      | Claimed w a \<Rightarrow> a < t \<and> holds_until R J P i t w (a + pr_ttl P i) n r
      | Leased w d \<Rightarrow> d \<le> t + pr_ttl P i \<and> holds_until R J P i t w (d - pr_slack P) n r
      | Renewing w d t0 \<Rightarrow> t0 \<le> t \<and> d \<le> t0 + pr_ttl P i \<and>
          holds_until R J P i t w (t0 + pr_ttl P i div Second * Second - 1) n r
      | Releasing w d \<Rightarrow> holds_until R J P i t w (d - pr_slack P) n r)"

definition sys_inv :: "'r redis \<Rightarrow> codec \<Rightarrow> params \<Rightarrow> 'r sys \<Rightarrow> bool" where
  "sys_inv R J P S \<longleftrightarrow> (\<forall>i. node_inv R J P i (sy_now S) (sy_node S i) (sy_store S))"

lemma holds_later: "holds_until R J P i t w u n r \<Longrightarrow> t \<le> t' \<Longrightarrow> u' \<le> u \<Longrightarrow> holds_until R J P i t' w u' n r"
  by (simp add: holds_until_def)

lemma holds_kept:
  assumes "holds_until R J P i t w u n r" and "keeps_mine R J (pr_prefix P) (ln_id n) s r r'" and "t \<le> s"
  shows "holds_until R J P i s w u n r'"
  using assms by (auto simp: holds_until_def keeps_mine_def nkey_def)

lemma node_inv_later:
  assumes "node_inv R J P i t n r" and "t \<le> s" and "ln_stage n \<noteq> Free \<Longrightarrow> keeps_mine R J (pr_prefix P) (ln_id n) s r r'"
  shows "node_inv R J P i s n r'"
  using assms by (auto simp: node_inv_def intro: holds_kept split: stage.splits)

context redis_server
begin

lemma claim_holds:
  assumes "owner_of J v = Some (ln_id n)" and "SETNX R s (nkey P i w) v d r = (True, r')" and "a < s" and "s \<le> t"
  shows "holds_until R J P i t w (a + d) n r'"
proof -
  have free: "GET R s (nkey P i w) r = None" using setnx_result [of s "nkey P i w" v d r] assms(2) by simp
  show ?thesis
    using setnx_get [OF free, of _ d v] assms by (simp add: holds_until_def held_def)
qed

lemma beat_holds:
  assumes "owner_of J v = Some (ln_id n)"
    and "LuaScriptHeartbeat R (cjson_decode J) s (nkey P i w) v (ln_id n) secs r = (Some 1, r')"
  shows "holds_until R J P i s w (s + secs * Second - 1) n r'"
proof -
  have "r' = SETEX R s (nkey P i w) v secs r"
    using assms(2) by (auto simp: LuaScriptHeartbeat_def split: option.splits lua_json.splits if_splits)
  then show ?thesis using setex_get assms(1) by (simp add: holds_until_def held_def)
qed

text \<open>A beat whose outcome the instance does not learn shortens nothing.\<close>

lemma beat_keeps:
  assumes "params_ok P" and "owner_of J v = Some (ln_id n)" and "s \<le> t" and "d \<le> s + pr_ttl P i"
    and "LuaScriptHeartbeat R (cjson_decode J) s (nkey P i w) v (ln_id n) (pr_ttl P i div Second) r = (y, r')"
    and "holds_until R J P i s w (d - pr_slack P) n r"
  shows "holds_until R J P i t w (d - pr_slack P) n r'"
proof -
  consider "r' = r" | "r' = SETEX R s (nkey P i w) v (pr_ttl P i div Second) r"
    using assms(5) by (auto simp: LuaScriptHeartbeat_def split: option.splits lua_json.splits if_splits)
  then show ?thesis
  proof cases
    case 1
    with assms(3,6) show ?thesis by (simp add: holds_later)
  next
    case 2
    have "pr_ttl P i - pr_slack P < pr_ttl P i div Second * Second"
      using assms(1) div_mult_mod_eq [of "pr_ttl P i" Second] unfolding params_ok_def by (smt (verit))
    then have "u < s + pr_ttl P i div Second * Second" if "u \<le> d - pr_slack P" for u
      using that assms(4) by linarith
    then show ?thesis using setex_get assms(2,3) by (simp add: 2 holds_until_def held_def)
  qed
qed

text \<open>A step of an instance leaves the others alone.\<close>

lemma nstep_guarantee:
  assumes "nstep R J P i s (n, r) (n', r')" and "node_inv R J P i t n r" and "t \<le> s" and "x \<noteq> ln_id n"
  shows "keeps_mine R J (pr_prefix P) x s r r'"
  using assms(1)
proof (cases rule: nstep.cases)
  case aux
  then show ?thesis by (intro keeps_mine_same) auto
next
  case claim
  then show ?thesis using setnx_keeps [of s s] by (metis Pair_inject order_refl snd_conv)
next
  case claim_failed
  then show ?thesis using setnx_keeps by simp
next
  case (beat w d v)
  from guarantee_gives_rely [OF heartbeat_leaves [OF beat(4)] assms(4)] show ?thesis .
next
  case (beat_failed w d v y)
  from guarantee_gives_rely [OF heartbeat_leaves [OF beat_failed(4)] assms(4)] show ?thesis .
next
  case (delete w d)
  have "held R J s (nkey P i w) (ln_id n) r"
    using assms(2,3) delete by (simp add: node_inv_def holds_until_def)
  from del_keeps [OF this [unfolded nkey_def] order_refl assms(4)] show ?thesis
    using delete by (simp add: nkey_def)
qed (simp_all add: keeps_mine_refl)

text \<open>A step of the instance itself keeps its own part of the invariant.\<close>

lemma nstep_own:
  assumes P: "params_ok P" and "nstep R J P i s (n, r) (n', r')" and inv: "node_inv R J P i t n r" and t: "t \<le> s"
  shows "node_inv R J P i s n' r'"
  using assms(2)
proof (cases rule: nstep.cases)
  case aux
  then have "keeps_mine R J (pr_prefix P) (ln_id n) s r r'" by (intro keeps_mine_same) auto
  from node_inv_later [OF inv t this] aux show ?thesis by simp
next
  case (claim v a w)
  with claim_holds [OF claim(4) claim(6) claim(5) order_refl] show ?thesis
    by (simp add: node_inv_def holds_until_def)
next
  case (beat w d v)
  with inv t beat_holds [OF beat(3,4)] show ?thesis by (auto simp: node_inv_def holds_until_def)
next
  case (beat_failed w d v y)
  have d: "d \<le> s + pr_ttl P i" "holds_until R J P i s w (d - pr_slack P) n r"
    using inv t beat_failed(2) by (auto simp: node_inv_def intro: holds_later)
  from beat_keeps [OF P beat_failed(3) order_refl d(1) beat_failed(4) d(2)] inv t d(1) beat_failed(1,2)
  show ?thesis by (simp add: node_inv_def)
next
  case (grant w a)
  with inv t P show ?thesis by (auto simp: node_inv_def params_ok_def holds_until_def)
next
  case (renew w d t0)
  have "s + pr_ttl P i - pr_slack P < t0 + pr_ttl P i div Second * Second"
    using renew div_mult_mod_eq [of "pr_ttl P i" Second] by linarith
  with inv t renew show ?thesis by (auto simp: node_inv_def holds_until_def)
next
  case (release w d)
  with inv t show ?thesis by (auto simp: node_inv_def holds_until_def)
qed (use inv in \<open>auto simp: node_inv_def\<close>)

text \<open>What an instance relies on: its identities' keys are left alone. The steps of the others
  are of this kind.\<close>

lemma nstep_spares:
  assumes P: "params_ok P" and step: "nstep R J P i s (n, r) (n', r')" and inv: "node_inv R J P i t n r"
    and t: "t \<le> s" and j: "j \<noteq> i" "x \<in> pr_ids P j"
  shows "keeps_mine R J (pr_prefix P) x s r r'"
proof (cases "x = ln_id n")
  case False
  then show ?thesis by (rule nstep_guarantee [OF step inv t])
next
  case True
  with j P have "ln_id n \<notin> pr_ids P i" by (auto simp: params_ok_def)
  with step inv show ?thesis
    using setnx_keeps
    by (cases rule: nstep.cases) (auto simp: node_inv_def keeps_mine_refl intro: keeps_mine_same)
qed

lemma step_inv:
  assumes P: "params_ok P" and "sys_step R J P S S'" and inv: "sys_inv R J P S"
  shows "sys_inv R J P S'"
  using assms(2)
proof (cases rule: sys_step.cases)
  case (own s i n' r')
  let ?n = "sy_node S"
  have i: "node_inv R J P i (sy_now S) (?n i) (sy_store S)" using inv by (simp add: sys_inv_def)
  have "node_inv R J P j s (?n j) r'" if "j \<noteq> i" for j
  proof (rule node_inv_later [OF _ own(2)])
    show j: "node_inv R J P j (sy_now S) (?n j) (sy_store S)" using inv by (simp add: sys_inv_def)
    assume "ln_stage (?n j) \<noteq> Free"
    then have "ln_id (?n j) \<in> pr_ids P j" using j by (simp add: node_inv_def)
    from nstep_spares [OF P own(3) i own(2) that this]
    show "keeps_mine R J (pr_prefix P) (ln_id (?n j)) s (sy_store S) r'" .
  qed
  with nstep_own [OF P own(3) i own(2)] own(1) show ?thesis by (simp add: sys_inv_def)
next
  case (outside s r')
  have "node_inv R J P j s (sy_node S j) r'" for j
  proof (rule node_inv_later [OF _ outside(2)])
    show j: "node_inv R J P j (sy_now S) (sy_node S j) (sy_store S)" using inv by (simp add: sys_inv_def)
    assume "ln_stage (sy_node S j) \<noteq> Free"
    then have "ln_id (sy_node S j) \<in> pr_ids P j" using j by (simp add: node_inv_def)
    with outside(3) show "keeps_mine R J (pr_prefix P) (ln_id (sy_node S j)) s (sy_store S) r'"
      unfolding spares_all_def by blast
  qed
  with outside(1) show ?thesis by (simp add: sys_inv_def)
qed

lemma reachable_inv:
  assumes "params_ok P" and "reachable R J P S"
  shows "sys_inv R J P S"
  using assms(2)
proof (induction rule: reachable.induct)
  case (init S)
  then show ?case by (simp add: sys_inv_def node_inv_def)
next
  case (step S S')
  then show ?case using step_inv [OF assms(1)] by blast
qed

text \<open>Two instances that hold what their stages say have leases on different worker IDs, as long
  as both run.\<close>

lemma nodes_apart:
  assumes P: "params_ok P" "i \<noteq> j" "pr_dc P i = pr_dc P j"
    and inv: "node_inv R J P i t n r" "node_inv R J P j t n' r"
    and st: "ln_stage n = Leased w d" "ln_stage n' = Leased w' d'"
    and s: "t \<le> s" "s \<le> d - pr_slack P" "s \<le> d' - pr_slack P"
  shows "w \<noteq> w'"
proof
  assume eq: "w = w'"
  have "held R J s (nkey P i w) (ln_id n) r" "ln_id n \<in> pr_ids P i"
    using inv(1) st(1) s by (simp_all add: node_inv_def holds_until_def)
  moreover have "held R J s (nkey P i w) (ln_id n') r" "ln_id n' \<in> pr_ids P j"
    using inv(2) P(3) st(2) s eq by (simp_all add: node_inv_def holds_until_def nkey_def)
  ultimately show False using held_unique P(1,2) by (fastforce simp: params_ok_def)
qed

text \<open>In every reachable state two leases of one datacenter that still run are on different
  worker IDs.\<close>

lemma leases_apart:
  assumes "params_ok P" and "reachable R J P S" and "i \<noteq> j" and "pr_dc P i = pr_dc P j"
    and "ln_stage (sy_node S i) = Leased w d" and "ln_stage (sy_node S j) = Leased w' d'"
    and "sy_now S \<le> t" and "t \<le> d - pr_slack P" and "t \<le> d' - pr_slack P"
  shows "w \<noteq> w'"
proof -
  have "node_inv R J P k (sy_now S) (sy_node S k) (sy_store S)" for k
    using reachable_inv [OF assms(1,2)] by (simp add: sys_inv_def)
  from nodes_apart [OF assms(1,3,4) this this assms(5-9)] show ?thesis .
qed

end

end
