(* ===== verification/Lease_Refinement.thy ===== *)
theory Lease_Refinement
  imports Lease_Protocol
begin

text \<open>
  The operations of the worker ID manager are runs of the lease protocol: each is a sequence of
  the protocol's steps of its own instance, with the interference of the others in between.
\<close>

section \<open>Runs\<close>

text \<open>Runs of instance \<open>i\<close> from one instant, stage and store to another, with interference \<open>E\<close>.\<close>

inductive runs :: "'r redis \<Rightarrow> codec \<Rightarrow> params \<Rightarrow> (int \<Rightarrow> 'r \<Rightarrow> 'r \<Rightarrow> bool) \<Rightarrow> nat \<Rightarrow>
    int \<times> lease_node \<times> 'r \<Rightarrow> int \<times> lease_node \<times> 'r \<Rightarrow> bool" for R J P E i where
  stay: "runs R J P E i x x"
| wait: "runs R J P E i x (t, n, r) \<Longrightarrow> t \<le> s \<Longrightarrow> runs R J P E i x (s, n, r)"
| own: "runs R J P E i x (t, n, r) \<Longrightarrow> t \<le> s \<Longrightarrow> nstep R J P i s (n, r) (n', r') \<Longrightarrow>
    runs R J P E i x (s, n', r')"
| other: "runs R J P E i x (t, n, r) \<Longrightarrow> t \<le> s \<Longrightarrow> E s r r' \<Longrightarrow> runs R J P E i x (s, n, r')"

lemma runs_trans: "runs R J P E i y z \<Longrightarrow> runs R J P E i x y \<Longrightarrow> runs R J P E i x z"
  by (induction rule: runs.induct) (auto intro: runs.intros)

lemma runs_own: "nstep R J P i s (n, r) (n', r') \<Longrightarrow> t \<le> s \<Longrightarrow> runs R J P E i (t, n, r) (s, n', r')"
  by (rule runs.own [OF runs.stay])

lemma runs_wait: "t \<le> s \<Longrightarrow> runs R J P E i (t, n, r) (s, n, r)"
  by (rule runs.wait [OF runs.stay])

lemma runs_other: "t \<le> s \<Longrightarrow> E s r r' \<Longrightarrow> runs R J P E i (t, n, r) (s, n, r')"
  by (rule runs.other [OF runs.stay])

text \<open>A run is part of a run of the system, if the system's other clients can do what \<open>E\<close> says.\<close>

lemma runs_in_system:
  assumes "runs R J P (spares_all R J P) i x y" and "x = (sy_now S, sy_node S i, sy_store S)"
  shows "\<exists>S'. (sys_step R J P)\<^sup>*\<^sup>* S S' \<and> y = (sy_now S', sy_node S' i, sy_store S') \<and>
    (\<forall>j. j \<noteq> i \<longrightarrow> sy_node S' j = sy_node S j)"
  using assms
proof (induction rule: runs.induct)
  case (stay x)
  then show ?case by blast
next
  case (wait x t n r s)
  then obtain S' where S': "(sys_step R J P)\<^sup>*\<^sup>* S S'" "(t, n, r) = (sy_now S', sy_node S' i, sy_store S')"
    "\<forall>j. j \<noteq> i \<longrightarrow> sy_node S' j = sy_node S j" by blast
  have "sys_step R J P S' (S'\<lparr>sy_now := s, sy_store := r\<rparr>)"
    using S'(2) wait by (intro sys_step.outside) (simp_all add: spares_all_def keeps_mine_refl)
  with S' show ?case by (intro exI [of _ "S'\<lparr>sy_now := s, sy_store := r\<rparr>"]) auto
next
  case (own x t n r s n' r')
  then obtain S' where S': "(sys_step R J P)\<^sup>*\<^sup>* S S'" "(t, n, r) = (sy_now S', sy_node S' i, sy_store S')"
    "\<forall>j. j \<noteq> i \<longrightarrow> sy_node S' j = sy_node S j" by blast
  let ?S = "\<lparr>sy_now = s, sy_store = r', sy_node = (sy_node S')(i := n')\<rparr>"
  have "sys_step R J P S' ?S" using S'(2) own by (intro sys_step.own) auto
  with S' show ?case by (intro exI [of _ ?S]) auto
next
  case (other x t n r s r')
  then obtain S' where S': "(sys_step R J P)\<^sup>*\<^sup>* S S'" "(t, n, r) = (sy_now S', sy_node S' i, sy_store S')"
    "\<forall>j. j \<noteq> i \<longrightarrow> sy_node S' j = sy_node S j" by blast
  have "sys_step R J P S' (S'\<lparr>sy_now := s, sy_store := r'\<rparr>)" using S'(2) other by (intro sys_step.outside) auto
  with S' show ?case by (intro exI [of _ "S'\<lparr>sy_now := s, sy_store := r'\<rparr>"]) auto
qed

lemma reachable_steps: "(sys_step R J P)\<^sup>*\<^sup>* S S' \<Longrightarrow> reachable R J P S \<Longrightarrow> reachable R J P S'"
  by (induction rule: rtranclp_induct) (auto intro: reachable.step)

section \<open>Calls\<close>

text \<open>A call that the server runs between \<open>t\<close> and \<open>u\<close>, after interference by others.\<close>

definition call_in :: "(int \<Rightarrow> 'r \<Rightarrow> 'r \<Rightarrow> bool) \<Rightarrow> int \<Rightarrow> 'r call \<Rightarrow> int \<Rightarrow> bool" where
  "call_in E t c u \<longleftrightarrow> t \<le> c_at c \<and> c_at c \<le> u \<and> (\<forall>r. E (c_at c) r (c_before c r))"

lemma issue_runs:
  assumes "issue c cmd r = (x, r')" and c: "call_in E t c u"
    and step: "\<And>r0 a r1. cmd (c_at c) r0 = (a, r1) \<Longrightarrow> nstep R J P i (c_at c) (n, r0) (n, r1)"
  shows "runs R J P E i (t, n, r) (c_at c, n, r')"
proof -
  have b: "runs R J P E i (t, n, r) (c_at c, n, c_before c r)" using c by (intro runs_other) (simp_all add: call_in_def)
  have "runs R J P E i (c_at c, n, c_before c r) (c_at c, n, snd (cmd (c_at c) (c_before c r)))"
    by (rule runs_own [OF step [OF prod.collapse [symmetric]] order_refl])
  from runs_trans [OF this b] b assms(1) show ?thesis
    by (auto simp: issue_def Let_def split: net.splits prod.splits)
qed

lemma issue_reached:
  assumes "call_in E t c u"
    and "nstep R J P i (c_at c) (n, c_before c r) (n', r')"
  shows "runs R J P E i (t, n, r) (c_at c, n', r')"
  using assms runs_other [of t "c_at c" E r "c_before c r" R J P i n] by (auto simp: call_in_def intro: runs.own)

section \<open>Managers\<close>

definition lease_of :: "WorkerIDManager \<Rightarrow> lease_node" where
  "lease_of m = \<lparr>ln_id = w_instanceID m,
     ln_stage = (if w_registered m then Leased (w_workerID m) (w_leaseDeadline m) else Free)\<rparr>"

definition is_node :: "params \<Rightarrow> nat \<Rightarrow> WorkerIDManager \<Rightarrow> bool" where
  "is_node P i m \<longleftrightarrow> pr_prefix P = w_keyPrefix m \<and> pr_dc P i = w_datacenterID m \<and> pr_ttl P i = w_ttl m \<and>
     0 \<le> w_ttl m \<and> w_ttl m < 2 ^ 22 * Second \<and> ascii (w_instanceID m)"

text \<open>Without a registration the worker ID is -1.\<close>

definition id_ok :: "WorkerIDManager \<Rightarrow> bool" where
  "id_ok m \<longleftrightarrow> w_registered m \<or> w_workerID m = -1"

text \<open>The environment of an attempt between the instants \<open>t\<close> and \<open>u\<close>.\<close>

definition attempt_in :: "(int \<Rightarrow> 'r \<Rightarrow> 'r \<Rightarrow> bool) \<Rightarrow> params \<Rightarrow> nat \<Rightarrow> WorkerIDManager \<Rightarrow> int \<Rightarrow>
    'r attempt_env \<Rightarrow> int \<Rightarrow> bool" where
  "attempt_in E P i m t e u \<longleftrightarrow> call_in E t (a_incr e) (c_at (a_setnx e)) \<and>
     call_in E t (a_setnx e) (c_at (a_sadd e)) \<and> call_in E t (a_sadd e) u \<and>
     0 \<le> wall (a_now e) \<and> wall (a_now e) < c_at (a_setnx e) \<and> wall (a_now e) + w_ttl m < 2 ^ 63 \<and>
     generateInstanceID m (a_ident e) \<in> pr_ids P i"

definition attempts_in :: "(int \<Rightarrow> 'r \<Rightarrow> 'r \<Rightarrow> bool) \<Rightarrow> params \<Rightarrow> nat \<Rightarrow> WorkerIDManager \<Rightarrow> (nat \<Rightarrow> int) \<Rightarrow>
    (nat \<Rightarrow> 'r attempt_env) \<Rightarrow> bool" where
  "attempts_in E P i m ts env \<longleftrightarrow> (\<forall>k. attempt_in E P i m (ts k) (env k) (ts (Suc k)))"

lemma aux_registry:
  assumes "pr_prefix P = w_keyPrefix m" and "redis_server R"
  shows "nstep R J P i s (n, r) (n, SADD R s (getRegistryKey m) x r)"
    and "nstep R J P i s (n, r) (n, SREM R s (getRegistryKey m) x r)"
  using redis_server.registry_leaves [OF assms(2,1)] by (auto intro: nstep.aux)

lemma aux_counter:
  assumes "pr_prefix P = w_keyPrefix m" and "redis_server R"
    and "LuaScriptIncrWithReset R s (getCounterKey m) k r = (x, r')"
  shows "nstep R J P i s (n, r) (n, r')"
  using redis_server.counter_leaves [OF assms(2,3,1)] by (rule nstep.aux)

lemma registered_as_runs:
  assumes R: "redis_server R" and m: "is_node P i m" and e: "attempt_in E P i m t e u"
    and run: "registered_as R cb e w m g r = (m', g', r')"
  shows "runs R J P E i (c_at (a_setnx e), \<lparr>ln_id = w_instanceID m, ln_stage = Claimed w (wall (a_now e))\<rparr>, r)
      (u, lease_of m', r') \<and> is_node P i m' \<and> w_registered m'"
proof -
  let ?n = "\<lparr>ln_id = w_instanceID m, ln_stage = Leased w (wall (a_now e) + w_ttl m)\<rparr>"
  define sadd where "sadd = (\<lambda>now r. ((), SADD R now (getRegistryKey m) (registryMember (w_datacenterID m) w) r))"
  have m': "lease_of m' = ?n \<and> is_node P i m' \<and> w_registered m'" and r': "r' = snd (issue (a_sadd e) sadd r)"
    using run e m
    by (auto simp: registered_as_def Let_def setLeaseDeadline_def sadd_def getRegistryKey_def lease_of_def is_node_def
        attempt_in_def UnixNano_def time_Add_def i64_id)
  have t: "call_in E (c_at (a_setnx e)) (a_sadd e) u" "c_at (a_sadd e) \<le> u"
    using e by (simp_all add: attempt_in_def call_in_def)
  have g: "runs R J P E i (c_at (a_setnx e), \<lparr>ln_id = w_instanceID m, ln_stage = Claimed w (wall (a_now e))\<rparr>, r)
      (c_at (a_setnx e), ?n, r)"
    using nstep.grant [of "\<lparr>ln_id = w_instanceID m, ln_stage = Claimed w (wall (a_now e))\<rparr>" w "wall (a_now e)" R J P i _ r] m
    by (intro runs_own) (simp_all add: is_node_def)
  obtain x where "issue (a_sadd e) sadd r = (x, r')" using r' by (cases "issue (a_sadd e) sadd r") simp
  from issue_runs [OF this t(1), of R J P i ?n] aux_registry(1) [OF _ R] m
  have s: "runs R J P E i (c_at (a_setnx e), ?n, r) (c_at (a_sadd e), ?n, r')"
    by (auto simp: sadd_def is_node_def)
  from runs.wait [OF runs_trans [OF s g] t(2)] m' show ?thesis by simp
qed

lemma attempt_in_cong:
  "w_ttl m' = w_ttl m \<Longrightarrow> w_datacenterID m' = w_datacenterID m \<Longrightarrow> attempt_in E P i m' t e u = attempt_in E P i m t e u"
  by (simp add: attempt_in_def generateInstanceID_def)

lemma claim_step:
  assumes J: "codec_ok J" and m: "is_node P i m" and e: "attempt_in E P i m0 t e u" and id: "w_instanceID m = generateInstanceID m0 (a_ident e)"
    and "\<not> w_registered m"
    and "SETNX R (c_at (a_setnx e)) (getWorkerKey m w) (marshal J (newInfo m w (a_now e))) (w_ttl m) r = (True, r')"
  shows "nstep R J P i (c_at (a_setnx e)) (lease_of m, r)
    (\<lparr>ln_id = w_instanceID m, ln_stage = Claimed w (wall (a_now e))\<rparr>, r')"
proof -
  have "owner_of J (marshal J (newInfo m w (a_now e))) = Some (w_instanceID m)"
    using owner_of_marshal [OF J, of "newInfo m w (a_now e)"] instanceID_ascii id by (simp add: newInfo_def)
  with nstep.claim [of "lease_of m" P i J "marshal J (newInfo m w (a_now e))" "wall (a_now e)" "c_at (a_setnx e)" R w r r']
  show ?thesis using assms by (simp add: lease_of_def is_node_def attempt_in_def nkey_def getWorkerKey_def)
qed

lemma failed_claim:
  assumes "is_node P i m" and "\<not> w_registered m"
    and "SETNX R s (getWorkerKey m w) v d r = (b, r')"
  shows "nstep R J P i s (lease_of m, r) (lease_of m, r')"
  using nstep.claim_failed [of "lease_of m" R J P i s r w v d] assms
  by (simp add: lease_of_def is_node_def nkey_def getWorkerKey_def)


section \<open>Registration\<close>

lemma registerLoop_runs:
  assumes R: "redis_server R" and J: "codec_ok J"
    and "attempts_in E P i m ts env" and "is_node P i m" and "\<not> w_registered m"
    and "registerLoop R J cb env N left k m g r = (res, m', g', r')"
  shows "runs R J P E i (ts k, lease_of m, r) (ts (k + left), lease_of m', r') \<and> is_node P i m' \<and>
    (w_registered m' \<longleftrightarrow> is_ok res) \<and> (\<not> is_ok res \<longrightarrow> w_workerID m' = w_workerID m)"
  using assms(3-6)
proof (induction left arbitrary: k m g r)
  case 0
  then show ?case by (auto simp: lease_of_def is_node_def intro: runs.stay)
next
  case (Suc left)
  let ?e = "env k"
  have e: "attempt_in E P i m (ts k) ?e (ts (Suc k))" using Suc.prems(1) by (simp add: attempts_in_def)
  have mono: "ts (Suc k) \<le> ts (Suc k + j)" for j
  proof (induction j)
    case (Suc j)
    have "attempt_in E P i m (ts (Suc k + j)) (env (Suc k + j)) (ts (Suc (Suc k + j)))"
      using Suc.prems \<open>attempts_in E P i m ts env\<close> by (simp add: attempts_in_def)
    with Suc show ?case by (simp add: attempt_in_def call_in_def)
  qed simp
  have t: "ts k \<le> c_at (a_incr ?e)" "c_at (a_incr ?e) \<le> c_at (a_setnx ?e)" "c_at (a_setnx ?e) \<le> c_at (a_sadd ?e)"
    "c_at (a_sadd ?e) \<le> ts (Suc k)" "call_in E (ts k) (a_incr ?e) (c_at (a_setnx ?e))"
    "call_in E (c_at (a_incr ?e)) (a_setnx ?e) (c_at (a_sadd ?e))"
    using e by (simp_all add: attempt_in_def call_in_def)
  let ?m = "m\<lparr>w_instanceID := generateInstanceID m (a_ident ?e)\<rparr>"
  have nm: "is_node P i ?m" "\<not> w_registered ?m" using Suc.prems(2,3) instanceID_ascii by (simp_all add: is_node_def)
  obtain x r1 where i1: "issue (a_incr ?e) (\<lambda>now. LuaScriptIncrWithReset R now (getCounterKey m) N) r = (x, r1)"
    by (rule prod.exhaust)
  have p: "pr_prefix P = w_keyPrefix m" using Suc.prems(2) by (simp add: is_node_def)
  have run1: "runs R J P E i (ts k, lease_of m, r) (c_at (a_incr ?e), lease_of m, r1)"
    by (rule issue_runs [OF i1 t(5)]) (rule aux_counter [OF p R])
  show ?case
  proof (cases "a_done ?e \<or> x = None \<or> x = Some None")
    case True
    with Suc.prems i1 have "lease_of m' = lease_of m \<and> is_node P i m' \<and> \<not> w_registered m' \<and> \<not> is_ok res \<and> w_workerID m' = w_workerID m \<and> (r' = r \<or> r' = r1)"
      by (auto simp: Let_def is_ok_def split: if_splits)
    then show ?thesis
      using run1 runs.wait [OF runs.stay, of "ts k" "ts (k + Suc left)"] runs.wait [OF run1, of "ts (k + Suc left)"]
        t mono [of left] by auto
  next
    case False
    then obtain c where x: "x = Some (Some c)" by (metis not_None_eq)
    let ?w = "i64 (c - 1)"
    obtain y r2 where s2: "issue (a_setnx ?e) (\<lambda>now. SETNX R now (getWorkerKey ?m ?w)
        (marshal J (newInfo ?m ?w (a_now ?e))) (w_ttl ?m)) r1 = (y, r2)" by (rule prod.exhaust)
    have body: "(case y of None \<Rightarrow> (Inl (SetNXFailed ?w), ?m, g, r2)
        | Some success \<Rightarrow> if success then (let (m, g, r) = registered_as R cb ?e ?w ?m g r2 in (Inr ?w, m, g, r))
            else if a_backoffDone ?e then (Inl ContextDone, ?m, g, r2)
            else registerLoop R J cb env N left (Suc k) ?m g r2) = (res, m', g', r')"
      using Suc.prems(4) False i1 x s2 by (simp add: Let_def redisResultToInt64_def)
    have "nstep R J P i (c_at (a_incr ?e)) (lease_of m, r1) (lease_of ?m, r1)"
      using nstep.identity [of "lease_of m" "generateInstanceID m (a_ident ?e)" P i R J] e Suc.prems(3)
      by (simp add: lease_of_def attempt_in_def)
    from runs.own [OF run1 order_refl this]
    have run2: "runs R J P E i (ts k, lease_of m, r) (c_at (a_incr ?e), lease_of ?m, r1)" .
    have ne: "attempt_in E P i ?m (ts k) ?e (ts (Suc k))" using e by (simp add: attempt_in_cong [of ?m m])
    show ?thesis
    proof (cases "y = Some True")
      case True
      obtain ma ga ra where reg: "registered_as R cb ?e ?w ?m g r2 = (ma, ga, ra)" by (rule prod_cases3)
      note a = registered_as_runs [OF R nm(1) ne reg, of J]
      have "runs R J P E i (c_at (a_incr ?e), lease_of ?m, r1) (c_at (a_setnx ?e),
          \<lparr>ln_id = w_instanceID ?m, ln_stage = Claimed ?w (wall (a_now ?e))\<rparr>, r2)"
        by (intro issue_reached [OF t(6)] claim_step [OF J nm(1) e _ nm(2)])
          (use s2 True in \<open>simp_all add: issue_Some\<close>)
      from runs_trans [OF conjunct1 [OF a] runs_trans [OF this run2]]
      have "runs R J P E i (ts k, lease_of m, r) (ts (k + Suc left), lease_of ma, ra)"
        using runs.wait mono [of left] by simp
      moreover have "res = Inr ?w \<and> m' = ma \<and> r' = ra" using body True reg by simp
      ultimately show ?thesis using a by simp
    next
      case no: False
      have run3: "runs R J P E i (ts k, lease_of m, r) (c_at (a_setnx ?e), lease_of ?m, r2)"
        by (rule runs_trans [OF issue_runs [OF s2 t(6)] run2]) (rule failed_claim [OF nm])
      show ?thesis
      proof (cases "y = Some False \<and> \<not> a_backoffDone ?e")
        case True
        then have "registerLoop R J cb env N left (Suc k) ?m g r2 = (res, m', g', r')" using body by simp
        moreover have "attempts_in E P i ?m ts env"
          using Suc.prems(1) by (simp add: attempts_in_def attempt_in_cong [of ?m m])
        ultimately have IH: "runs R J P E i (ts (Suc k), lease_of ?m, r2) (ts (Suc k + left), lease_of m', r') \<and>
            is_node P i m' \<and> (w_registered m' \<longleftrightarrow> is_ok res) \<and> (\<not> is_ok res \<longrightarrow> w_workerID m' = w_workerID ?m)"
          using Suc.IH nm by blast
        have "runs R J P E i (ts k, lease_of m, r) (ts (Suc k), lease_of ?m, r2)"
          using run3 t by (auto intro: runs.wait)
        from runs_trans [OF conjunct1 [OF IH] this] IH show ?thesis by simp
      next
        case False
        with no body have "m' = ?m \<and> r' = r2 \<and> \<not> is_ok res" by (cases y) (auto simp: is_ok_def split: if_splits)
        moreover have "c_at (a_setnx ?e) \<le> ts (k + Suc left)" using t mono [of left] by simp
        from runs.wait [OF run3 this] have "runs R J P E i (ts k, lease_of m, r) (ts (k + Suc left), lease_of ?m, r2)" .
        ultimately show ?thesis using nm by simp
      qed
    qed
  qed
qed


lemma attempts_mono: "attempts_in E P i m ts env \<Longrightarrow> ts k \<le> ts (k + j)"
proof (induction j)
  case (Suc j)
  have "attempt_in E P i m (ts (k + j)) (env (k + j)) (ts (Suc (k + j)))"
    using Suc.prems by (simp add: attempts_in_def)
  with Suc show ?case by (simp add: attempt_in_def call_in_def)
qed simp

text \<open>The number of attempts of a registration.\<close>

definition tries :: "int \<Rightarrow> nat" where
  "tries maxW = nat (i64 (maxW + 1))"

lemma RegisterWorkerID_runs:
  assumes R: "redis_server R" and J: "codec_ok J"
    and a: "attempts_in E P i m ts env" and m: "is_node P i m"
    and run: "RegisterWorkerID R J cb env maxW m g r = (res, m', g', r')"
  shows "runs R J P E i (ts 0, lease_of m, r) (ts (tries maxW), lease_of m', r') \<and> is_node P i m' \<and>
    (id_ok m \<longrightarrow> id_ok m')"
proof (cases "maxW < 0 \<or> \<not> w_redisClient m \<or> w_shuttingDown m = 1 \<or> w_registered m")
  case True
  then have "lease_of m' = lease_of m \<and> is_node P i m' \<and> r' = r \<and> id_ok m' = id_ok m"
    using run m by (auto simp: RegisterWorkerID_def id_ok_def lease_of_def is_node_def split: if_splits)
  then show ?thesis using attempts_mono [OF a, of 0] by (simp add: runs_wait)
next
  case False
  let ?m = "m\<lparr>w_maxWorkerID := maxW\<rparr>"
  have "attempts_in E P i ?m ts env" using a by (simp add: attempts_in_def attempt_in_cong [of ?m m])
  moreover have "is_node P i ?m" "\<not> w_registered ?m" "lease_of ?m = lease_of m" "w_workerID ?m = w_workerID m"
    using m False by (simp_all add: is_node_def lease_of_def)
  moreover have "registerLoop R J cb env (i64 (maxW + 1)) (tries maxW) 0 ?m g r = (res, m', g', r')"
    using run False by (simp add: RegisterWorkerID_def Let_def tries_def)
  ultimately show ?thesis using registerLoop_runs [OF R J, where k = 0 and m = ?m] False unfolding id_ok_def by (metis add_0)
qed

text \<open>The environment of a registration under a given worker ID, as that of an attempt.\<close>

definition specific_attempt :: "'r specific_env \<Rightarrow> 'r attempt_env" where
  "specific_attempt e = \<lparr>a_done = False, a_incr = s_setnx e, a_now = s_now e, a_ident = s_ident e,
     a_setnx = s_setnx e, a_sadd = s_sadd e, a_backoffDone = False\<rparr>"

lemma RegisterSpecificWorkerID_runs:
  assumes R: "redis_server R" and J: "codec_ok J"
    and a: "attempt_in E P i m t (specific_attempt e) u" and m: "is_node P i m"
    and run: "RegisterSpecificWorkerID R J e w m r = (res, m', r')"
  shows "runs R J P E i (t, lease_of m, r) (u, lease_of m', r') \<and> is_node P i m' \<and> (id_ok m \<longrightarrow> id_ok m')"
proof -
  let ?a = "specific_attempt e"
  have t: "t \<le> c_at (s_setnx e)" "c_at (s_setnx e) \<le> c_at (s_sadd e)" "c_at (s_sadd e) \<le> u"
    "call_in E t (a_setnx ?a) (c_at (a_sadd ?a))"
    using a by (simp_all add: attempt_in_def call_in_def specific_attempt_def)
  show ?thesis
  proof (cases "w < 0 \<or> \<not> w_redisClient m \<or> w_registered m")
    case True
    then have "lease_of m' = lease_of m \<and> is_node P i m' \<and> r' = r \<and> id_ok m' = id_ok m"
      using run m by (auto simp: id_ok_def RegisterSpecificWorkerID_def lease_of_def is_node_def split: if_splits)
    then show ?thesis using t by (simp add: runs_wait)
  next
    case new: False
    define m1 where "m1 = m\<lparr>w_instanceID := generateInstanceID m (s_ident e)\<rparr>"
    have m1: "is_node P i m1" "\<not> w_registered m1" "w_instanceID m1 = generateInstanceID m (a_ident ?a)"
      "w_workerID m1 = w_workerID m"
      using m new instanceID_ascii by (simp_all add: m1_def is_node_def specific_attempt_def)
    have a1: "attempt_in E P i m1 t ?a u" using a attempt_in_cong [of m1 m E P i t ?a u] by (simp add: m1_def)
    obtain y r2 where s2: "issue (a_setnx ?a) (\<lambda>now. SETNX R now (getWorkerKey m1 w)
        (marshal J (newInfo m1 w (a_now ?a))) (w_ttl m1)) r = (y, r2)" by (rule prod.exhaust)
    have "nstep R J P i t (lease_of m, r) (lease_of m1, r)"
      using nstep.identity [of "lease_of m" "generateInstanceID m (s_ident e)" P i R J] a new
      by (simp add: lease_of_def attempt_in_def m1_def specific_attempt_def)
    from runs_own [OF this order_refl]
    have run1: "runs R J P E i (t, lease_of m, r) (t, lease_of m1, r)" .
    obtain ma ga ra where reg: "registered_as R None ?a w m1 () r2 = (ma, ga, ra)" by (rule prod_cases3)
    note fin = registered_as_runs [OF R m1(1) a1 reg, of J]
    show ?thesis
    proof (cases "y = Some True")
      case True
      have eq: "lease_of m' = lease_of ma" "r' = ra" "is_node P i m' = is_node P i ma" "id_ok m'"
        using run new s2 True reg
        by (auto simp: RegisterSpecificWorkerID_def registered_as_def Let_def m1_def [symmetric] specific_attempt_def
            setLeaseDeadline_def getRegistryKey_def lease_of_def is_node_def id_ok_def)
      have "runs R J P E i (t, lease_of m1, r) (c_at (a_setnx ?a),
          \<lparr>ln_id = w_instanceID m1, ln_stage = Claimed w (wall (a_now ?a))\<rparr>, r2)"
        by (intro issue_reached [OF t(4)] claim_step [OF J m1(1) a m1(3,2)])
          (use s2 True in \<open>simp_all add: issue_Some\<close>)
      from runs_trans [OF conjunct1 [OF fin] runs_trans [OF this run1]] fin show ?thesis by (simp add: eq)
    next
      case False
      have "lease_of m' = lease_of m1 \<and> is_node P i m' \<and> r' = r2 \<and> id_ok m' = id_ok m"
        using run new s2 False m1
        by (auto simp: id_ok_def RegisterSpecificWorkerID_def Let_def m1_def [symmetric] specific_attempt_def lease_of_def
            is_node_def split: option.splits bool.splits)
      moreover have "runs R J P E i (t, lease_of m, r) (c_at (a_setnx ?a), lease_of m1, r2)"
        by (rule runs_trans [OF issue_runs [OF s2 t(4)] run1]) (rule failed_claim [OF m1(1,2)])
      moreover have "c_at (a_setnx ?a) \<le> u" using t by (simp add: specific_attempt_def)
      ultimately show ?thesis by (auto intro: runs.wait)
    qed
  qed
qed


section \<open>Heartbeats\<close>

text \<open>The environment of a heartbeat: the clock is read once the reply is there, within the
  slack of the renewal at the server.\<close>

definition beat_in :: "(int \<Rightarrow> 'r \<Rightarrow> 'r \<Rightarrow> bool) \<Rightarrow> params \<Rightarrow> nat \<Rightarrow> int \<Rightarrow> 'r beat_env \<Rightarrow> int \<Rightarrow> bool" where
  "beat_in E P i t e u \<longleftrightarrow> call_in E t (b_call e) (wall (b_after e)) \<and> wall (b_after e) \<le> u \<and>
     0 \<le> wall (b_after e) \<and> wall (b_after e) + pr_ttl P i < 2 ^ 63 \<and>
     wall (b_after e) - c_at (b_call e) + pr_ttl P i mod Second < pr_slack P"

lemma script_step:
  assumes J: "codec_ok J" and m: "is_node P i m" and reg: "w_registered m"
    and "LuaScriptHeartbeat R (cjson_decode J) s (getWorkerKey m (w_workerID m))
      (marshal J (beatInfo m x)) (w_instanceID m) (ttlSeconds m) r = (y, r')"
  shows "nstep R J P i s (lease_of m, r) (lease_of m, r')"
    and "y = Some 1 \<Longrightarrow> nstep R J P i s (lease_of m, r)
      ((lease_of m)\<lparr>ln_stage := Renewing (w_workerID m) (w_leaseDeadline m) s\<rparr>, r')"
proof -
  let ?v = "marshal J (beatInfo m x)" and ?n = "lease_of m"
  have o: "owner_of J ?v = Some (ln_id ?n)"
    using owner_of_marshal [OF J, of "beatInfo m x"] m by (simp add: beatInfo_def is_node_def lease_of_def)
  have l: "LuaScriptHeartbeat R (cjson_decode J) s (nkey P i (w_workerID m)) ?v (ln_id ?n) (pr_ttl P i div Second) r = (y, r')"
    using assms(4) m int_of_Seconds [of "w_ttl m"]
    by (simp add: ttlSeconds_def is_node_def nkey_def getWorkerKey_def lease_of_def)
  have st: "ln_stage ?n = Leased (w_workerID m) (w_leaseDeadline m)" using reg by (simp add: lease_of_def)
  show "nstep R J P i s (?n, r) (?n, r')" using nstep.beat_failed [OF st o l] .
  show "nstep R J P i s (?n, r) (?n\<lparr>ln_stage := Renewing (w_workerID m) (w_leaseDeadline m) s\<rparr>, r')" if "y = Some 1"
    using nstep.beat [OF st o l [unfolded that]] .
qed

lemma beat_runs:
  assumes J: "codec_ok J" and m: "is_node P i m" and reg: "w_registered m" and e: "beat_in E P i t e u"
    and run: "beat R J e m r = (res, r')"
  shows "runs R J P E i (t, lease_of m, r) (u, lease_of m, r')"
    and "res = Inr 1 \<Longrightarrow> runs R J P E i (t, lease_of m, r) (u, lease_of (setLeaseDeadline (b_after e) m), r')"
proof -
  let ?cmd = "\<lambda>now. LuaScriptHeartbeat R (cjson_decode J) now (getWorkerKey m (w_workerID m))
      (marshal J (beatInfo m (b_infoNow e))) (w_instanceID m) (ttlSeconds m)"
  have c: "call_in E t (b_call e) (wall (b_after e))" and u: "c_at (b_call e) \<le> wall (b_after e)" "wall (b_after e) \<le> u"
    using e by (simp_all add: beat_in_def call_in_def)
  obtain x r1 where i1: "issue (b_call e) ?cmd r = (x, r1)" by (rule prod.exhaust)
  have r': "r' = r1" using run i1 by (auto simp: beat_def redisResultToInt64_def split: option.splits)
  have "runs R J P E i (t, lease_of m, r) (c_at (b_call e), lease_of m, r')"
    unfolding r' by (rule issue_runs [OF i1 c]) (rule script_step(1) [OF J m reg])
  from runs.wait [OF this] u show "runs R J P E i (t, lease_of m, r) (u, lease_of m, r')" by simp
  assume "res = Inr 1"
  then have x: "x = Some (Some 1)" using run i1 by (auto simp: beat_def redisResultToInt64_def split: option.splits)
  let ?n = "(lease_of m)\<lparr>ln_stage := Renewing (w_workerID m) (w_leaseDeadline m) (c_at (b_call e))\<rparr>"
  have "runs R J P E i (t, lease_of m, r) (c_at (b_call e), ?n, r')"
    unfolding r' by (intro issue_reached [OF c] script_step(2) [OF J m reg, where x = "b_infoNow e"]) (use i1 x in \<open>simp_all add: issue_Some\<close>)
  moreover have "nstep R J P i (wall (b_after e)) (?n, r') (lease_of (setLeaseDeadline (b_after e) m), r')"
    using nstep.renew [of ?n "w_workerID m" "w_leaseDeadline m" "c_at (b_call e)" "wall (b_after e)" P i R J r'] e u m reg
    by (simp add: beat_in_def lease_of_def setLeaseDeadline_def UnixNano_def time_Add_def i64_id is_node_def)
  ultimately have "runs R J P E i (t, lease_of m, r) (wall (b_after e), lease_of (setLeaseDeadline (b_after e) m), r')"
    by (intro runs.own [OF _ u(1)])
  from runs.wait [OF this u(2)]
  show "runs R J P E i (t, lease_of m, r) (u, lease_of (setLeaseDeadline (b_after e) m), r')" .
qed

lemma is_node_deadline: "is_node P i m \<Longrightarrow> is_node P i (setLeaseDeadline now m)"
  by (simp add: is_node_def setLeaseDeadline_def)

lemma sendHeartbeat_runs:
  assumes J: "codec_ok J" and m: "is_node P i m" and e: "beat_in E P i t e u" and id: "id_ok m"
    and run: "sendHeartbeat R J e m r = (res, m', r')"
  shows "runs R J P E i (t, lease_of m, r) (u, lease_of m', r') \<and> is_node P i m' \<and> id_ok m'"
proof (cases "w_redisClient m \<and> w_workerID m \<noteq> -1")
  case False
  then have "m' = m \<and> r' = r" using run by (auto simp: sendHeartbeat_def split: if_splits)
  moreover have "t \<le> u" using e by (simp add: beat_in_def call_in_def)
  ultimately show ?thesis using m id by (simp add: runs_wait)
next
  case True
  then have reg: "w_registered m" using id by (simp add: id_ok_def)
  obtain x r1 where b: "beat R J e m r = (x, r1)" by (rule prod.exhaust)
  note B = beat_runs [OF J m reg e b]
  have "m' = m \<or> x = Inr 1 \<and> m' = setLeaseDeadline (b_after e) m" "r' = r1"
    using run True b by (auto simp: sendHeartbeat_def split: sum.splits if_splits)
  then show ?thesis using B m reg is_node_deadline [OF m] by (auto simp: id_ok_def setLeaseDeadline_def)
qed


section \<open>Recovery\<close>

definition fresh_in :: "(int \<Rightarrow> 'r \<Rightarrow> 'r \<Rightarrow> bool) \<Rightarrow> params \<Rightarrow> nat \<Rightarrow> WorkerIDManager \<Rightarrow> (nat \<Rightarrow> nat \<Rightarrow> int) \<Rightarrow>
    (nat \<Rightarrow> nat \<Rightarrow> 'r attempt_env) \<Rightarrow> bool" where
  "fresh_in E P i m ts env \<longleftrightarrow> (\<forall>j. attempts_in E P i m (ts j) (env j) \<and> (\<forall>k. ts j k \<le> ts (Suc j) 0))"

lemma fresh_in_cong:
  "w_ttl m' = w_ttl m \<Longrightarrow> w_datacenterID m' = w_datacenterID m \<Longrightarrow> fresh_in E P i m ts env \<Longrightarrow> fresh_in E P i m' ts env"
  unfolding fresh_in_def attempts_in_def using attempt_in_cong [of m' m] by blast

lemma fresh_in_node: "is_node P i m \<Longrightarrow> is_node P i m' \<Longrightarrow> fresh_in E P i m ts env \<Longrightarrow> fresh_in E P i m' ts env"
  by (erule fresh_in_cong [rotated 2]) (simp_all add: is_node_def)

lemma fresh_mono: "fresh_in E P i m ts env \<Longrightarrow> ts j 0 \<le> ts (j + k) 0"
  by (induction k) (auto simp: fresh_in_def intro: order_trans)

lemma attemptRegisterFresh_runs:
  assumes R: "redis_server R" and J: "codec_ok J"
    and "fresh_in E P i m ts env" and "is_node P i m" and "id_ok m"
    and "attemptRegisterFresh R J cb shut env maxW left j err m g r = (res, sleeps, m', g', r')"
  shows "runs R J P E i (ts j 0, lease_of m, r) (ts (j + left) 0, lease_of m', r') \<and> is_node P i m' \<and> id_ok m'"
  using assms(3-6)
proof (induction left arbitrary: j err m g r sleeps)
  case 0
  then show ?case by (simp add: runs.stay)
next
  case (Suc left)
  let ?m = "if shut j then m\<lparr>w_shuttingDown := 1\<rparr> else m"
  have m: "is_node P i ?m" "lease_of ?m = lease_of m" "id_ok ?m" "fresh_in E P i ?m ts env"
    using Suc.prems(1-3) fresh_in_cong [of ?m m] by (auto simp: is_node_def lease_of_def id_ok_def)
  show ?case
  proof (cases "w_shuttingDown ?m = 1")
    case True
    then have "m' = ?m \<and> r' = r" using Suc.prems(4) by (auto simp: Let_def split: if_splits)
    then show ?thesis using m fresh_mono [OF m(4), of j "Suc left"] by (simp add: runs_wait)
  next
    case False
    obtain x m1 g1 r1 where reg: "RegisterWorkerID R J cb (env j) maxW ?m g r = (x, m1, g1, r1)" by (rule prod_cases4)
    have "attempts_in E P i ?m (ts j) (env j)" "ts j (tries maxW) \<le> ts (Suc j) 0"
      using m(4) by (simp_all add: fresh_in_def)
    with RegisterWorkerID_runs [OF R J this(1) m(1) reg] m(2,3)
    have one: "runs R J P E i (ts j 0, lease_of m, r) (ts (Suc j) 0, lease_of m1, r1)" "is_node P i m1" "id_ok m1"
      by (auto intro: runs.wait)
    show ?thesis
    proof (cases x)
      case (Inr w)
      then have "m' = m1 \<and> r' = r1" using Suc.prems(4) False reg by (simp add: Let_def)
      with one runs.wait [OF one(1)] fresh_mono [OF m(4), of "Suc j" left] show ?thesis by simp
    next
      case (Inl e)
      obtain later where "attemptRegisterFresh R J cb shut env maxW left (Suc j) (Some e) m1 g1 r1 = (res, later, m', g', r')"
        using Suc.prems(4) False reg Inl by (auto simp: Let_def split: prod.splits)
      from Suc.IH [OF fresh_in_node [OF m(1) one(2) m(4)] one(2,3) this] runs_trans [OF _ one(1)]
      show ?thesis by simp
    qed
  qed
qed

text \<open>The environment of a tick: its heartbeat, and the heartbeat and the attempts of a recovery.\<close>

definition tick_in :: "(int \<Rightarrow> 'r \<Rightarrow> 'r \<Rightarrow> bool) \<Rightarrow> params \<Rightarrow> nat \<Rightarrow> WorkerIDManager \<Rightarrow> int \<Rightarrow> 'r beat_env \<Rightarrow>
    'r rereg_env \<Rightarrow> int \<Rightarrow> bool" where
  "tick_in E P i m t e e' u \<longleftrightarrow> (\<exists>t1 t2 ts. beat_in E P i t e t1 \<and> beat_in E P i t1 (r_beat e') t2 \<and>
     t2 \<le> ts 0 0 \<and> fresh_in E P i m ts (r_attempts e') \<and> ts 3 0 \<le> u)"

lemma reacquire_runs:
  assumes R: "redis_server R" and J: "codec_ok J" and f: "fresh_in E P i m ts env" and m: "is_node P i m"
    and run: "reacquireFreshWorkerID R J cb shut env w m g r = (res, m', g', r')"
  shows "runs R J P E i (ts 0 0, lease_of m, r) (ts 3 0, lease_of m', r') \<and> is_node P i m' \<and> id_ok m'"
proof -
  define m1 where "m1 = stopHeartbeat (m\<lparr>w_healthy := 0, w_leaseDeadline := 0, w_workerID := -1, w_registered := False\<rparr>)"
  have m1: "is_node P i m1" "id_ok m1" "lease_of m1 = (lease_of m)\<lparr>ln_stage := Free\<rparr>"
    using m by (auto simp: m1_def is_node_def id_ok_def lease_of_def stopHeartbeat_def split: option.splits)
  have "nstep R J P i (ts 0 0) (lease_of m, r) (lease_of m1, r)" using nstep.lose [of R J P i "ts 0 0" "lease_of m" r] m1(3) by simp
  from runs_own [OF this order_refl]
  have lose: "runs R J P E i (ts 0 0, lease_of m, r) (ts 0 0, lease_of m1, r)" .
  obtain x sleeps m2 g2 r2 where a: "attemptRegisterFresh R J cb shut env (w_maxWorkerID m1) 3 0 None m1 g r = (x, sleeps, m2, g2, r2)"
    by (rule prod_cases5)
  from attemptRegisterFresh_runs [OF R J fresh_in_node [OF m m1(1) f] m1(1,2) a]
  have two: "runs R J P E i (ts 0 0, lease_of m1, r) (ts 3 0, lease_of m2, r2)" "is_node P i m2" "id_ok m2" by simp_all
  show ?thesis
  proof (cases "w_maxWorkerID m1 < 0")
    case True
    then have "m' = m1 \<and> r' = r"
      using run by (simp add: reacquireFreshWorkerID_def Let_def m1_def)
    then show ?thesis using m1 runs.wait [OF lose] fresh_mono [OF f, of 0 3] by simp
  next
    case False
    have "r' = r2 \<and> (m' = m2 \<or> m' = m2\<lparr>w_recovering := 1\<rparr>)"
      using run False a by (auto simp: reacquireFreshWorkerID_def Let_def m1_def split: sum.splits if_splits)
    then show ?thesis using two runs_trans [OF two(1) lose] by (auto simp: is_node_def id_ok_def lease_of_def)
  qed
qed


lemma beat_in_le: "beat_in E P i t e u \<Longrightarrow> t \<le> u"
  by (simp add: beat_in_def call_in_def)

lemma tryReRegister_runs:
  assumes R: "redis_server R" and J: "codec_ok J" and m: "is_node P i m" and id: "id_ok m"
    and b: "beat_in E P i t (r_beat e) t2" and f: "fresh_in E P i m ts (r_attempts e)" "t2 \<le> ts 0 0" "ts 3 0 \<le> u"
    and run: "tryReRegister R J cb e m g r = (res, m', g', r')"
  shows "runs R J P E i (t, lease_of m, r) (u, lease_of m', r') \<and> is_node P i m' \<and> id_ok m'"
proof -
  have u: "t2 \<le> u" using f(2,3) fresh_mono [OF f(1), of 0 3] by simp
  show ?thesis
  proof (cases "w_redisClient m \<and> w_registered m \<and> \<not> w_workerID m < 0")
    case False
    then have "m' = m \<and> r' = r" using run by (auto simp: tryReRegister_def split: if_splits)
    then show ?thesis using m id u beat_in_le [OF b] by (simp add: runs_wait)
  next
    case True
    then have reg: "w_registered m" by simp
    obtain x r1 where bt: "beat R J (r_beat e) m r = (x, r1)" by (rule prod.exhaust)
    note B = beat_runs [OF J m reg b bt]
    consider (kept) "m' = m" "r' = r1" | (renewed) "x = Inr 1" "m' = setLeaseDeadline (b_after (r_beat e)) m" "r' = r1"
      | (fresh) "reacquireFreshWorkerID R J cb (r_shut e) (r_attempts e) (w_workerID m) m g r1 = (res, m', g', r')"
      using run True bt by (auto simp: tryReRegister_def split: sum.splits if_splits)
    then show ?thesis
    proof cases
      case kept
      then show ?thesis using runs.wait [OF B(1) u] m id by simp
    next
      case renewed
      then show ?thesis using runs.wait [OF B(2) [OF renewed(1)] u] is_node_deadline [OF m] reg
        by (simp add: id_ok_def setLeaseDeadline_def)
    next
      case fresh
      note F = reacquire_runs [OF R J f(1) m fresh]
      from runs.wait [OF runs_trans [OF conjunct1 [OF F] runs.wait [OF B(1) f(2)]] f(3)] F show ?thesis by simp
    qed
  qed
qed

lemma lease_of_frame:
  "lease_of (m\<lparr>w_healthy := h\<rparr>) = lease_of m" "is_node P i (m\<lparr>w_healthy := h\<rparr>) = is_node P i m"
  "id_ok (m\<lparr>w_healthy := h\<rparr>) = id_ok m"
  "lease_of (wprom c m) = lease_of m" "is_node P i (wprom c m) = is_node P i m" "id_ok (wprom c m) = id_ok m"
  by (simp_all add: lease_of_def is_node_def id_ok_def)

lemma heartbeatTick_runs:
  assumes R: "redis_server R" and J: "codec_ok J" and m: "is_node P i m" and id: "id_ok m"
    and env: "tick_in E P i m t e e' u" and run: "heartbeatTick R J cb e e' k m g r = (k', m', g', r')"
  shows "runs R J P E i (t, lease_of m, r) (u, lease_of m', r') \<and> is_node P i m' \<and> id_ok m'"
proof -
  obtain t1 t2 ts where b: "beat_in E P i t e t1" "beat_in E P i t1 (r_beat e') t2"
    and f: "t2 \<le> ts 0 0" "fresh_in E P i m ts (r_attempts e')" "ts 3 0 \<le> u"
    using env by (auto simp: tick_in_def)
  have u: "t1 \<le> u" using beat_in_le [OF b(2)] f fresh_mono [OF f(2), of 0 3] by simp
  obtain err m1 r1 where s: "sendHeartbeat R J e m r = (err, m1, r1)" by (rule prod_cases3)
  from sendHeartbeat_runs [OF J m b(1) id s]
  have one: "runs R J P E i (t, lease_of m, r) (t1, lease_of m1, r1)" "is_node P i m1" "id_ok m1" by simp_all
  show ?thesis
  proof (cases "err \<noteq> None \<and> i64 (k + 1) \<ge> 3")
    case False
    then have "lease_of m' = lease_of m1 \<and> is_node P i m' \<and> id_ok m' \<and> r' = r1"
      using run s one by (auto simp: heartbeatTick_def Let_def lease_of_frame split: option.splits if_splits)
    then show ?thesis using runs.wait [OF one(1) u] by simp
  next
    case True
    define m2 where "m2 = (wprom PromHeartbeatFailures m1)\<lparr>w_healthy := 0\<rparr>"
    have m2: "is_node P i m2" "id_ok m2" "lease_of m2 = lease_of m1" using one by (simp_all add: m2_def lease_of_frame)
    obtain x m3 g3 r3 where a: "tryReRegister R J cb e' m2 g r1 = (x, m3, g3, r3)" by (rule prod_cases4)
    have "r' = r3 \<and> (m' = m3 \<or> m' = m3\<lparr>w_healthy := 1\<rparr>)"
      using run s True a by (auto simp: heartbeatTick_def Let_def m2_def split: option.splits)
    with tryReRegister_runs [OF R J m2(1,2) b(2) fresh_in_node [OF m m2(1) f(2)] f(1,3) a] runs_trans [OF _ one(1)] m2(3)
    show ?thesis by (auto simp: lease_of_frame)
  qed
qed

section \<open>Deregistration\<close>

text \<open>The key is deleted while the lease still runs, short of the slack.\<close>

definition unregister_in :: "(int \<Rightarrow> 'r \<Rightarrow> 'r \<Rightarrow> bool) \<Rightarrow> params \<Rightarrow> WorkerIDManager \<Rightarrow> int \<Rightarrow> 'r unregister_env \<Rightarrow> int \<Rightarrow> bool" where
  "unregister_in E P m t e u \<longleftrightarrow> call_in E t (u_get e) (c_at (u_del e)) \<and> call_in E t (u_del e) (c_at (u_srem e)) \<and>
     call_in E t (u_srem e) u \<and> c_at (u_del e) \<le> w_leaseDeadline m - pr_slack P"

lemma UnregisterWorkerID_runs:
  assumes R: "redis_server R" and m: "is_node P i m" and env: "unregister_in E P m t e u" and id: "id_ok m"
    and run: "UnregisterWorkerID R J e m r = (res, m', r')"
  shows "runs R J P E i (t, lease_of m, r) (u, lease_of m', r') \<and> is_node P i m' \<and> id_ok m'"
proof -
  let ?k = "getWorkerKey m (w_workerID m)" and ?n = "(lease_of m)\<lparr>ln_stage := Free\<rparr>"
  let ?rel = "(lease_of m)\<lparr>ln_stage := Releasing (w_workerID m) (w_leaseDeadline m)\<rparr>"
  let ?d = "\<lambda>r. snd (issue (u_del e) (\<lambda>now r. ((), DEL R now ?k r)) r)"
  let ?s = "\<lambda>r. snd (issue (u_srem e) (\<lambda>now r. ((), SREM R now (getRegistryKey m) (registryMember (w_datacenterID m) (w_workerID m)) r)) r)"
  have c: "call_in E t (u_get e) (c_at (u_del e))" "call_in E (c_at (u_get e)) (u_del e) (c_at (u_srem e))"
    "call_in E (c_at (u_get e)) (u_srem e) u" "call_in E (c_at (u_del e)) (u_srem e) u" "t \<le> u"
    "c_at (u_get e) \<le> u" "c_at (u_srem e) \<le> u"
    using env by (simp_all add: unregister_in_def call_in_def)
  note state = UnregisterWorkerID_state [OF run]
  have m': "is_node P i m'" "w_instanceID m' = w_instanceID m"
    using run m by (auto simp: UnregisterWorkerID_def Let_def stopHeartbeat_def is_node_def wprom_def
        split: if_splits option.splits prod.splits)
  show ?thesis
  proof (cases "w_registered m")
    case False
    then show ?thesis using state m id c(5) by (auto simp: lease_of_def is_node_def id_ok_def intro: runs_wait)
  next
    case True
    then have l: "lease_of m' = ?n" "id_ok m'" using state m'(2) by (simp_all add: lease_of_def id_ok_def)
    have rel: "runs R J P E i (t, lease_of m, r) (t, ?rel, r)"
      using True by (intro runs_own [OF nstep.release]) (simp_all add: lease_of_def)
    have lose: "runs R J P E i (t', ?rel, x) (t', ?n, x)" for t' x
      using runs_own [OF nstep.lose [of R J P i t' ?rel x]] by simp
    have srem: "runs R J P E i (t', ?n, x) (u, ?n, ?s x)" if "call_in E t' (u_srem e) u" for t' x
    proof -
      obtain y x' where i: "issue (u_srem e) (\<lambda>now r. ((), SREM R now (getRegistryKey m) (registryMember (w_datacenterID m) (w_workerID m)) r)) x = (y, x')"
        by (rule prod.exhaust)
      from runs.wait [OF issue_runs [OF i that] c(7)] aux_registry(2) [OF _ R] m i
      show ?thesis by (auto simp: is_node_def)
    qed
    obtain x r1 where i1: "issue (u_get e) (\<lambda>now r. (GET R now ?k r, r)) r = (x, r1)" by (rule prod.exhaust)
    have g: "runs R J P E i (t, lease_of m, r) (c_at (u_get e), ?rel, r1)"
      by (rule runs_trans [OF issue_runs [OF i1 c(1)] rel]) (auto intro: nstep.aux simp: same_key_def)
    have del: "runs R J P E i (c_at (u_get e), ?rel, r1) (c_at (u_del e), ?n, ?d r1)"
    proof (cases "c_net (u_del e) = Unreached")
      case True
      then have "?d r1 = c_before (u_del e) r1" by (simp add: issue_def)
      with runs_trans [OF lose runs_other [of "c_at (u_get e)" "c_at (u_del e)" E r1 "?d r1"]] c(2)
      show ?thesis by (simp add: call_in_def)
    next
      case False
      have "nstep R J P i (c_at (u_del e)) (?rel, c_before (u_del e) r1) (?n, ?d r1)"
        using nstep.delete [of ?rel "w_workerID m" "w_leaseDeadline m" "c_at (u_del e)" P R J i "c_before (u_del e) r1"] env m False
        by (cases "c_net (u_del e)") (simp_all add: unregister_in_def issue_def is_node_def nkey_def getWorkerKey_def)
      from issue_reached [OF c(2) this] show ?thesis .
    qed
    have "r' \<in> {r, r1, ?s r1, ?s (?d r1)}" by (rule redis_server.unregister_store [OF R run i1 refl refl])
    then have "runs R J P E i (t, lease_of m, r) (u, ?n, r')"
      using runs.wait [OF runs_trans [OF lose rel] c(5)] runs.wait [OF runs_trans [OF lose g] c(6)]
        runs_trans [OF srem [OF c(3)] runs_trans [OF lose g]] runs_trans [OF srem [OF c(4)] runs_trans [OF del g]]
      by auto
    then show ?thesis using l m' by simp
  qed
qed


section \<open>Sequences of operations\<close>

datatype 'r manager_op =
  MRegister int "nat \<Rightarrow> 'r attempt_env"
| MSpecific int "'r specific_env"
| MTick int "'r beat_env" "'r rereg_env"
| MUnregister "'r unregister_env"
| MHealthy time
| MIdle "'r \<Rightarrow> 'r" \<comment> \<open>no operation; the others change the store\<close>

fun mstep :: "'r redis \<Rightarrow> codec \<Rightarrow> (int \<Rightarrow> 'g \<Rightarrow> 'g) option \<Rightarrow> 'r manager_op \<Rightarrow>
    WorkerIDManager \<times> 'g \<times> 'r \<Rightarrow> WorkerIDManager \<times> 'g \<times> 'r" where
  "mstep R J cb (MRegister maxW env) (m, g, r) = snd (RegisterWorkerID R J cb env maxW m g r)"
| "mstep R J cb (MSpecific w e) (m, g, r) = (case RegisterSpecificWorkerID R J e w m r of (res, m, r) \<Rightarrow> (m, g, r))"
| "mstep R J cb (MTick k e e') (m, g, r) = snd (heartbeatTick R J cb e e' k m g r)"
| "mstep R J cb (MUnregister e) (m, g, r) = (case UnregisterWorkerID R J e m r of (res, m, r) \<Rightarrow> (m, g, r))"
| "mstep R J cb (MHealthy now) (m, g, r) = (snd (worker_IsHealthy now m), g, r)"
| "mstep R J cb (MIdle f) (m, g, r) = (m, g, f r)"

text \<open>An operation between the instants \<open>t\<close> and \<open>u\<close>, and a list of them, each with its end.\<close>

definition op_in :: "(int \<Rightarrow> 'r \<Rightarrow> 'r \<Rightarrow> bool) \<Rightarrow> params \<Rightarrow> nat \<Rightarrow> WorkerIDManager \<Rightarrow> int \<Rightarrow> 'r manager_op \<Rightarrow> int \<Rightarrow> bool" where
  "op_in E P i m t op u \<longleftrightarrow> (case op of
     MRegister maxW env \<Rightarrow> (\<exists>ts. attempts_in E P i m ts env \<and> t \<le> ts 0 \<and> ts (tries maxW) \<le> u)
   | MSpecific w e \<Rightarrow> attempt_in E P i m t (specific_attempt e) u
   | MTick k e e' \<Rightarrow> tick_in E P i m t e e' u
   | MUnregister e \<Rightarrow> unregister_in E P m t e u
   | MHealthy now \<Rightarrow> t \<le> u
   | MIdle f \<Rightarrow> t \<le> u \<and> (\<forall>r. E u r (f r)))"

fun mrun :: "'r redis \<Rightarrow> codec \<Rightarrow> (int \<Rightarrow> 'g \<Rightarrow> 'g) option \<Rightarrow> ('r manager_op \<times> int) list \<Rightarrow>
    WorkerIDManager \<times> 'g \<times> 'r \<Rightarrow> WorkerIDManager \<times> 'g \<times> 'r" where
  "mrun R J cb [] x = x"
| "mrun R J cb ((op, u) # ops) x = mrun R J cb ops (mstep R J cb op x)"

fun ops_in :: "'r redis \<Rightarrow> codec \<Rightarrow> (int \<Rightarrow> 'g \<Rightarrow> 'g) option \<Rightarrow> (int \<Rightarrow> 'r \<Rightarrow> 'r \<Rightarrow> bool) \<Rightarrow> params \<Rightarrow> nat \<Rightarrow> int \<Rightarrow>
    ('r manager_op \<times> int) list \<Rightarrow> WorkerIDManager \<times> 'g \<times> 'r \<Rightarrow> int \<Rightarrow> bool" where
  "ops_in R J cb E P i t [] x u = (t \<le> u)"
| "ops_in R J cb E P i t ((op, t') # ops) x u =
     (op_in E P i (fst x) t op t' \<and> ops_in R J cb E P i t' ops (mstep R J cb op x) u)"

lemma mstep_runs:
  assumes R: "redis_server R" and J: "codec_ok J" and m: "is_node P i m" and id: "id_ok m"
    and env: "op_in E P i m t op u" and run: "mstep R J cb op (m, g, r) = (m', g', r')"
  shows "runs R J P E i (t, lease_of m, r) (u, lease_of m', r') \<and> is_node P i m' \<and> id_ok m'"
proof (cases op)
  case (MRegister maxW a)
  then obtain ts where ts: "attempts_in E P i m ts a" "t \<le> ts 0" "ts (tries maxW) \<le> u"
    using env by (auto simp: op_in_def)
  obtain x where x: "RegisterWorkerID R J cb a maxW m g r = (x, m', g', r')"
    using run MRegister by (cases "RegisterWorkerID R J cb a maxW m g r") auto
  note A = RegisterWorkerID_runs [OF R J ts(1) m x]
  from runs.wait [OF runs_trans [OF conjunct1 [OF A] runs_wait [OF ts(2)]] ts(3)] A id show ?thesis by simp
next
  case (MSpecific w e)
  with env run RegisterSpecificWorkerID_runs [OF R J _ m] id show ?thesis
    by (fastforce simp: op_in_def split: prod.splits)
next
  case (MTick k e e')
  obtain x where "heartbeatTick R J cb e e' k m g r = (x, m', g', r')"
    using run MTick by (cases "heartbeatTick R J cb e e' k m g r") auto
  from heartbeatTick_runs [OF R J m id _ this] env MTick show ?thesis by (simp add: op_in_def)
next
  case (MUnregister e)
  with env run UnregisterWorkerID_runs [OF R m _ id] show ?thesis
    by (fastforce simp: op_in_def split: prod.splits)
next
  case (MHealthy now)
  with env run m id show ?thesis
    by (auto simp: op_in_def worker_IsHealthy_def Let_def lease_of_frame runs_wait)
next
  case (MIdle f)
  with env run m id show ?thesis by (auto simp: op_in_def intro: runs_other)
qed

lemma mrun_runs_aux:
  assumes R: "redis_server R" and J: "codec_ok J" and "is_node P i m" and "id_ok m"
    and "ops_in R J cb E P i t ops (m, g, r) u" and "mrun R J cb ops (m, g, r) = (m', g', r')"
  shows "runs R J P E i (t, lease_of m, r) (u, lease_of m', r') \<and> is_node P i m' \<and> id_ok m'"
  using assms(3-)
proof (induction ops arbitrary: t m g r)
  case Nil
  then show ?case by (simp add: runs_wait)
next
  case (Cons x ops)
  obtain op s where x: "x = (op, s)" by (rule prod.exhaust)
  obtain m1 g1 r1 where step: "mstep R J cb op (m, g, r) = (m1, g1, r1)" by (rule prod_cases3)
  have "op_in E P i m t op s" using Cons.prems(3) x by simp
  note S = mstep_runs [OF R J Cons.prems(1,2) this step]
  have "runs R J P E i (s, lease_of m1, r1) (u, lease_of m', r') \<and> is_node P i m' \<and> id_ok m'"
    using Cons.prems(3,4) S x step by (intro Cons.IH [of m1 s g1 r1]) simp_all
  with S runs_trans [of R J P E i] show ?case by blast
qed

end
