(* ===== verification/Lease_Props.thy ===== *)
theory Lease_Props
  imports Lease_Refinement Worker_Demo
begin

text \<open>
  Any number of managers on one server, all their operations interleaved: no two of them have
  leases that run on one worker ID.
\<close>

section \<open>Rely and guarantee\<close>

definition rely :: "'r redis \<Rightarrow> codec \<Rightarrow> params \<Rightarrow> nat \<Rightarrow> int \<Rightarrow> 'r \<Rightarrow> 'r \<Rightarrow> bool" where
  "rely R J P i s r r' \<longleftrightarrow> (\<forall>x \<in> pr_ids P i. keeps_mine R J (pr_prefix P) x s r r')"

lemma rely_later: "rely R J P i s r r' \<Longrightarrow> s \<le> u \<Longrightarrow> rely R J P i u r r'"
  by (auto simp: rely_def keeps_mine_def)

lemma rely_trans: "rely R J P i s r r' \<Longrightarrow> rely R J P i s r' r'' \<Longrightarrow> rely R J P i s r r''"
  by (auto simp: rely_def intro: keeps_mine_trans)

text \<open>A manager as it is built.\<close>

definition fresh_node :: "params \<Rightarrow> nat \<Rightarrow> WorkerIDManager \<Rightarrow> bool" where
  "fresh_node P i m \<longleftrightarrow> is_node P i m \<and> \<not> w_registered m \<and> w_workerID m = -1"

lemma fresh_nodeD:
  assumes "fresh_node P i m"
  shows "is_node P i m" and "id_ok m" and "node_inv R J P i t (lease_of m) r"
  using assms by (simp_all add: fresh_node_def id_ok_def node_inv_def lease_of_def)

context redis_server
begin

lemma runs_inv:
  assumes P: "params_ok P" and "runs R J P E i x y" and "node_inv R J P i (fst x) (fst (snd x)) (snd (snd x))"
    and E: "\<And>s r r'. E s r r' \<Longrightarrow> rely R J P i s r r'"
  shows "node_inv R J P i (fst y) (fst (snd y)) (snd (snd y))"
  using assms(2,3)
proof (induction rule: runs.induct)
  case (wait x t n r s)
  then show ?case by (auto intro: node_inv_later keeps_mine_refl)
next
  case (own x t n r s n' r')
  then show ?case using nstep_own [OF P] by auto
next
  case (other x t n r s r')
  then have inv: "node_inv R J P i t n r" by simp
  have "keeps_mine R J (pr_prefix P) (ln_id n) s r r'" if "ln_stage n \<noteq> Free"
    using E [OF other(3)] inv that by (simp add: rely_def node_inv_def)
  with node_inv_later [OF inv other(2)] show ?case by simp
qed simp

text \<open>What a run does to the store is interference that the others can rely on.\<close>

lemma runs_guarantee:
  assumes P: "params_ok P" and "runs R J P E i x y" and "node_inv R J P i (fst x) (fst (snd x)) (snd (snd x))"
    and E: "\<And>s r r'. E s r r' \<Longrightarrow> rely R J P i s r r' \<and> rely R J P j s r r'" and j: "j \<noteq> i"
  shows "rely R J P j (fst y) (snd (snd x)) (snd (snd y)) \<and> node_inv R J P i (fst y) (fst (snd y)) (snd (snd y))"
  using assms(2,3)
proof (induction rule: runs.induct)
  case (stay x)
  then show ?case by (simp add: rely_def keeps_mine_refl)
next
  case (wait x t n r s)
  then show ?case by (auto intro: node_inv_later keeps_mine_refl rely_later)
next
  case (own x t n r s n' r')
  then have IH: "rely R J P j s (snd (snd x)) r" "node_inv R J P i t n r" by (auto intro: rely_later)
  have "rely R J P j s r r'" using nstep_spares [OF P own(3) IH(2) own(2) j] by (simp add: rely_def)
  with rely_trans [OF IH(1)] nstep_own [OF P own(3) IH(2) own(2)] show ?case by simp
next
  case (other x t n r s r')
  then have IH: "rely R J P j s (snd (snd x)) r" "node_inv R J P i t n r" by (auto intro: rely_later)
  have "keeps_mine R J (pr_prefix P) (ln_id n) s r r'" if "ln_stage n \<noteq> Free"
    using E [OF other(3)] IH(2) that by (simp add: rely_def node_inv_def)
  with node_inv_later [OF IH(2) other(2)] rely_trans [OF IH(1)] E [OF other(3)] show ?case by simp
qed

lemma manager_inv:
  assumes J: "codec_ok J" and P: "params_ok P" and m: "fresh_node P i m"
    and ops: "ops_in R J cb (rely R J P i) P i t ops (m, g, r) u" and run: "mrun R J cb ops (m, g, r) = (m', g', r')"
  shows "node_inv R J P i u (lease_of m') r' \<and> is_node P i m'"
proof -
  note M = mrun_runs_aux [OF redis_server_axioms J fresh_nodeD(1,2) [OF m] ops run]
  from runs_inv [OF P conjunct1 [OF M]] M show ?thesis by (simp add: fresh_nodeD(3) [OF m])
qed

end

section \<open>Managers\<close>

text \<open>C4: Two managers with different identities, each built, and then running any registrations,
  heartbeats, recoveries and deregistrations against one Redis, with any interleaving of
  their commands and of those of other clients: each relies only on the others leaving its
  keys alone. If both end up registered, then, while both leases run (short of the slack: the
  way of a reply and a fraction of a second), their worker IDs differ.\<close>

theorem managers_apart:
  assumes "redis_server R" and "codec_ok J" and "params_ok P" and "i \<noteq> j" and "pr_dc P i = pr_dc P j"
    and "fresh_node P i m1" and "ops_in R J cb1 (rely R J P i) P i t1 ops1 (m1, g1, r1) u"
    and "mrun R J cb1 ops1 (m1, g1, r1) = (m1', g1', r)"
    and "fresh_node P j m2" and "ops_in R J cb2 (rely R J P j) P j t2 ops2 (m2, g2, r2) u"
    and "mrun R J cb2 ops2 (m2, g2, r2) = (m2', g2', r)"
    and "w_registered m1'" and "w_registered m2'" and "u \<le> UnixNano now"
    and "UnixNano now \<le> w_leaseDeadline m1' - pr_slack P" and "UnixNano now \<le> w_leaseDeadline m2' - pr_slack P"
  shows "w_workerID m1' \<noteq> w_workerID m2'"
proof -
  note I = redis_server.manager_inv [OF assms(1-3)]
  have "ln_stage (lease_of m1') = Leased (w_workerID m1') (w_leaseDeadline m1')"
    "ln_stage (lease_of m2') = Leased (w_workerID m2') (w_leaseDeadline m2')"
    using assms(12,13) by (simp_all add: lease_of_def)
  from redis_server.nodes_apart [OF assms(1,3-5) conjunct1 [OF I [OF assms(6-8)]] conjunct1 [OF I [OF assms(9-11)]] this assms(14-16)]
  show ?thesis .
qed

text \<open>C18: What the others rely on is what every manager keeps: whatever operations one runs, as
  long as outside clients spare everybody's keys, no key that another manager holds is
  touched. A deregistration is included if it deletes its key while its lease runs.\<close>

theorem operations_spare_others:
  assumes "redis_server R" and "codec_ok J" and "params_ok P" and "fresh_node P i m" and "j \<noteq> i"
    and "ops_in R J cb (spares_all R J P) P i t ops (m, g, r) u" and "mrun R J cb ops (m, g, r) = (m', g', r')"
  shows "rely R J P j u r r'"
proof -
  note M = mrun_runs_aux [OF assms(1,2) fresh_nodeD(1,2) [OF assms(4)] assms(6,7)]
  have "rely R J P i s r r' \<and> rely R J P j s r r'" if "spares_all R J P s r r'" for s r r'
    using that by (simp add: spares_all_def rely_def)
  from redis_server.runs_guarantee [OF assms(1,3) conjunct1 [OF M] _ this assms(5)]
  show ?thesis by (simp add: fresh_nodeD(3) [OF assms(4)])
qed

text \<open>C17: The managers implement the lease protocol: whatever operations a manager runs, the
  system of the protocol, in which every instance takes its steps one command at a time, can
  follow it, from any reachable state in which its instance is at the manager's stage to one
  with the same store in which it is at the manager's new stage; the other instances stay.\<close>

theorem managers_refine_protocol:
  assumes "redis_server R" and "codec_ok J" and "reachable R J P S" and "sy_node S i = lease_of m"
    and "is_node P i m" and "id_ok m"
    and "ops_in R J cb (spares_all R J P) P i (sy_now S) ops (m, g, sy_store S) u"
    and "mrun R J cb ops (m, g, sy_store S) = (m', g', r')"
  shows "\<exists>S'. reachable R J P S' \<and> sy_now S' = u \<and> sy_store S' = r' \<and> sy_node S' i = lease_of m' \<and>
    (\<forall>k. k \<noteq> i \<longrightarrow> sy_node S' k = sy_node S k)"
proof -
  note M = mrun_runs_aux [OF assms(1,2,5-8)]
  from runs_in_system [OF conjunct1 [OF M], of S] assms(4) obtain S' where
    S': "(sys_step R J P)\<^sup>*\<^sup>* S S'" "(u, lease_of m', r') = (sy_now S', sy_node S' i, sy_store S')"
    "\<forall>k. k \<noteq> i \<longrightarrow> sy_node S' k = sy_node S k" by auto
  with reachable_steps [OF S'(1) assms(3)] show ?thesis by (intro exI [of _ S']) simp
qed


section \<open>Two managers on the in-memory server\<close>

definition demo_params :: params where
  "demo_params = \<lparr>pr_prefix = ''eon:'', pr_dc = (\<lambda>i. 3), pr_ttl = (\<lambda>i. 10 * Second),
     pr_ids = (\<lambda>i. if i = 0 then {''instance-1-3-1-0-5''} else if i = 1 then {''instance-1-3-2-0-5''} else {}),
     pr_slack = Millisecond\<rparr>"

lemma demo_params_ok: "params_ok demo_params"
  by (simp add: params_ok_def demo_params_def)

lemma demo_fresh: "fresh_node demo_params i demo_manager"
proof -
  have "w_instanceID demo_manager = ''''" "w_workerID demo_manager = -1" by (code_simp, code_simp)
  then show ?thesis
    using demo_ttl by (simp add: fresh_node_def is_node_def demo_params_def ascii_def)
qed

lemma demo_ids: "generateInstanceID demo_manager (demo_ident 1) = ''instance-1-3-1-0-5''"
  "generateInstanceID demo_manager (demo_ident 2) = ''instance-1-3-2-0-5''"
  by (code_simp, code_simp)

lemma demo_attempts_in:
  assumes "generateInstanceID demo_manager (demo_ident pid) \<in> pr_ids demo_params i" and "0 \<le> ms" and "ms < 1000000"
    and "\<And>s r. E s r r"
  shows "attempts_in E demo_params i demo_manager (\<lambda>k. at_ms ms) (demo_attempt pid ms)"
  using assms demo_ttl(1)
  by (simp add: attempts_in_def attempt_in_def call_in_def demo_attempt_def arrives_def at_ms_def)

lemma demo_register_in:
  assumes "generateInstanceID demo_manager (demo_ident pid) \<in> pr_ids demo_params i" and "0 \<le> ms" and "ms < 1000000"
    and "\<And>s r. E s r r" and "t \<le> at_ms ms" and "at_ms ms \<le> u"
  shows "op_in E demo_params i demo_manager t (MRegister 31 (demo_attempt pid ms)) u"
  using demo_attempts_in [of pid i ms E, OF assms(1-4)] assms(5,6) by (auto simp: op_in_def)

lemma demo_ids_in: "generateInstanceID demo_manager (demo_ident 1) \<in> pr_ids demo_params 0"
  "generateInstanceID demo_manager (demo_ident 2) \<in> pr_ids demo_params 1"
  unfolding demo_ids by (simp_all add: demo_params_def)

lemma rely_refl: "rely R J P i s r r"
  by (simp add: rely_def keeps_mine_refl)

lemma spares_all_refl: "spares_all R J P s r r"
  by (simp add: spares_all_def keeps_mine_refl)

text \<open>What the registration of the second does to any store.\<close>

definition demo_other :: "mem \<Rightarrow> mem" where
  "demo_other r = snd (snd (snd (RegisterWorkerID mem_redis demo_codec (Some SetWorkerID) (demo_attempt 2 1000) 31
     demo_manager demo_gen r)))"

lemma demo_other_spares: "rely mem_redis demo_codec demo_params 0 (at_ms 1000) r (demo_other r)"
proof -
  obtain x m g r' where run: "RegisterWorkerID mem_redis demo_codec (Some SetWorkerID) (demo_attempt 2 1000) 31
      demo_manager demo_gen r = (x, m, g, r')" by (rule prod_cases4)
  have a: "attempts_in (\<lambda>s r r'. r' = r) demo_params 1 demo_manager (\<lambda>k. at_ms 1000) (demo_attempt 2 1000)"
    by (rule demo_attempts_in [OF demo_ids_in(2)]) simp_all
  note M = RegisterWorkerID_runs [OF mem.redis_server_axioms demo_codec_ok a fresh_nodeD(1) [OF demo_fresh] run]
  have "rely mem_redis demo_codec demo_params 0 (at_ms 1000) r r'"
    using mem.runs_guarantee [OF demo_params_ok conjunct1 [OF M], of 0]
    by (simp add: rely_refl fresh_nodeD(3) [OF demo_fresh])
  then show ?thesis by (simp add: demo_other_def run)
qed

lemma demo_other_r1: "demo_other demo_r1 = demo_r2"
  using demo_second_eq by (simp add: demo_other_def)

lemma managers_apart_witness: "w_workerID demo_m1 \<noteq> w_workerID demo_m2"
proof (rule managers_apart [OF mem.redis_server_axioms demo_codec_ok demo_params_ok, of 0 1])
  show "ops_in mem_redis demo_codec (Some SetWorkerID) (rely mem_redis demo_codec demo_params 0) demo_params 0 (at_ms 0)
      [(MRegister 31 (demo_attempt 1 0), at_ms 0), (MIdle demo_other, at_ms 1000)] (demo_manager, demo_gen, mem_empty) (at_ms 1000)"
    using demo_register_in [OF demo_ids_in(1), of 0 "rely mem_redis demo_codec demo_params 0" "at_ms 0" "at_ms 0"]
      demo_other_spares
    by (simp add: rely_refl op_in_def at_ms_def)
  show "mrun mem_redis demo_codec (Some SetWorkerID)
      [(MRegister 31 (demo_attempt 1 0), at_ms 0), (MIdle demo_other, at_ms 1000)] (demo_manager, demo_gen, mem_empty) =
      (demo_m1, demo_g1, demo_r2)"
    using demo_first_eq demo_other_r1 by simp
  show "ops_in mem_redis demo_codec (Some SetWorkerID) (rely mem_redis demo_codec demo_params 1) demo_params 1 (at_ms 1000)
      [(MRegister 31 (demo_attempt 2 1000), at_ms 1000)] (demo_manager, demo_gen, demo_r1) (at_ms 1000)"
    using demo_register_in [OF demo_ids_in(2), of 1000 "rely mem_redis demo_codec demo_params 1" "at_ms 1000" "at_ms 1000"]
    by (simp add: rely_refl)
  show "mrun mem_redis demo_codec (Some SetWorkerID) [(MRegister 31 (demo_attempt 2 1000), at_ms 1000)]
      (demo_manager, demo_gen, demo_r1) = (demo_m2, demo_g2, demo_r2)"
    using demo_second_eq by simp
  show "w_registered demo_m2" by code_simp
  show "at_ms 1000 \<le> UnixNano (demo_time 5000)"
    "UnixNano (demo_time 5000) \<le> w_leaseDeadline demo_m1 - pr_slack demo_params"
    "UnixNano (demo_time 5000) \<le> w_leaseDeadline demo_m2 - pr_slack demo_params"
    using demo_m1_facts demo_m2_facts
    by (simp_all add: UnixNano_def demo_time_def at_ms_def i64_id demo_params_def)
qed (use demo_fresh demo_m1_facts in \<open>simp_all add: demo_params_def\<close>)

lemma operations_spare_others_witness: "rely mem_redis demo_codec demo_params 0 (at_ms 1000) demo_r1 demo_r2"
proof (rule operations_spare_others [OF mem.redis_server_axioms demo_codec_ok demo_params_ok, of 1])
  show "ops_in mem_redis demo_codec (Some SetWorkerID) (spares_all mem_redis demo_codec demo_params) demo_params 1 (at_ms 1000)
      [(MRegister 31 (demo_attempt 2 1000), at_ms 1000)] (demo_manager, demo_gen, demo_r1) (at_ms 1000)"
    using demo_register_in [OF demo_ids_in(2), of 1000 "spares_all mem_redis demo_codec demo_params" "at_ms 1000" "at_ms 1000"]
    by (simp add: spares_all_refl)
  show "mrun mem_redis demo_codec (Some SetWorkerID) [(MRegister 31 (demo_attempt 2 1000), at_ms 1000)]
      (demo_manager, demo_gen, demo_r1) = (demo_m2, demo_g2, demo_r2)"
    using demo_second_eq by simp
qed (simp_all add: demo_fresh)

lemma managers_refine_protocol_witness:
  "\<exists>S. reachable mem_redis demo_codec demo_params S \<and> ln_stage (sy_node S 0) = Leased 0 (at_ms 10000 - 1)"
proof -
  let ?S = "\<lparr>sy_now = at_ms 0, sy_store = mem_empty, sy_node = (\<lambda>k. lease_of demo_manager)\<rparr>"
  let ?ops = "[(MRegister 31 (demo_attempt 1 0), at_ms 0)]"
  have init: "reachable mem_redis demo_codec demo_params ?S"
    using demo_ttl(2) by (intro reachable.init) (simp add: lease_of_def)
  have ops: "ops_in mem_redis demo_codec (Some SetWorkerID) (spares_all mem_redis demo_codec demo_params) demo_params 0
      (sy_now ?S) ?ops (demo_manager, demo_gen, sy_store ?S) (at_ms 0)"
    using demo_register_in [OF demo_ids_in(1), of 0 "spares_all mem_redis demo_codec demo_params" "at_ms 0" "at_ms 0"]
    by (simp add: spares_all_refl)
  have run: "mrun mem_redis demo_codec (Some SetWorkerID) ?ops (demo_manager, demo_gen, sy_store ?S) = (demo_m1, demo_g1, demo_r1)"
    using demo_first_eq by simp
  have n: "sy_node ?S 0 = lease_of demo_manager" by simp
  from managers_refine_protocol [OF mem.redis_server_axioms demo_codec_ok init n fresh_nodeD(1,2) [OF demo_fresh] ops run]
  show ?thesis using demo_m1_facts by (auto simp: lease_of_def)
qed

end
