(* ===== verification/Fleet.thy ===== *)
theory Fleet
  imports Lease_Refinement Generator_Run
begin

text \<open>
  A fleet of instances on one Redis: each has a lease, whose steps are those of
  \<open>Lease_Protocol\<close>, and a generator, which the callback tells the leased worker ID and which
  hands out IDs while the gate is open. The log is a history of the IDs of the whole fleet.
\<close>

section \<open>The fleet\<close>

record 'r fleet =
  fl_now :: int
  fl_store :: 'r
  fl_node :: "nat \<Rightarrow> lease_node"
  fl_gen :: "nat \<Rightarrow> Generator"
  fl_full :: "nat \<Rightarrow> bool" \<comment> \<open>the last millisecond overflowed and no ID was made since\<close>
  fl_log :: "(nat \<times> int \<times> int) list" \<comment> \<open>instance, instant and ID\<close>

text \<open>The callback: when a claim becomes a lease, the generator takes its worker ID.\<close>

definition follow :: "lease_node \<Rightarrow> lease_node \<Rightarrow> Generator \<Rightarrow> Generator" where
  "follow n n' g = (case (ln_stage n, ln_stage n') of (Claimed w a, Leased w' d) \<Rightarrow> SetWorkerID w g | _ \<Rightarrow> g)"

text \<open>The gate, a millisecond before the lease ends and short of the slack.\<close>

definition gate_open :: "params \<Rightarrow> int \<Rightarrow> lease_node \<Rightarrow> bool" where
  "gate_open P s n \<longleftrightarrow> (case ln_stage n of Leased w d \<Rightarrow> s + Millisecond \<le> d - pr_slack P
     | Renewing w d t0 \<Rightarrow> s + Millisecond \<le> d - pr_slack P | _ \<Rightarrow> False)"

text \<open>A key is deleted a millisecond or more after the last ID under it.\<close>

definition deletes_late :: "nat \<Rightarrow> int \<Rightarrow> lease_node \<Rightarrow> lease_node \<Rightarrow> (nat \<times> int \<times> int) list \<Rightarrow> bool" where
  "deletes_late i s n n' h \<longleftrightarrow> (\<forall>w d. ln_stage n = Releasing w d \<and> ln_stage n' = Free \<longrightarrow>
     (\<forall>(k, e, x) \<in> set h. k = i \<longrightarrow> e + Millisecond \<le> s))"

definition claims_in_range :: "lease_node \<Rightarrow> Generator \<Rightarrow> bool" where
  "claims_in_range n' g \<longleftrightarrow> (\<forall>w a. ln_stage n' = Claimed w a \<longrightarrow> 0 \<le> w \<and> w \<le> g_maxWorkerID g)"

text \<open>A step of a lease, a step of other clients, or an attempt to make an ID, which reads the
  clock at its instant, and a later millisecond if the last one overflowed.\<close>

inductive fleet_step :: "'r redis \<Rightarrow> codec \<Rightarrow> params \<Rightarrow> 'r fleet \<Rightarrow> 'r fleet \<Rightarrow> bool" for R J P where
  lease: "fl_now F \<le> s \<Longrightarrow> nstep R J P i s (fl_node F i, fl_store F) (n', r') \<Longrightarrow>
    deletes_late i s (fl_node F i) n' (fl_log F) \<Longrightarrow> claims_in_range n' (fl_gen F i) \<Longrightarrow>
    fleet_step R J P F (F\<lparr>fl_now := s, fl_store := r', fl_node := (fl_node F)(i := n'),
      fl_gen := (fl_gen F)(i := follow (fl_node F i) n' (fl_gen F i))\<rparr>)"
| outside: "fl_now F \<le> s \<Longrightarrow> spares_all R J P s (fl_store F) r' \<Longrightarrow>
    fleet_step R J P F (F\<lparr>fl_now := s, fl_store := r'\<rparr>)"
| attempt: "fl_now F \<le> s \<Longrightarrow> gate_open P s (fl_node F i) \<Longrightarrow> wall now = s \<Longrightarrow>
    reading_ok (fl_gen F i) (Attempt now check) \<Longrightarrow>
    (fl_full F i \<Longrightarrow> g_lastTimestamp (fl_gen F i) < getCurrentTimestamp now) \<Longrightarrow>
    tryGenerateID now check (fl_gen F i) = (r, g') \<Longrightarrow>
    fleet_step R J P F (F\<lparr>fl_now := s, fl_gen := (fl_gen F)(i := g'),
      fl_full := (fl_full F)(i := (r = NeedWait 0 \<or> fl_full F i \<and> id_of_result (Some r) = [])),
      fl_log := fl_log F @ map (\<lambda>x. (i, s, x)) (id_of_result (Some r))\<rparr>)"

text \<open>The generators, as they are built: with one layout and one epoch, each for its datacenter.\<close>

definition fleet_ok :: "params \<Rightarrow> (nat \<Rightarrow> Generator) \<Rightarrow> bool" where
  "fleet_ok P G \<longleftrightarrow> (\<forall>i. gen_inv (G i) \<and> g_datacenterID (G i) = pr_dc P i \<and> g_lastTimestamp (G i) = -1 \<and>
     dB (G i) = dB (G 0) \<and> wB (G i) = wB (G 0) \<and> sB (G i) = sB (G 0) \<and> g_customEpoch (G i) = g_customEpoch (G 0))"

inductive fleet_reach :: "'r redis \<Rightarrow> codec \<Rightarrow> params \<Rightarrow> (nat \<Rightarrow> Generator) \<Rightarrow> 'r fleet \<Rightarrow> bool" for R J P G where
  init: "(\<And>i. ln_stage (fl_node F i) = Free) \<Longrightarrow> 0 \<le> fl_now F \<Longrightarrow> fl_gen F = G \<Longrightarrow> fl_log F = [] \<Longrightarrow>
    fleet_reach R J P G F"
| step: "fleet_reach R J P G F \<Longrightarrow> fleet_step R J P F F' \<Longrightarrow> fleet_reach R J P G F'"

section \<open>One attempt on a clock that does not go back\<close>

lemma step_high:
  assumes "gen_inv g" and ok: "reading_ok g op" and st: "gstep op g = (r, g')"
    and paced: "\<And>now check. op = Attempt now check \<Longrightarrow> b \<Longrightarrow> g_lastTimestamp g < getCurrentTimestamp now"
    and b': "b' = (r = Some (NeedWait 0) \<or> b \<and> id_of_result r = [])"
  shows "high_key b g \<le> high_key b' g' \<and>
    (id_of_result r \<noteq> [] \<longrightarrow> high_key b g < key_of g' \<and> high_key b' g' = key_of g')"
proof -
  note adv = step_advances [OF assms(1) ok st]
  then have max: "g_maxSequence g' = g_maxSequence g" using same_shape by blast
  show ?thesis
  proof (cases "id_of_result r = []")
    case True
    have "high_key b' g' = high_key b g"
      using adv True max by (auto simp: high_key_def b' key_of_def split: if_splits)
    with True show ?thesis by simp
  next
    case False
    then have r: "r \<noteq> Some (NeedWait 0)" by auto
    with False adv obtain now check where op: "op = Attempt now check"
      and ts: "getCurrentTimestamp now \<le> g_lastTimestamp g'" and up: "key_of g < key_of g'" by auto
    have "high_key b g < key_of g'"
      using up ts paced [OF op] by (auto simp: high_key_def key_of_def)
    moreover have "high_key b' g' = key_of g'" using False r by (simp add: high_key_def b')
    ultimately show ?thesis by simp
  qed
qed

lemma attempt_at_reading:
  assumes inv: "gen_inv g" and clock: "clock_sane now" and l: "g_lastTimestamp g \<le> getCurrentTimestamp now"
    and eq: "tryGenerateID now check g = (r, g')"
  shows "g_lastTimestamp g' \<le> getCurrentTimestamp now \<and>
    (id_of_result (Some r) \<noteq> [] \<longrightarrow> g_lastTimestamp g' = getCurrentTimestamp now)"
proof -
  obtain o' k where spec: "attempt_spec g (getCurrentTimestamp now) (key_of g) = (o', k)" by (rule prod.exhaust)
  note ref = attempt_refines_aux [OF inv clock eq spec]
  then have "matches g o' r" "key_of g' = k" by auto
  with spec l show ?thesis
    by (auto simp: attempt_spec_def key_of_def split: if_splits)
qed


section \<open>The invariant\<close>

text \<open>For a millisecond after an ID was made its worker's key stays with the instance.\<close>

definition still_held :: "'r redis \<Rightarrow> codec \<Rightarrow> params \<Rightarrow> nat \<Rightarrow> int \<Rightarrow> int \<Rightarrow> int \<Rightarrow> 'r \<Rightarrow> bool" where
  "still_held R J P i w t u r \<longleftrightarrow> (\<forall>s. t \<le> s \<and> s < u \<longrightarrow> (\<exists>y \<in> pr_ids P i. held R J s (nkey P i w) y r))"

text \<open>The log entry of an ID with its parts.\<close>

definition entry_ok :: "'r redis \<Rightarrow> codec \<Rightarrow> params \<Rightarrow> Generator \<Rightarrow> 'r fleet \<Rightarrow> nat \<times> int \<times> int \<Rightarrow> bool" where
  "entry_ok R J P G0 F entry \<longleftrightarrow> (case entry of (i, e, x) \<Rightarrow> e \<le> fl_now F \<and>
     (\<exists>w q. valid_part G0 (e div Millisecond, pr_dc P i, w, q) \<and> x = encode_part G0 (e div Millisecond, pr_dc P i, w, q) \<and>
       (e div Millisecond, q) \<le> high_key (fl_full F i) (fl_gen F i) \<and>
       still_held R J P i w (fl_now F) (e + Millisecond) (fl_store F)))"

text \<open>The generator carries the leased worker ID.\<close>

definition carries :: "lease_node \<Rightarrow> Generator \<Rightarrow> bool" where
  "carries n g \<longleftrightarrow> (case ln_stage n of Leased w d \<Rightarrow> g_workerID g = w | Renewing w d t0 \<Rightarrow> g_workerID g = w | _ \<Rightarrow> True) \<and>
     claims_in_range n g"

definition fleet_inv :: "'r redis \<Rightarrow> codec \<Rightarrow> params \<Rightarrow> (nat \<Rightarrow> Generator) \<Rightarrow> 'r fleet \<Rightarrow> bool" where
  "fleet_inv R J P G F \<longleftrightarrow> 0 \<le> fl_now F \<and>
     (\<forall>i. node_inv R J P i (fl_now F) (fl_node F i) (fl_store F) \<and> gen_inv (fl_gen F i) \<and>
        shape (fl_gen F i) = shape (G i) \<and> carries (fl_node F i) (fl_gen F i) \<and>
        g_lastTimestamp (fl_gen F i) \<le> fl_now F div Millisecond) \<and>
     list_all (entry_ok R J P (G 0) F) (fl_log F) \<and> distinct (map (snd \<circ> snd) (fl_log F))"

lemma still_later: "still_held R J P i w t u r \<Longrightarrow> t \<le> t' \<Longrightarrow> still_held R J P i w t' u r"
  by (simp add: still_held_def)

lemma still_kept:
  assumes "still_held R J P i w t u r" and "t \<le> s" and "\<And>y. y \<in> pr_ids P i \<Longrightarrow> keeps_mine R J (pr_prefix P) y s r r'"
  shows "still_held R J P i w s u r'"
proof -
  have "\<exists>y \<in> pr_ids P i. held R J v (nkey P i w) y r'" if v: "s \<le> v" "v < u" for v
  proof -
    have "t \<le> v" using v assms(2) by simp
    with assms(1) v obtain y where y: "y \<in> pr_ids P i" "held R J v (nkey P i w) y r"
      by (auto simp: still_held_def)
    from assms(3) [OF y(1)] y(2) v(1) have "held R J v (nkey P i w) y r'"
      unfolding keeps_mine_def nkey_def by blast
    with y(1) show ?thesis by blast
  qed
  then show ?thesis by (simp add: still_held_def)
qed

context redis_server
begin

lemma script_still_held:
  assumes "LuaScriptHeartbeat R (cjson_decode J) s (nkey P i w') v (ln_id n) (pr_ttl P i div Second) r = (y, r')"
    and own: "owner_of J v = Some (ln_id n)" "ln_id n \<in> pr_ids P i"
    and still: "still_held R J P i w s u r" and u: "u \<le> s + Second"
  shows "still_held R J P i w s u r'"
proof -
  let ?secs = "pr_ttl P i div Second"
  consider "r' = r" | (renew) "0 < ?secs" "r' = SETEX R s (nkey P i w') v ?secs r"
    using assms(1) by (auto simp: LuaScriptHeartbeat_def split: option.splits lua_json.splits if_splits)
  then show ?thesis
  proof cases
    case renew
    have "\<exists>z \<in> pr_ids P i. held R J t (nkey P i w) z r'" if t: "s \<le> t" "t < u" for t
    proof (cases "nkey P i w = nkey P i w'")
      case True
      have "1 * Second \<le> ?secs * Second" using renew(1) by (intro mult_right_mono) auto
      then have "t < s + ?secs * Second" using t u by simp
      from setex_get [OF t(1) this, of "nkey P i w'" v r] True renew(2) own show ?thesis by (auto simp: held_def)
    next
      case False
      from setex_other [OF this] still t renew(2) show ?thesis
        by (fastforce simp: still_held_def held_def same_key_def)
    qed
    then show ?thesis by (simp add: still_held_def)
  qed (use still in simp)
qed

text \<open>A step of the instance itself.\<close>

lemma own_still_held:
  assumes step: "nstep R J P i s (n, r) (n', r')" and inv: "node_inv R J P i t n r"
    and still: "still_held R J P i w s u r" and u: "u \<le> s + Millisecond"
    and late: "\<And>w d. ln_stage n = Releasing w d \<Longrightarrow> ln_stage n' = Free \<Longrightarrow> u \<le> s"
  shows "still_held R J P i w s u r'"
  using step
proof (cases rule: nstep.cases)
  case aux
  then show ?thesis by (intro still_kept [OF still]) (auto intro: keeps_mine_same)
next
  case (claim v a w')
  then have "r' = snd (SETNX R s (nkey P i w') v (pr_ttl P i) r)" by simp
  then show ?thesis using still_kept [OF still order_refl] setnx_keeps by simp
next
  case (claim_failed w' v d)
  then show ?thesis using still_kept [OF still order_refl] setnx_keeps by simp
next
  case (beat w' d v)
  then show ?thesis using inv u by (intro script_still_held [OF beat(4,3) _ still]) (simp_all add: node_inv_def)
next
  case (beat_failed w' d v y)
  then show ?thesis using inv u by (intro script_still_held [OF beat_failed(4,3) _ still]) (simp_all add: node_inv_def)
next
  case (delete w' d)
  then show ?thesis using late by (auto simp: still_held_def)
qed (use still in simp_all)

end


section \<open>Every step keeps the invariant\<close>

lemma follow_cases: "follow n n' g = g \<or> (\<exists>w. follow n n' g = SetWorkerID w g)"
  by (auto simp: follow_def split: stage.splits)

lemma follow_frame:
  assumes "gen_inv g"
  shows "gen_inv (follow n n' g) \<and> shape (follow n n' g) = shape g \<and> high_key b (follow n n' g) = high_key b g \<and>
    g_lastTimestamp (follow n n' g) = g_lastTimestamp g"
proof -
  have "high_key b (SetWorkerID w g) = high_key b g \<and> g_lastTimestamp (SetWorkerID w g) = g_lastTimestamp g" for w
    by (simp add: SetWorkerID_def high_key_def key_of_def)
  with SetWorkerID_inv [OF assms] assms shape_ops(1) [of _ g] follow_cases [of n n' g] show ?thesis by auto
qed

lemma nstep_carries:
  assumes "nstep R J P i s (n, r) (n', r')" and "carries n g" and "claims_in_range n' g" and "gen_inv g"
  shows "carries n' (follow n n' g)"
  using assms(1)
  by (cases rule: nstep.cases)
    (use assms(2-4) in \<open>auto simp: carries_def claims_in_range_def follow_def SetWorkerID_def split: stage.splits\<close>)

lemma entry_okI:
  assumes "entry_ok R J P G0 F (i, e, x)" and "fl_now F \<le> fl_now F'"
    and "high_key (fl_full F i) (fl_gen F i) \<le> high_key (fl_full F' i) (fl_gen F' i)"
    and "\<And>w. still_held R J P i w (fl_now F) (e + Millisecond) (fl_store F) \<Longrightarrow>
      still_held R J P i w (fl_now F') (e + Millisecond) (fl_store F')"
  shows "entry_ok R J P G0 F' (i, e, x)"
proof -
  from assms(1) obtain w q where wq: "valid_part G0 (e div Millisecond, pr_dc P i, w, q)"
    "x = encode_part G0 (e div Millisecond, pr_dc P i, w, q)" "(e div Millisecond, q) \<le> high_key (fl_full F i) (fl_gen F i)"
    "still_held R J P i w (fl_now F) (e + Millisecond) (fl_store F)" and e: "e \<le> fl_now F"
    by (auto simp: entry_ok_def)
  have "(e div Millisecond, q) \<le> high_key (fl_full F' i) (fl_gen F' i)" using wq(3) assms(3) by (rule order_trans)
  with wq(1,2) assms(4) [OF wq(4)] e assms(2) show ?thesis
    unfolding entry_ok_def prod.case by (intro conjI exI [of _ w] exI [of _ q]) auto
qed

lemma floor_mono: "t \<le> s \<Longrightarrow> l \<le> t div Millisecond \<Longrightarrow> l \<le> s div (Millisecond :: int)"
  by (meson order_trans zdiv_mono1 zero_less_numeral)

context redis_server
begin

lemma lease_step_inv:
  assumes P: "params_ok P" and inv: "fleet_inv R J P G F" and t: "fl_now F \<le> s"
    and step: "nstep R J P i s (fl_node F i, fl_store F) (n', r')"
    and late: "deletes_late i s (fl_node F i) n' (fl_log F)" and range: "claims_in_range n' (fl_gen F i)"
  shows "fleet_inv R J P G (F\<lparr>fl_now := s, fl_store := r', fl_node := (fl_node F)(i := n'),
      fl_gen := (fl_gen F)(i := follow (fl_node F i) n' (fl_gen F i))\<rparr>)" (is "fleet_inv R J P G ?F")
proof -
  have all: "node_inv R J P k (fl_now F) (fl_node F k) (fl_store F)" "gen_inv (fl_gen F k)"
    "shape (fl_gen F k) = shape (G k)" "carries (fl_node F k) (fl_gen F k)"
    "g_lastTimestamp (fl_gen F k) \<le> fl_now F div Millisecond" for k
    using inv by (simp_all add: fleet_inv_def)
  have spares: "keeps_mine R J (pr_prefix P) y s (fl_store F) r'" if "k \<noteq> i" "y \<in> pr_ids P k" for k y
    by (rule nstep_spares [OF P step all(1) t that])
  have node: "node_inv R J P k s (fl_node ?F k) r'" for k
  proof (cases "k = i")
    case True
    with nstep_own [OF P step all(1) t] show ?thesis by simp
  next
    case False
    have "keeps_mine R J (pr_prefix P) (ln_id (fl_node F k)) s (fl_store F) r'" if "ln_stage (fl_node F k) \<noteq> Free"
      using all(1) [of k] that spares [OF False] by (simp add: node_inv_def)
    with node_inv_later [OF all(1) t] False show ?thesis by simp
  qed
  have gen: "gen_inv (fl_gen ?F k) \<and> shape (fl_gen ?F k) = shape (G k) \<and> carries (fl_node ?F k) (fl_gen ?F k) \<and>
      g_lastTimestamp (fl_gen ?F k) \<le> s div Millisecond \<and>
      high_key (fl_full ?F k) (fl_gen ?F k) = high_key (fl_full F k) (fl_gen F k)" for k
    using all(2-5) [of k] follow_frame [OF all(2)] nstep_carries [OF step all(4) range all(2)] floor_mono [OF t]
    by (cases "k = i") auto
  have "entry_ok R J P (G 0) ?F y" if y: "y \<in> set (fl_log F)" for y
  proof -
    obtain k e x where ye: "y = (k, e, x)" by (rule prod_cases3)
    have ok: "entry_ok R J P (G 0) F (k, e, x)" using inv y ye by (simp add: fleet_inv_def list_all_iff)
    then have e: "e \<le> fl_now F" by (simp add: entry_ok_def)
    have "still_held R J P k w s (e + Millisecond) r'" if "still_held R J P k w (fl_now F) (e + Millisecond) (fl_store F)" for w
    proof (cases "k = i")
      case True
      show ?thesis
        unfolding True
      proof (rule own_still_held [OF step all(1)])
        show "still_held R J P i w s (e + Millisecond) (fl_store F)" using still_later [OF that t] True by simp
        show "e + Millisecond \<le> s + Millisecond" using e t by simp
        show "e + Millisecond \<le> s" if "ln_stage (fl_node F i) = Releasing w' d" "ln_stage n' = Free" for w' d
          using late that y ye True by (auto simp: deletes_late_def)
      qed
    next
      case False
      with still_kept [OF that t] spares show ?thesis by blast
    qed
    then show ?thesis using ok t gen [of k] by (auto simp: ye intro!: entry_okI [OF ok])
  qed
  then show ?thesis
    using inv t node gen by (auto simp: fleet_inv_def list_all_iff)
qed

lemma outside_step_inv:
  assumes inv: "fleet_inv R J P G F" and t: "fl_now F \<le> s" and sp: "spares_all R J P s (fl_store F) r'"
  shows "fleet_inv R J P G (F\<lparr>fl_now := s, fl_store := r'\<rparr>)" (is "fleet_inv R J P G ?F")
proof -
  have node: "node_inv R J P k s (fl_node F k) r'" for k
  proof -
    have i: "node_inv R J P k (fl_now F) (fl_node F k) (fl_store F)" using inv by (simp add: fleet_inv_def)
    have "keeps_mine R J (pr_prefix P) (ln_id (fl_node F k)) s (fl_store F) r'" if "ln_stage (fl_node F k) \<noteq> Free"
      using i that sp unfolding node_inv_def spares_all_def by blast
    with node_inv_later [OF i t] show ?thesis .
  qed
  have "entry_ok R J P (G 0) ?F y" if y: "y \<in> set (fl_log F)" for y
  proof -
    obtain k e x where ye: "y = (k, e, x)" by (rule prod_cases3)
    have ok: "entry_ok R J P (G 0) F (k, e, x)" using inv y ye by (simp add: fleet_inv_def list_all_iff)
    have "still_held R J P k w s u r'" if "still_held R J P k w (fl_now F) u (fl_store F)" for w u
      using still_kept [OF that t] sp by (simp add: spares_all_def)
    then show ?thesis using t by (auto simp: ye intro!: entry_okI [OF ok])
  qed
  then show ?thesis
    using inv t node floor_mono [OF t] by (auto simp: fleet_inv_def list_all_iff)
qed

end


text \<open>An ID in the common format of the fleet.\<close>

lemma common_format:
  assumes "fleet_ok P G" and "gen_inv g" and "shape g = shape (G i)" and "in_lifetime g (g_lastTimestamp g)"
  shows "let p = (g_lastTimestamp g, pr_dc P i, g_workerID g, g_sequence g)
    in valid_part (G 0) p \<and> idOf g (g_lastTimestamp g) (g_sequence g) = encode_part (G 0) p"
proof -
  let ?p = "(g_lastTimestamp g, pr_dc P i, g_workerID g, g_sequence g)"
  have ok: "gen_inv (G 0)" "g_datacenterID (G i) = pr_dc P i" "dB (G i) = dB (G 0)" "wB (G i) = wB (G 0)" "sB (G i) = sB (G 0)"
    "g_customEpoch (G i) = g_customEpoch (G 0)"
    using assms(1) by (simp_all add: fleet_ok_def)
  have lay: "gen_layout (G 0)" using ok(1) by (simp add: gen_inv_def)
  have p: "part_of g = ?p" using ok(2) same_shape(1) [OF assms(3)] by (simp add: part_of_def)
  have v: "valid_part g ?p" using part_of_valid [OF assms(2,4)] p by simp
  have v0: "valid_part (G 0) ?p"
    using v lay ok same_shape(2,10-12) [OF assms(3)] by (simp add: valid_part_def)
  have "idOf g (g_lastTimestamp g) (g_sequence g) = encode_part g ?p"
    using p by (simp add: encode_part_def encodeID_def idOf_def part_of_def)
  also have "\<dots> = encode_part (G 0) ?p"
    using encode_part_packed [OF v] encode_part_packed [OF v0] ok same_shape(2,10-12) [OF assms(3)] by simp
  finally show ?thesis using v0 by simp
qed

context redis_server
begin

lemma gate_holds:
  assumes P: "params_ok P" and inv: "node_inv R J P i t n r" and t: "t \<le> s" and g: "gate_open P s n" and c: "carries n g"
  shows "ln_id n \<in> pr_ids P i \<and> (\<forall>u. s \<le> u \<and> u \<le> s + Millisecond \<longrightarrow> held R J u (nkey P i (g_workerID g)) (ln_id n) r)"
proof -
  have d: "pr_ttl P i - pr_slack P < pr_ttl P i div Second * Second"
    using P div_mult_mod_eq [of "pr_ttl P i" Second] unfolding params_ok_def by (smt (verit))
  show ?thesis
  proof (cases "ln_stage n")
    case (Leased w d)
    with inv t g c show ?thesis by (auto simp: node_inv_def holds_until_def gate_open_def carries_def)
  next
    case (Renewing w dl t0)
    with inv t g c have "holds_until R J P i s w (s + Millisecond) n r"
      using d by (auto simp: node_inv_def gate_open_def intro!: holds_later [of R J P i t w _ n r s])
    with inv Renewing c show ?thesis by (simp add: node_inv_def holds_until_def carries_def)
  qed (use g in \<open>simp_all add: gate_open_def\<close>)
qed

text \<open>The new ID differs from all earlier ones.\<close>

lemma attempt_new:
  assumes P: "params_ok P" and G: "fleet_ok P G" and inv: "fleet_inv R J P G F" and t: "fl_now F \<le> s"
    and gate: "gate_open P s (fl_node F i)"
    and part: "valid_part (G 0) (s div Millisecond, pr_dc P i, g_workerID (fl_gen F i), q)"
    and up: "high_key (fl_full F i) (fl_gen F i) < (s div Millisecond, q)"
    and old: "(k, e, x) \<in> set (fl_log F)"
  shows "x \<noteq> encode_part (G 0) (s div Millisecond, pr_dc P i, g_workerID (fl_gen F i), q)"
proof
  let ?w = "g_workerID (fl_gen F i)"
  assume x: "x = encode_part (G 0) (s div Millisecond, pr_dc P i, ?w, q)"
  have "entry_ok R J P (G 0) F (k, e, x)" using inv old by (auto simp: fleet_inv_def list_all_iff)
  then obtain w' q' where e: "e \<le> fl_now F" and p': "valid_part (G 0) (e div Millisecond, pr_dc P k, w', q')"
    "x = encode_part (G 0) (e div Millisecond, pr_dc P k, w', q')"
    and key: "(e div Millisecond, q') \<le> high_key (fl_full F k) (fl_gen F k)"
    and still: "still_held R J P k w' (fl_now F) (e + Millisecond) (fl_store F)" by (auto simp: entry_ok_def)
  have same: "e div Millisecond = s div Millisecond" "pr_dc P k = pr_dc P i" "w' = ?w" "q' = q"
    using fmt.enc_inj [OF part p'(1)] p'(2) x by simp_all
  show False
  proof (cases "k = i")
    case True
    then show False using key up same by simp
  next
    case False
    have "s < e + Millisecond" using same(1) by linarith
    with still t obtain y where y: "y \<in> pr_ids P k" "held R J s (nkey P k w') y (fl_store F)"
      by (auto simp: still_held_def)
    have "node_inv R J P i (fl_now F) (fl_node F i) (fl_store F)" "carries (fl_node F i) (fl_gen F i)"
      using inv by (simp_all add: fleet_inv_def)
    from gate_holds [OF P this(1) t gate this(2)]
    have "ln_id (fl_node F i) \<in> pr_ids P i" "held R J s (nkey P i ?w) (ln_id (fl_node F i)) (fl_store F)" by simp_all
    moreover from this(2) y(2) same have "y = ln_id (fl_node F i)"
      using held_unique [of R J s "nkey P k w'" y] by (simp add: nkey_def)
    ultimately have "ln_id (fl_node F i) \<in> pr_ids P i" "ln_id (fl_node F i) \<in> pr_ids P k" using y(1) by simp_all
    with P False show False by (auto simp: params_ok_def)
  qed
qed

lemma attempt_step_inv:
  assumes P: "params_ok P" and G: "fleet_ok P G" and inv: "fleet_inv R J P G F" and t: "fl_now F \<le> s"
    and gate: "gate_open P s (fl_node F i)" and now: "wall now = s"
    and ok: "reading_ok (fl_gen F i) (Attempt now check)"
    and paced: "fl_full F i \<Longrightarrow> g_lastTimestamp (fl_gen F i) < getCurrentTimestamp now"
    and run: "tryGenerateID now check (fl_gen F i) = (r, g')"
  shows "fleet_inv R J P G (F\<lparr>fl_now := s, fl_gen := (fl_gen F)(i := g'),
      fl_full := (fl_full F)(i := (r = NeedWait 0 \<or> fl_full F i \<and> id_of_result (Some r) = [])),
      fl_log := fl_log F @ map (\<lambda>x. (i, s, x)) (id_of_result (Some r))\<rparr>)" (is "fleet_inv R J P G ?F")
proof -
  let ?g = "fl_gen F i" and ?n = "fl_node F i" and ?b = "fl_full F i" and ?b' = "fl_full ?F i"
  have all: "node_inv R J P k (fl_now F) (fl_node F k) (fl_store F)" "gen_inv (fl_gen F k)"
    "shape (fl_gen F k) = shape (G k)" "carries (fl_node F k) (fl_gen F k)"
    "g_lastTimestamp (fl_gen F k) \<le> fl_now F div Millisecond" for k
    using inv by (simp_all add: fleet_inv_def)
  have clock: "clock_sane now" using ok by (simp add: reading_ok_def)
  have ts: "getCurrentTimestamp now = s div Millisecond" using clock_sane_timestamp(1) [OF clock] now by simp
  have st: "gstep (Attempt now check) ?g = (Some r, g')" using run by (simp add: gstep_def)
  note adv = step_advances [OF all(2) ok st]
  have cfg: "shape g' = shape ?g" "gen_inv g'" using adv by simp_all
  have w: "g_workerID g' = g_workerID ?g" by (rule step_worker [OF all(2) ok st]) simp
  have last: "g_lastTimestamp g' \<le> s div Millisecond"
    "id_of_result (Some r) \<noteq> [] \<Longrightarrow> g_lastTimestamp g' = s div Millisecond"
    using attempt_at_reading [OF all(2) clock _ run] floor_mono [OF t all(5)] ts by simp_all
  have high: "high_key ?b ?g \<le> high_key ?b' g'"
    "id_of_result (Some r) \<noteq> [] \<Longrightarrow> high_key ?b ?g < key_of g' \<and> high_key ?b' g' = key_of g'"
    using step_high [OF all(2) ok st, of ?b ?b'] paced by auto
  have node: "node_inv R J P k s (fl_node F k) (fl_store F)" for k
    by (rule node_inv_later [OF all(1) t keeps_mine_refl])
  have gen: "gen_inv (fl_gen ?F k) \<and> shape (fl_gen ?F k) = shape (G k) \<and> carries (fl_node F k) (fl_gen ?F k) \<and>
      g_lastTimestamp (fl_gen ?F k) \<le> s div Millisecond \<and>
      high_key (fl_full F k) (fl_gen F k) \<le> high_key (fl_full ?F k) (fl_gen ?F k)" for k
  proof (cases "k = i")
    case True
    have "g_maxWorkerID g' = g_maxWorkerID ?g" using cfg(1) by (simp add: shape_def)
    then have "carries ?n g'" using all(4) [of i] w by (simp add: carries_def claims_in_range_def split: stage.splits)
    with True cfg all(3) [of i] last(1) high(1) show ?thesis by simp
  qed (use all(2-5) [of k] floor_mono [OF t] in simp)
  have old: "entry_ok R J P (G 0) ?F y" if y: "y \<in> set (fl_log F)" for y
  proof -
    obtain k e x where ye: "y = (k, e, x)" by (rule prod_cases3)
    have o: "entry_ok R J P (G 0) F (k, e, x)" using inv y ye by (simp add: fleet_inv_def list_all_iff)
    show ?thesis unfolding ye
    proof (rule entry_okI [OF o])
      show "fl_now F \<le> fl_now ?F" using t by simp
      show "high_key (fl_full F k) (fl_gen F k) \<le> high_key (fl_full ?F k) (fl_gen ?F k)" using gen by blast
    qed (use still_later [OF _ t] in simp)
  qed
  have new: "entry_ok R J P (G 0) ?F (i, s, x) \<and> x \<notin> snd ` snd ` set (fl_log F)" if x: "id_of_result (Some r) = [x]" for x
  proof -
    have l: "g_lastTimestamp g' = s div Millisecond" using last(2) x by simp
    have h: "high_key ?b ?g < (s div Millisecond, g_sequence g')" "high_key ?b' g' = (s div Millisecond, g_sequence g')"
      using high(2) x l by (simp_all add: key_of_def)
    have "in_lifetime g' (g_lastTimestamp g')" "x = idOf g' (g_lastTimestamp g') (g_sequence g')"
      using adv x same_shape [OF cfg(1)] by (auto simp: in_lifetime_def split: if_splits)
    with common_format [OF G cfg(2) _ this(1), of i] cfg(1) all(3) [of i] l w
    have p: "valid_part (G 0) (s div Millisecond, pr_dc P i, g_workerID ?g, g_sequence g')"
      "x = encode_part (G 0) (s div Millisecond, pr_dc P i, g_workerID ?g, g_sequence g')" by (simp_all add: Let_def)
    have "\<forall>(k, e, y) \<in> set (fl_log F). y \<noteq> x"
      using attempt_new [OF P G inv t gate p(1) h(1)] p(2) by blast
    moreover have "still_held R J P i (g_workerID ?g) s (s + Millisecond) (fl_store F)"
      using gate_holds [OF P all(1) t gate all(4)] by (auto simp: still_held_def)
    moreover from this have "entry_ok R J P (G 0) ?F (i, s, x)"
      using p h(2) unfolding entry_ok_def prod.case
      by (intro conjI exI [of _ "g_workerID ?g"] exI [of _ "g_sequence g'"]) simp_all
    ultimately show ?thesis by auto
  qed
  have "list_all (entry_ok R J P (G 0) ?F) (fl_log ?F) \<and> distinct (map (snd \<circ> snd) (fl_log ?F))"
  proof (cases "id_of_result (Some r)")
    case Nil
    then show ?thesis using old inv by (simp add: list_all_iff fleet_inv_def)
  next
    case (Cons x xs)
    then have x: "id_of_result (Some r) = [x]" by (cases r) auto
    have d: "distinct (map (snd \<circ> snd) (fl_log F))" using inv by (simp add: fleet_inv_def)
    show ?thesis using old new [OF x] d x by (auto simp: list_all_iff)
  qed
  then show ?thesis
    using inv t node gen by (auto simp: fleet_inv_def)
qed

lemma fleet_reach_inv:
  assumes P: "params_ok P" and G: "fleet_ok P G" and "fleet_reach R J P G F"
  shows "fleet_inv R J P G F"
  using assms(3)
proof (induction rule: fleet_reach.induct)
  case (init F)
  have "node_inv R J P i (fl_now F) (fl_node F i) (fl_store F) \<and> carries (fl_node F i) (G i)" for i
    using init(1) [of i] by (simp add: node_inv_def carries_def claims_in_range_def)
  moreover have "-1 \<le> fl_now F div Millisecond" using init(2) by linarith
  ultimately show ?case using init G by (simp add: fleet_inv_def fleet_ok_def)
next
  case (step F F')
  from step(2) show ?case
  proof (cases rule: fleet_step.cases)
    case (lease s i n' r')
    from lease_step_inv [OF P step(3) lease(2-5)] lease(1) show ?thesis by simp
  next
    case (outside s r')
    from outside_step_inv [OF step(3) outside(2,3)] outside(1) show ?thesis by simp
  next
    case (attempt s i now check r g')
    from attempt_step_inv [OF P G step(3) attempt(2-5) _ attempt(7)] attempt(1,6) show ?thesis by simp
  qed
qed

end

end
