(* ===== verification/Fleet_Props.thy ===== *)
theory Fleet_Props
  imports Fleet Lease_Props
begin

text \<open>
  The property that the program is for: no two IDs of a fleet are the same.
\<close>


text \<open>Nothing else keeps IDs apart: two generators with one identity that read the same fresh
  millisecond make the same ID. The plugin looks at the lease before it calls the generator and
  never after, so a call that is held up between the two until the lease has ended and another
  instance has the worker ID repeats an ID of that instance.\<close>

theorem same_identity_repeats:
  assumes "gen_inv g1" and "gen_inv g2" and "shape g1 = shape g2" and "g_workerID g1 = g_workerID g2"
    and "clock_sane now1" and "clock_sane now2" and "getCurrentTimestamp now1 = getCurrentTimestamp now2"
    and "g_lastTimestamp g1 < getCurrentTimestamp now1" and "g_lastTimestamp g2 < getCurrentTimestamp now2"
    and "\<not> g_isShuttingDown g1" and "\<not> g_isShuttingDown g2" and "g_clockDriftAction g1 \<noteq> ClockDriftActionError"
  shows "\<exists>x h1 h2. fst (tryGenerateID now1 check1 g1) = Generated x h1 \<and> fst (tryGenerateID now2 check2 g2) = Generated x h2"
proof -
  have "\<exists>h. fst (tryGenerateID now check g) = Generated (idOf g (getCurrentTimestamp now) 0) h"
    if g: "gen_inv g" "clock_sane now" "g_lastTimestamp g < getCurrentTimestamp now" "\<not> g_isShuttingDown g"
      "g_clockDriftAction g \<noteq> ClockDriftActionError" for g now check
  proof -
    obtain r g' where run: "tryGenerateID now check g = (r, g')" by (rule prod.exhaust)
    have "attempt_spec g (getCurrentTimestamp now) (key_of g) =
        (Emit (getCurrentTimestamp now) 0, (getCurrentTimestamp now, 0))"
      using g(3-5) by (simp add: attempt_spec_def jump_refused_def key_of_def)
    from attempt_refines_aux [OF g(1,2) run this] run show ?thesis by simp
  qed
  moreover have "idOf g1 t 0 = idOf g2 t 0" for t
    using assms(4) same_shape [OF assms(3)] by (simp add: idOf_def)
  ultimately show ?thesis using assms same_shape(9) [OF assms(3)] by metis
qed

section \<open>Two instances in one millisecond\<close>

definition demo_node :: "nat \<Rightarrow> stage \<Rightarrow> lease_node" where
  "demo_node i st = \<lparr>ln_id = (if i = 0 then ''instance-1-3-1-0-5'' else ''instance-1-3-2-0-5''), ln_stage = st\<rparr>"

definition demo_key :: "int \<Rightarrow> string" where
  "demo_key w = workerKey ''eon:'' 3 w"

definition demo_claim :: "nat \<Rightarrow> mem \<Rightarrow> bool \<times> mem" where
  "demo_claim i r = SETNX mem_redis (at_ms 0) (demo_key (int i)) (ln_id (demo_node i Free)) (10 * Second) r"

definition demo_try :: "int \<Rightarrow> attempt \<times> Generator" where
  "demo_try w = tryGenerateID (demo_time 10) (demo_time 10) (SetWorkerID w demo_gen)"

lemma demo_claims: "demo_claim 0 mem_empty = (True, snd (demo_claim 0 mem_empty))"
  "demo_claim 1 (snd (demo_claim 0 mem_empty)) = (True, snd (demo_claim 1 (snd (demo_claim 0 mem_empty))))"
proof -
  have "fst (demo_claim 0 mem_empty)" "fst (demo_claim 1 (snd (demo_claim 0 mem_empty)))" by code_simp+
  then show "demo_claim 0 mem_empty = (True, snd (demo_claim 0 mem_empty))"
    "demo_claim 1 (snd (demo_claim 0 mem_empty)) = (True, snd (demo_claim 1 (snd (demo_claim 0 mem_empty))))"
    by (simp_all add: prod_eq_iff)
qed

lemma demo_tries: "id_of_result (Some (fst (demo_try 0))) = [id_of_result (Some (fst (demo_try 0))) ! 0]"
  "id_of_result (Some (fst (demo_try 1))) = [id_of_result (Some (fst (demo_try 1))) ! 0]"
  by code_simp+

lemma demo_fleet_ok: "fleet_ok demo_params (\<lambda>i. demo_gen)"
proof -
  have "g_datacenterID demo_gen = 3" by code_simp
  then show ?thesis using demo_inv demo_last by (simp add: fleet_ok_def demo_params_def)
qed

lemma fleet_lease:
  assumes "fleet_reach R J P G F" and "fl_now F \<le> s" and "nstep R J P i s (fl_node F i, fl_store F) (n', r')"
    and "deletes_late i s (fl_node F i) n' (fl_log F)" and "claims_in_range n' (fl_gen F i)"
    and "F' = F\<lparr>fl_now := s, fl_store := r', fl_node := (fl_node F)(i := n'),
      fl_gen := (fl_gen F)(i := follow (fl_node F i) n' (fl_gen F i))\<rparr>"
  shows "fleet_reach R J P G F'"
  using fleet_reach.step [OF assms(1) fleet_step.lease [OF assms(2-5)]] assms(6) by simp

text \<open>Instance \<open>i\<close> takes its identity, claims the worker ID \<open>i\<close> and is granted its lease.\<close>

lemma demo_lease_up:
  assumes F: "fleet_reach mem_redis demo_codec demo_params G F" and now: "fl_now F = at_ms 0"
    and i: "i < 2" "ln_stage (fl_node F i) = Free" and c: "demo_claim i (fl_store F) = (True, r')"
    and g: "fl_gen F i = demo_gen"
  shows "\<exists>F'. fleet_reach mem_redis demo_codec demo_params G F' \<and> fl_now F' = at_ms 0 \<and> fl_store F' = r' \<and>
    fl_node F' = (fl_node F)(i := demo_node i (Leased (int i) (at_ms 10000 - 1))) \<and>
    fl_gen F' = (fl_gen F)(i := SetWorkerID (int i) demo_gen) \<and> fl_full F' = fl_full F \<and> fl_log F' = fl_log F"
proof -
  let ?s = "at_ms 0" and ?a = "at_ms 0 - 1"
  let ?n = "demo_node i"
  have max: "g_maxWorkerID demo_gen = 31" by code_simp
  have id: "ln_id (?n Free) \<in> pr_ids demo_params i" using i(1) by (auto simp: demo_node_def demo_params_def)
  define F1 where "F1 = F\<lparr>fl_now := ?s, fl_node := (fl_node F)(i := ?n Free), fl_gen := (fl_gen F)(i := demo_gen)\<rparr>"
  have s1: "nstep mem_redis demo_codec demo_params i ?s (fl_node F i, fl_store F) (?n Free, fl_store F)"
    using nstep.identity [of "fl_node F i" "ln_id (?n Free)" demo_params i mem_redis demo_codec ?s "fl_store F"] i(2) id
    by (cases "fl_node F i") (simp add: demo_node_def)
  have f1: "fleet_reach mem_redis demo_codec demo_params G F1"
    by (rule fleet_lease [OF F _ s1])
      (use i(2) now g in \<open>simp_all add: F1_def deletes_late_def follow_def demo_node_def claims_in_range_def\<close>)
  define F2 where "F2 = F1\<lparr>fl_now := ?s, fl_store := r', fl_node := (fl_node F1)(i := ?n (Claimed (int i) ?a)),
    fl_gen := (fl_gen F1)(i := demo_gen)\<rparr>"
  have s2: "nstep mem_redis demo_codec demo_params i ?s (fl_node F1 i, fl_store F1) (?n (Claimed (int i) ?a), r')"
    using nstep.claim [of "?n Free" demo_params i demo_codec "ln_id (?n Free)" ?a ?s mem_redis "int i" "fl_store F" r'] id c
    by (simp add: F1_def demo_node_def demo_claim_def owner_of_def demo_codec_def nkey_def demo_params_def demo_key_def)
  have f2: "fleet_reach mem_redis demo_codec demo_params G F2"
    by (rule fleet_lease [OF f1 _ s2])
      (use i(1) now g max in \<open>simp_all add: F2_def F1_def deletes_late_def follow_def demo_node_def claims_in_range_def\<close>)
  define F3 where "F3 = F2\<lparr>fl_now := ?s, fl_store := r', fl_node := (fl_node F2)(i := ?n (Leased (int i) (at_ms 10000 - 1))),
    fl_gen := (fl_gen F2)(i := SetWorkerID (int i) demo_gen)\<rparr>"
  have s3: "nstep mem_redis demo_codec demo_params i ?s (fl_node F2 i, fl_store F2) (?n (Leased (int i) (at_ms 10000 - 1)), r')"
    using nstep.grant [of "?n (Claimed (int i) ?a)" "int i" ?a mem_redis demo_codec demo_params i ?s r']
    by (simp add: F2_def demo_node_def demo_params_def at_ms_def)
  have "fleet_reach mem_redis demo_codec demo_params G F3"
    by (rule fleet_lease [OF f2 _ s3])
      (simp_all add: F3_def F2_def F1_def deletes_late_def follow_def demo_node_def claims_in_range_def)
  then show ?thesis using now by (intro exI [of _ F3]) (simp add: F3_def F2_def F1_def)
qed

text \<open>Instance \<open>i\<close> makes its first ID, ten milliseconds later.\<close>

lemma demo_emit:
  assumes F: "fleet_reach mem_redis demo_codec demo_params G F" and now: "fl_now F \<le> at_ms 10"
    and n: "fl_node F i = demo_node i (Leased w (at_ms 10000 - 1))" and g: "fl_gen F i = SetWorkerID w demo_gen"
    and x: "id_of_result (Some (fst (demo_try w))) = [x]" and b: "\<not> fl_full F i"
  shows "\<exists>F'. fleet_reach mem_redis demo_codec demo_params G F' \<and> fl_now F' = at_ms 10 \<and> fl_store F' = fl_store F \<and>
    fl_node F' = fl_node F \<and> fl_gen F' = (fl_gen F)(i := snd (demo_try w)) \<and>
    fl_full F' = (fl_full F)(i := False) \<and> fl_log F' = fl_log F @ [(i, at_ms 10, x)]"
proof -
  have gate: "gate_open demo_params (at_ms 10) (fl_node F i)"
    by (simp add: n gate_open_def demo_node_def demo_params_def at_ms_def)
  have clock: "wall (demo_time 10) = at_ms 10" by (simp add: demo_time_def at_ms_def)
  have nw: "fst (demo_try w) \<noteq> NeedWait 0" using x by auto
  have "reading_ok (fl_gen F i) (Attempt (demo_time 10) (demo_time 10))"
    using demo_reading_ok [of 10 "demo_time 10"] reading_ok_shape [OF shape_ops(1), of w demo_gen] by (simp add: g)
  from fleet_step.attempt [of F "at_ms 10" demo_params i "demo_time 10" "demo_time 10" "fst (demo_try w)" "snd (demo_try w)",
      OF now gate clock this] b
  have "fleet_step mem_redis demo_codec demo_params F (F\<lparr>fl_now := at_ms 10, fl_gen := (fl_gen F)(i := snd (demo_try w)),
      fl_full := (fl_full F)(i := False), fl_log := fl_log F @ [(i, at_ms 10, x)]\<rparr>)"
    using x nw by (auto simp: g demo_try_def)
  from fleet_reach.step [OF F this] show ?thesis
    by (intro exI [of _ "F\<lparr>fl_now := at_ms 10, fl_gen := (fl_gen F)(i := snd (demo_try w)),
      fl_full := (fl_full F)(i := False), fl_log := fl_log F @ [(i, at_ms 10, x)]\<rparr>"]) simp
qed


end
