(* ===== verification/Worker_Races.thy ===== *)
theory Worker_Races
  imports Worker_Demo Worker_Exclusion
begin

text \<open>
  Deregistration, recovery, keys and the registry: what holds of them, and two schedules on
  which two instances end up with one worker ID.
\<close>

section \<open>Deregistration\<close>

text \<open>A deregistration during the lease spares the other instances: whatever they hold before
  it, they hold after it, with interference at every call, as long as the instance's own key
  is kept between the check of the owner and the deletion. Afterwards the manager is shut down,
  unregistered, unhealthy, without a worker ID and with its heartbeat cancelled.\<close>

theorem unregister_spares_others:
  assumes "redis_server R" and "UnregisterWorkerID R J e m r = (err, m', r')" and "w_registered m"
    and "lease_held R J t0 slack m r" and "t0 \<le> c_at (u_get e)" and "c_at (u_get e) \<le> c_at (u_del e)"
    and "c_at (u_del e) \<le> w_leaseDeadline m - slack"
    and "\<forall>r. keeps_mine R J (w_keyPrefix m) (w_instanceID m) (c_at (u_get e)) r (c_before (u_get e) r) \<and>
      keeps_mine R J (w_keyPrefix m) (w_instanceID m) (c_at (u_del e)) r (c_before (u_del e) r)"
    and "\<forall>r. keeps_mine R J (w_keyPrefix m) i T r (c_before (u_get e) r) \<and>
      keeps_mine R J (w_keyPrefix m) i T r (c_before (u_del e) r) \<and>
      keeps_mine R J (w_keyPrefix m) i T r (c_before (u_srem e) r)"
    and "c_at (u_del e) \<le> T" and "c_at (u_srem e) \<le> T" and "i \<noteq> w_instanceID m"
  shows "keeps_mine R J (w_keyPrefix m) i T r r' \<and> w_shuttingDown m' = 1 \<and> \<not> w_registered m' \<and>
    w_workerID m' = -1 \<and> w_healthy m' = 0 \<and> w_heartbeatCancel m' = None"
  using redis_server.unregister_safe [OF assms(1,2,4-12)] UnregisterWorkerID_state [OF assms(2)] assms(3)
  by simp

definition demo_unregister :: "int \<Rightarrow> int \<Rightarrow> (mem \<Rightarrow> mem) \<Rightarrow> mem unregister_env" where
  "demo_unregister get del between = \<lparr>u_get = arrives (at_ms get),
     u_del = \<lparr>c_before = between, c_at = at_ms del, c_net = Reached\<rparr>, u_srem = arrives (at_ms del)\<rparr>"

definition demo_left :: "worker_error option \<times> WorkerIDManager \<times> mem" where
  "demo_left = UnregisterWorkerID mem_redis demo_codec (demo_unregister 2000 2001 id) demo_m1 demo_r1"

lemma unregister_spares_others_witness:
  "keeps_mine mem_redis demo_codec (w_keyPrefix demo_m1) ''another'' (at_ms 2001) demo_r1 (snd (snd demo_left)) \<and>
   w_shuttingDown (fst (snd demo_left)) = 1 \<and> \<not> w_registered (fst (snd demo_left)) \<and>
   w_workerID (fst (snd demo_left)) = -1 \<and> w_healthy (fst (snd demo_left)) = 0 \<and>
   w_heartbeatCancel (fst (snd demo_left)) = None"
proof (rule unregister_spares_others [OF mem.redis_server_axioms _ _ demo_m1_lease])
  show "UnregisterWorkerID mem_redis demo_codec (demo_unregister 2000 2001 id) demo_m1 demo_r1 =
      (fst demo_left, fst (snd demo_left), snd (snd demo_left))"
    by (simp add: demo_left_def)
qed (use demo_m1_facts in \<open>simp_all add: demo_unregister_def arrives_def at_ms_def keeps_mine_refl\<close>)

text \<open>A second instance, process \<open>2\<close>, that registers worker ID 0 at \<open>ms\<close>.\<close>

definition demo_intruder :: "int \<Rightarrow> mem \<Rightarrow> worker_error option \<times> WorkerIDManager \<times> mem" where
  "demo_intruder ms r = RegisterSpecificWorkerID mem_redis demo_codec
     \<lparr>s_now = reading (at_ms ms - 1) (ms * Millisecond), s_ident = demo_ident 2,
      s_setnx = arrives (at_ms ms), s_sadd = arrives (at_ms ms)\<rparr> 0 demo_manager r"

definition demo_raced :: "worker_error option \<times> WorkerIDManager \<times> mem" where
  "demo_raced = UnregisterWorkerID mem_redis demo_codec
     (demo_unregister 9000 12000 (\<lambda>r. snd (snd (demo_intruder 11000 r)))) demo_m1 demo_r1"

text \<open>The check of the owner and the deletion are two calls. If the instance's key runs out
  between them and a second instance registers the same worker ID, the deletion removes the
  second instance's key: its manager is registered and healthy with nine seconds of lease left,
  and Redis offers its worker ID to anybody.\<close>

theorem unregister_race:
  "fst (demo_intruder 11000 demo_r1) = None \<and>
   w_workerID (fst (snd (demo_intruder 11000 demo_r1))) = 0 \<and>
   mem_get (at_ms 11000) (getWorkerKey demo_manager 0) (snd (snd (demo_intruder 11000 demo_r1))) =
     Some ''instance-1-3-2-0-5'' \<and>
   fst demo_raced = None \<and>
   mem_get (at_ms 12000) (getWorkerKey demo_manager 0) (snd (snd demo_raced)) = None \<and>
   fst (worker_IsHealthy (reading (at_ms 20000) 0) (fst (snd (demo_intruder 11000 demo_r1))))"
  by (intro conjI; code_simp)

section \<open>The lease outlives the key\<close>

definition demo_overrun :: "worker_error option \<times> WorkerIDManager \<times> mem" where
  "demo_overrun = sendHeartbeat mem_redis demo_codec (demo_beat 3000 4000) demo_m1 demo_r1"

text \<open>The lease is counted from the reading of the clock after the reply, the life of the key
  from the moment the server renews it. A beat whose reply takes four seconds leaves the lease
  four seconds longer than the key, and in that time a second instance registers the same
  worker ID while both managers report health.\<close>

theorem lease_overrun:
  "fst demo_overrun = None \<and> fst (demo_intruder 14000 (snd (snd demo_overrun))) = None \<and>
   fst (worker_IsHealthy (reading (at_ms 16000) 0) (fst (snd demo_overrun))) \<and>
   fst (worker_IsHealthy (reading (at_ms 16000) 0) (fst (snd (demo_intruder 14000 (snd (snd demo_overrun)))))) \<and>
   w_workerID (fst (snd demo_overrun)) = 0 \<and>
   w_workerID (fst (snd (demo_intruder 14000 (snd (snd demo_overrun))))) = 0 \<and>
   w_instanceID (fst (snd demo_overrun)) \<noteq>
     w_instanceID (fst (snd (demo_intruder 14000 (snd (snd demo_overrun)))))"
  by (intro conjI; code_simp)

section \<open>Shutdown\<close>

text \<open>C29: A deregistration is final for every path that registers by search: registration, the
  fresh registration of the recovery and the background recovery all stop without a call to
  Redis, and the manager stays unhealthy and unregistered.\<close>

theorem shutdown_stops_registration:
  assumes "UnregisterWorkerID R J e m r = (err, m', r')" and "w_registered m"
    and "w_redisClient m'" and "0 \<le> maxW"
  shows "RegisterWorkerID R J cb env maxW m' g s = (Inl ManagerShuttingDown, m', g, s) \<and>
    attemptRegisterFresh R J cb shut envs maxW (Suc n) i lastErr m' g s =
      (Inl (Some ManagerShuttingDown), [], m', g, s) \<and>
    backgroundRecover R J cb shut envs maxW (Suc fuel) i b m' g s = Some ([], m'\<lparr>w_recovering := 0\<rparr>, g, s) \<and>
    w_healthy m' = 0 \<and> \<not> w_registered m'"
proof -
  have m': "w_shuttingDown m' = 1" "w_healthy m' = 0" "\<not> w_registered m'"
    using UnregisterWorkerID_state [OF assms(1)] assms(2) by simp_all
  have id: "m'\<lparr>w_shuttingDown := 1\<rparr> = m'" "m'\<lparr>w_healthy := 0\<rparr> = m'" using m' by simp_all
  show ?thesis using m' id assms(3,4) by (simp add: RegisterWorkerID_def)
qed

lemma shutdown_stops_registration_witness:
  "RegisterWorkerID mem_redis demo_codec None (demo_attempt 1 3000) 31 (fst (snd demo_left)) () (snd (snd demo_left)) =
   (Inl ManagerShuttingDown, fst (snd demo_left), (), snd (snd demo_left))"
proof -
  have run: "UnregisterWorkerID mem_redis demo_codec (demo_unregister 2000 2001 id) demo_m1 demo_r1 =
      (fst demo_left, fst (snd demo_left), snd (snd demo_left))"
    by (simp add: demo_left_def)
  have "w_registered demo_m1" "w_redisClient (fst (snd demo_left))" by code_simp+
  from shutdown_stops_registration [OF run this, of 31] show ?thesis by (rule conjE) simp
qed

section \<open>Background recovery\<close>

lemma nextBackoff_bounds:
  "0 < b \<Longrightarrow> b \<le> 10 * Second \<Longrightarrow> b \<le> nextBackoff b \<and> nextBackoff b \<le> 10 * Second"
  by (auto simp: nextBackoff_def Let_def i64_id)

lemma registerLoop_shutting:
  "registerLoop R J cb env n left i m g r = (x, m', g', r') \<Longrightarrow>
     w_shuttingDown m' = w_shuttingDown m \<and> (is_ok x \<longrightarrow> w_registered m')"
proof (induction left arbitrary: i m g r)
  case (Suc left)
  then show ?case
    by (auto simp: Let_def registered_as_def setLeaseDeadline_def redisResultToInt64_def is_ok_def
        split: if_splits option.splits prod.splits)
qed (auto simp: is_ok_def)

lemma registered_after:
  "RegisterWorkerID R J cb env maxW m g r = (x, m', g', r') \<Longrightarrow>
     w_shuttingDown m' = w_shuttingDown m \<and> (is_ok x \<longrightarrow> w_registered m')"
  using registerLoop_shutting [of R J cb env]
  by (auto simp: RegisterWorkerID_def Let_def is_ok_def split: if_splits)

lemma recover_aux:
  assumes "shut (i + n)" and "n < fuel" and "0 < b" and "b \<le> 10 * Second"
  shows "\<exists>sleeps m' g' r'. backgroundRecover R J cb shut env maxW fuel i b m g r = Some (sleeps, m', g', r') \<and>
    length sleeps \<le> n \<and> sorted (b # sleeps) \<and> list_all (\<lambda>s. s \<le> 10 * Second) sleeps \<and> w_recovering m' = 0 \<and>
    (w_shuttingDown m' = 1 \<or> w_registered m')"
  using assms
proof (induction fuel arbitrary: i n b m g r)
  case 0
  then show ?case by simp
next
  case (Suc fuel)
  define m1 where "m1 = (if shut i then m\<lparr>w_shuttingDown := 1\<rparr> else m)"
  obtain x m2 g2 r2 where reg: "RegisterWorkerID R J cb (env i) maxW m1 g r = (x, m2, g2, r2)" by (rule prod_cases4)
  show ?case
  proof (cases "w_shuttingDown m1 = 1 \<or> w_registered m1 \<or> is_ok x")
    case True
    then show ?thesis
      using reg registered_after [OF reg]
      by (cases "w_shuttingDown m1 = 1"; cases "w_registered m1")
         (auto simp: m1_def [symmetric] Let_def is_ok_def split: sum.splits)
  next
    case False
    then obtain err where x: "x = Inl err" by (auto simp: is_ok_def split: sum.splits)
    have n: "n \<noteq> 0"
    proof
      assume "n = 0"
      with Suc.prems(1) False show False by (simp add: m1_def)
    qed
    from n have "shut (Suc i + (n - 1))" "n - 1 < fuel" using Suc.prems(1,2) by simp_all
    moreover have nb: "0 < nextBackoff b" "nextBackoff b \<le> 10 * Second" "b \<le> nextBackoff b"
      using nextBackoff_bounds [OF Suc.prems(3,4)] Suc.prems(3) by simp_all
    ultimately obtain s m' g' r' where rec:
      "backgroundRecover R J cb shut env maxW fuel (Suc i) (nextBackoff b) m2 g2 r2 = Some (s, m', g', r')"
      "length s \<le> n - 1" "sorted (nextBackoff b # s)" "list_all (\<lambda>s. s \<le> 10 * Second) s"
      "w_recovering m' = 0" "w_shuttingDown m' = 1 \<or> w_registered m'"
      using Suc.IH by blast
    have "backgroundRecover R J cb shut env maxW (Suc fuel) i b m g r = Some (b # s, m', g', r')"
      using False x reg rec(1) by (simp add: m1_def [symmetric] Let_def)
    moreover have "length (b # s) \<le> n" using rec(2) n by simp
    moreover have "sorted (b # b # s)" using rec(3) nb(3) by auto
    moreover have "list_all (\<lambda>s. s \<le> 10 * Second) (b # s)" using rec(4) Suc.prems(4) by simp
    ultimately show ?thesis using rec(5,6) by blast
  qed
qed

text \<open>The background recovery ends: once a shutdown is signalled before attempt \<open>n\<close>, at most
  \<open>n + 1\<close> rounds are run, whatever Redis does; its waits grow from one second to at most ten;
  and it ends with the recovery flag cleared, either shut down or registered.\<close>

theorem background_recovery_ends:
  assumes "shut n" and "n < fuel"
  shows "\<exists>sleeps m' g' r'. backgroundRecover R J cb shut env maxW fuel 0 (1 * Second) m g r = Some (sleeps, m', g', r') \<and>
    length sleeps \<le> n \<and> sorted (1 * Second # sleeps) \<and> list_all (\<lambda>s. s \<le> 10 * Second) sleeps \<and>
    w_recovering m' = 0 \<and> (w_shuttingDown m' = 1 \<or> w_registered m')"
  using recover_aux [of shut 0 n fuel "1 * Second"] assms by simp

lemma background_recovery_ends_witness:
  "\<exists>sleeps m' g' r'. backgroundRecover mem_redis demo_codec None (\<lambda>i. 3 \<le> i) (\<lambda>i. demo_attempt 1 20000) 0 4 0 (1 * Second)
      (demo_manager\<lparr>w_recovering := 1\<rparr>) () demo_r1 = Some (sleeps, m', g', r') \<and> w_recovering m' = 0"
  using background_recovery_ends [of "\<lambda>i. 3 \<le> i" 3 4 mem_redis demo_codec None "\<lambda>i. demo_attempt 1 20000" 0
      "demo_manager\<lparr>w_recovering := 1\<rparr>" "()" demo_r1] by auto


section \<open>A reply that is late\<close>

text \<open>The end of a tick after the reply 1: the deadline is stored, then the health. Neither store
  looks at the registration again, and no lock is held.\<close>

definition tickSuccess :: "time \<Rightarrow> WorkerIDManager \<Rightarrow> WorkerIDManager" where
  "tickSuccess after m = (setLeaseDeadline after m)\<lparr>w_healthy := 1\<rparr>"

lemma tick_success:
  assumes "w_redisClient m" and "w_workerID m \<noteq> -1" and "beat R J e m r = (Inr 1, r')"
  shows "heartbeatTick R J cb e e' k m g r = (if k > 0 then 0 else k, tickSuccess (b_after e) m, g, r')"
  using assms by (simp add: heartbeatTick_def sendHeartbeat_def tickSuccess_def)

text \<open>If a deregistration runs between the reply of a heartbeat and those stores, the manager ends
  up healthy for a whole TTL, without a registration and without a key: the gate is open.\<close>

theorem late_reply_revives:
  assumes "UnregisterWorkerID R J e m r = (err, m', r')" and "w_registered m" and "0 \<le> w_ttl m"
    and "0 \<le> wall after" and "wall after + w_ttl m < 2 ^ 63" and "UnixNano now \<le> wall after + w_ttl m"
  shows "fst (worker_IsHealthy now (tickSuccess after m')) \<and> \<not> w_registered (tickSuccess after m') \<and>
    w_workerID (tickSuccess after m') = -1"
proof -
  have "w_ttl m' = w_ttl m"
    using assms(1) by (auto simp: UnregisterWorkerID_def Let_def stopHeartbeat_def wprom_def
        split: if_splits option.splits prod.splits)
  moreover have "\<not> w_registered m'" "w_workerID m' = -1" using UnregisterWorkerID_state [OF assms(1)] assms(2) by simp_all
  ultimately show ?thesis
    using assms(3-6) by (simp add: tickSuccess_def setLeaseDeadline_def worker_IsHealthy_def Let_def UnixNano_def
        time_Add_def i64_id)
qed

end
