(* ===== verification/Worker_Registry.thy ===== *)
theory Worker_Registry
  imports Worker_Demo
begin

text \<open>
  Keys, and the registry of the workers of all datacenters: its members are parsed back, live
  workers are listed in order and dead ones removed.
\<close>

section \<open>Keys\<close>

text \<open>Under one prefix no two keys collide: the worker keys of different (datacenter, worker)
  pairs differ from each other and from the counter and the registry; the normalisation of the
  prefix is idempotent and never yields an empty prefix.\<close>

theorem keys_distinct:
  "(getWorkerKeyForDatacenter m dc w = getWorkerKeyForDatacenter m dc' w' \<longleftrightarrow> dc = dc' \<and> w = w') \<and>
   getWorkerKeyForDatacenter m dc w \<noteq> getCounterKey m \<and>
   getWorkerKeyForDatacenter m dc w \<noteq> getRegistryKey m \<and> getRegistryKey m \<noteq> getCounterKey m \<and>
   getWorkerKey m w = getWorkerKeyForDatacenter m (w_datacenterID m) w \<and>
   NormalizeKeyPrefix (NormalizeKeyPrefix p) = NormalizeKeyPrefix p \<and> NormalizeKeyPrefix p \<noteq> ''''"
proof -
  have "getWorkerKeyForDatacenter m dc w = workerKey (w_keyPrefix m) dc w"
    "getWorkerKey m w = getWorkerKeyForDatacenter m (w_datacenterID m) w"
    by (simp_all add: getWorkerKeyForDatacenter_def getWorkerKey_def)
  moreover have "getWorkerKeyForDatacenter m dc' w' = workerKey (w_keyPrefix m) dc' w'"
    by (simp add: getWorkerKeyForDatacenter_def)
  moreover have "NormalizeKeyPrefix (NormalizeKeyPrefix p) = NormalizeKeyPrefix p" "NormalizeKeyPrefix p \<noteq> ''''"
    by (simp_all add: NormalizeKeyPrefix_def DefaultRedisKeyPrefix_def)
  ultimately show ?thesis
    using workerKey_inj counterKey_not_worker [of m] registryKey_not_worker [of m] registryKey_not_counter
    by metis
qed

section \<open>Members are parsed back\<close>

lemma splitColon_none: "CHR '':'' \<notin> set s \<Longrightarrow> splitColon s = [s]"
  by (induction s) (auto simp: split: if_splits)

lemma splitColon_append:
  "CHR '':'' \<notin> set s \<Longrightarrow> splitColon (s @ CHR '':'' # t) = s # splitColon t"
  by (induction s) auto

lemma all_digits_show: "all_digits (show_nat n)"
  using show_nat_digits show_nat_nonempty by (auto simp: all_digits_def list_all_iff)

lemma show_nat_first: "show_nat n \<noteq> [] \<and> hd (show_nat n) \<noteq> CHR ''-'' \<and> hd (show_nat n) \<noteq> CHR ''+''"
proof -
  have ne: "show_nat n \<noteq> []" by (rule show_nat_nonempty)
  from show_nat_digits [OF hd_in_set [OF ne]] have "48 \<le> (of_char (hd (show_nat n)) :: nat)" by simp
  with ne show ?thesis by auto
qed

lemma ParseInt_show: "in_i64 i \<Longrightarrow> ParseInt (show_int i) = Some i"
  using show_nat_first all_digits_show
  by (cases "i < 0") (simp_all add: ParseInt_def show_int_def Let_def read_show_nat)

lemma member_parts:
  "splitColon (registryMember dc w) = [show_int dc, show_int w]"
  using show_int_no_colon by (simp add: registryMember_def splitColon_append splitColon_none)

section \<open>The list of workers\<close>

definition worker_at :: "'r redis \<Rightarrow> codec \<Rightarrow> int \<Rightarrow> WorkerIDManager \<Rightarrow> 'r \<Rightarrow> int \<times> int \<Rightarrow> WorkerInfo option" where
  "worker_at R J now m r p = Option.bind (GET R now (getWorkerKeyForDatacenter m (fst p) (snd p)) r) (ParseWorkerInfo J)"

definition forget_dead :: "'r redis \<Rightarrow> int \<Rightarrow> WorkerIDManager \<Rightarrow> (int \<times> int) list \<Rightarrow> 'r \<Rightarrow> 'r" where
  "forget_dead R now m ps r =
     fold (\<lambda>p. SREM R now (getRegistryKey m) (registryMember (fst p) (snd p)))
       (filter (\<lambda>p. GET R now (getWorkerKeyForDatacenter m (fst p) (snd p)) r = None) ps) r"

definition plain :: "int \<Rightarrow> 'r member_env \<Rightarrow> bool" where
  "plain now e \<longleftrightarrow> c_net (me_get e) = Reached \<and> c_before (me_get e) = id \<and> c_at (me_get e) = now \<and>
     c_net (me_srem e) = Reached \<and> c_before (me_srem e) = id \<and> c_at (me_srem e) = now"

lemma issue_plain:
  "c_net c = Reached \<Longrightarrow> c_before c = id \<Longrightarrow> issue c cmd r = (Some (fst (cmd (c_at c) r)), snd (cmd (c_at c) r))"
  by (simp add: issue_def case_prod_unfold)

lemma collectWorkers_plain:
  assumes R: "redis_server R" and e: "\<forall>k. plain now (env k)"
    and "\<forall>p \<in> set ps. in_i64 (fst p) \<and> in_i64 (snd p)"
    and "\<forall>p \<in> set ps. GET R now (getWorkerKeyForDatacenter m (fst p) (snd p)) r1 =
      GET R now (getWorkerKeyForDatacenter m (fst p) (snd p)) r"
  shows "collectWorkers R J m env i (map (\<lambda>p. registryMember (fst p) (snd p)) ps) r1 =
    (List.map_filter (worker_at R J now m r) ps,
     fold (\<lambda>p. SREM R now (getRegistryKey m) (registryMember (fst p) (snd p)))
       (filter (\<lambda>p. GET R now (getWorkerKeyForDatacenter m (fst p) (snd p)) r = None) ps) r1)"
  using assms(3,4)
proof (induction ps arbitrary: i r1)
  case Nil
  then show ?case by (simp add: List.map_filter_simps)
next
  case (Cons p ps)
  let ?k = "\<lambda>p. getWorkerKeyForDatacenter m (fst p) (snd p)"
  have pl: "plain now (env i)" using e by simp
  have get: "GET R now (?k p) r1 = GET R now (?k p) r" and i64: "in_i64 (fst p)" "in_i64 (snd p)"
    using Cons.prems by simp_all
  have srem: "GET R now (?k q) (SREM R now (getRegistryKey m) x s) = GET R now (?k q) s" for q x s
    using redis_server.registry_leaves(2) [OF R refl, of now m "fst q" "snd q" s x]
    by (simp add: same_key_def getWorkerKeyForDatacenter_def)
  note ih = Cons.IH [of _ "Suc i"]
  show ?case
    using Cons.prems pl get ih [of r1] ih [of "SREM R now (getRegistryKey m) (registryMember (fst p) (snd p)) r1"]
    by (cases "GET R now (?k p) r")
       (simp_all add: member_parts ParseInt_show i64 plain_def issue_plain worker_at_def List.map_filter_simps srem
         split: option.split)
qed

lemma list_workers_aux:
  assumes "redis_server R" and "w_redisClient m" and "\<forall>k. plain now (env k)"
    and "c_net c = Reached" and "c_before c = id" and "c_at c = now"
    and "SMEMBERS R now (getRegistryKey m) r = map (\<lambda>p. registryMember (fst p) (snd p)) ps"
    and "\<forall>p \<in> set ps. in_i64 (fst p) \<and> in_i64 (snd p)"
  shows "GetRegisteredWorkers R J c env m r =
    (Inr (List.map_filter (worker_at R J now m r) ps), forget_dead R now m ps r)"
  using collectWorkers_plain [OF assms(1,3,8), of m r r J 0] assms
  by (simp add: GetRegisteredWorkers_def issue_plain forget_dead_def)

text \<open>C28: The list of registered workers is the information of exactly the registered workers whose
  key is live and readable, in the order of the registry, in every datacenter; the members whose
  key is gone, and only those, are removed from the registry. Every member that registration
  writes is read back to its datacenter and worker ID.\<close>

theorem list_workers:
  assumes "redis_server R" and "w_redisClient m" and "\<forall>k. plain now (env k)"
    and "c_net c = Reached" and "c_before c = id" and "c_at c = now"
    and "SMEMBERS R now (getRegistryKey m) r = map (\<lambda>p. registryMember (fst p) (snd p)) ps"
    and "\<forall>p \<in> set ps. in_i64 (fst p) \<and> in_i64 (snd p)"
  shows "GetRegisteredWorkers R J c env m r =
    (Inr (List.map_filter (worker_at R J now m r) ps), forget_dead R now m ps r)"
  by (rule list_workers_aux [OF assms])

lemma list_workers_witness:
  "fst (GetRegisteredWorkers mem_redis demo_codec (arrives (at_ms 500))
      (\<lambda>k. \<lparr>me_get = arrives (at_ms 500), me_srem = arrives (at_ms 500)\<rparr>) demo_m1 demo_r1) =
   Inr (List.map_filter (worker_at mem_redis demo_codec (at_ms 500) demo_m1 demo_r1) [(3, 0)])"
proof -
  have "SMEMBERS mem_redis (at_ms 500) (getRegistryKey demo_m1) demo_r1 =
      map (\<lambda>p. registryMember (fst p) (snd p)) [(3, 0)]"
    by code_simp
  moreover have "w_redisClient demo_m1" by code_simp
  ultimately have "GetRegisteredWorkers mem_redis demo_codec (arrives (at_ms 500))
      (\<lambda>k. \<lparr>me_get = arrives (at_ms 500), me_srem = arrives (at_ms 500)\<rparr>) demo_m1 demo_r1 =
    (Inr (List.map_filter (worker_at mem_redis demo_codec (at_ms 500) demo_m1 demo_r1) [(3, 0)]),
     forget_dead mem_redis (at_ms 500) demo_m1 [(3, 0)] demo_r1)"
    by (intro list_workers mem.redis_server_axioms) (simp_all add: plain_def arrives_def in_i64_def)
  then show ?thesis by simp
qed

end
