(* ===== verification/Rate_Limiter.thy ===== *)
theory Rate_Limiter
  imports Float64 Prelude
begin

text \<open>
  The token bucket rate limiter of \<open>security.go\<close>: \<open>TokenBucket\<close>, \<open>RateLimiter\<close> and its
  clean-up. Buckets are shared by reference between the map and the requests in flight, so
  they live on a heap; \<open>Allow\<close> is two atomic steps, a lookup under the limiter's mutex and a
  \<open>consume\<close> under the bucket's, and everything else may run between them.
\<close>

section \<open>Buckets\<close>

record TokenBucket =
  tb_tokens :: int
  tb_capacity :: int
  tb_lastRefill :: time
  tb_lastAccess :: time

text \<open>\<open>consume\<close>, at the reading \<open>now\<close> of the clock.\<close>

definition tokensToAdd :: "time \<Rightarrow> TokenBucket \<Rightarrow> int" where
  "tokensToAdd now tb = int_of_float (duration_Seconds (time_Sub now (tb_lastRefill tb)))"

definition consume :: "time \<Rightarrow> TokenBucket \<Rightarrow> bool \<times> TokenBucket" where
  "consume now tb =
     (let tb = tb\<lparr>tb_lastAccess := now\<rparr>;
          n = tokensToAdd now tb;
          tb = (if n > 0 then tb\<lparr>tb_tokens := min (tb_capacity tb) (i64 (tb_tokens tb + n)), tb_lastRefill := now\<rparr>
                else tb)
      in if tb_tokens tb > 0 then (True, tb\<lparr>tb_tokens := i64 (tb_tokens tb - 1)\<rparr>) else (False, tb))"

section \<open>The limiter\<close>

text \<open>The map as an association list of clients and addresses; \<open>rl_closed\<close> counts how often the
  channel \<open>stopCleanup\<close> has been closed (a second time panics), \<open>rl_loops\<close> how many clean-up
  goroutines were started.\<close>

record RateLimiter =
  rl_rate :: int
  rl_buckets :: "(string \<times> nat) list"
  rl_heap :: "TokenBucket list"
  rl_bucketTTL :: int
  rl_lastCleanup :: time
  rl_cleanupRunning :: bool
  rl_closed :: nat
  rl_loops :: nat

definition startCleanup :: "RateLimiter \<Rightarrow> RateLimiter" where
  "startCleanup rl = (if rl_cleanupRunning rl then rl
     else rl\<lparr>rl_cleanupRunning := True, rl_loops := rl_loops rl + 1\<rparr>)"

definition NewRateLimiterWithTTL :: "int \<Rightarrow> int \<Rightarrow> time \<Rightarrow> RateLimiter" where
  "NewRateLimiterWithTTL rate bucketTTL now = startCleanup
     \<lparr>rl_rate = rate, rl_buckets = [], rl_heap = [], rl_bucketTTL = bucketTTL, rl_lastCleanup = now,
      rl_cleanupRunning = False, rl_closed = 0, rl_loops = 0\<rparr>"

definition NewRateLimiter :: "int \<Rightarrow> time \<Rightarrow> RateLimiter" where
  "NewRateLimiter rate now = startCleanup
     \<lparr>rl_rate = rate, rl_buckets = [], rl_heap = [], rl_bucketTTL = 10 * 60 * Second, rl_lastCleanup = now,
      rl_cleanupRunning = False, rl_closed = 0, rl_loops = 0\<rparr>"

definition StopLimiter :: "RateLimiter \<Rightarrow> RateLimiter" where
  "StopLimiter rl = (if rl_cleanupRunning rl
     then rl\<lparr>rl_closed := rl_closed rl + 1, rl_cleanupRunning := False\<rparr> else rl)"

definition cleanup :: "time \<Rightarrow> RateLimiter \<Rightarrow> RateLimiter" where
  "cleanup now rl =
     (let rl = rl\<lparr>rl_lastCleanup := now\<rparr>
      in rl\<lparr>rl_buckets := filter (\<lambda>(clientID, a).
           \<not> time_Sub now (tb_lastAccess (rl_heap rl ! a)) > rl_bucketTTL rl) (rl_buckets rl)\<rparr>)"

text \<open>The first step of \<open>Allow\<close>, with its two readings of the clock: the client's bucket, a new
  one if there is none.\<close>

definition bucketFor :: "string \<Rightarrow> time \<Rightarrow> time \<Rightarrow> RateLimiter \<Rightarrow> nat \<times> RateLimiter" where
  "bucketFor clientID t1 t2 rl =
     (case map_of (rl_buckets rl) clientID of
        Some a \<Rightarrow> (a, rl)
      | None \<Rightarrow>
          (let a = length (rl_heap rl);
               bucket = \<lparr>tb_tokens = rl_rate rl, tb_capacity = rl_rate rl, tb_lastRefill = t1, tb_lastAccess = t2\<rparr>
           in (a, rl\<lparr>rl_heap := rl_heap rl @ [bucket], rl_buckets := (clientID, a) # rl_buckets rl\<rparr>)))"

definition consumeAt :: "nat \<Rightarrow> time \<Rightarrow> RateLimiter \<Rightarrow> bool \<times> RateLimiter" where
  "consumeAt a now rl =
     (case consume now (rl_heap rl ! a) of (ok, tb) \<Rightarrow> (ok, rl\<lparr>rl_heap := (rl_heap rl)[a := tb]\<rparr>))"

definition Allow :: "string \<Rightarrow> time \<Rightarrow> time \<Rightarrow> time \<Rightarrow> RateLimiter \<Rightarrow> bool \<times> RateLimiter" where
  "Allow clientID t1 t2 now rl = (case bucketFor clientID t1 t2 rl of (a, rl) \<Rightarrow> consumeAt a now rl)"

definition GetBucketCount :: "RateLimiter \<Rightarrow> int" where
  "GetBucketCount rl = int (length (rl_buckets rl))"

section \<open>Interleavings\<close>

text \<open>The atomic steps of any number of callers, the clean-up goroutine and \<open>Stop\<close>. A request
  consumes at an address it has looked up.\<close>

datatype rl_op = Lookup string time time | Consume nat time | Cleanup time | Stop

fun rl_step :: "rl_op \<Rightarrow> RateLimiter \<Rightarrow> (nat \<times> bool) option \<times> RateLimiter" where
  "rl_step (Lookup clientID t1 t2) rl = (None, snd (bucketFor clientID t1 t2 rl))"
| "rl_step (Consume a now) rl =
     (if a < length (rl_heap rl) then (case consumeAt a now rl of (ok, rl) \<Rightarrow> (Some (a, ok), rl)) else (None, rl))"
| "rl_step (Cleanup now) rl = (None, cleanup now rl)"
| "rl_step Stop rl = (None, StopLimiter rl)"

fun rl_run :: "rl_op list \<Rightarrow> RateLimiter \<Rightarrow> (nat \<times> bool) option list \<times> RateLimiter" where
  "rl_run [] rl = ([], rl)"
| "rl_run (op # ops) rl = (case rl_step op rl of (x, rl) \<Rightarrow> (case rl_run ops rl of (xs, rl) \<Rightarrow> (x # xs, rl)))"

text \<open>The goroutine that \<open>startCleanup\<close> starts: it cleans up at every tick and ends, with its
  ticker, when the channel is closed. It is a run of the steps above.\<close>

datatype cleaner_event = CleanTick time | CleanStop

fun cleanupLoop :: "cleaner_event list \<Rightarrow> RateLimiter \<Rightarrow> bool \<times> RateLimiter" where
  "cleanupLoop [] rl = (True, rl)"
| "cleanupLoop (CleanTick now # es) rl = cleanupLoop es (cleanup now rl)"
| "cleanupLoop (CleanStop # es) rl = (False, rl)"

lemma cleanupLoop_run: "\<exists>ts. snd (cleanupLoop es rl) = snd (rl_run (map Cleanup ts) rl)"
proof (induction es rl rule: cleanupLoop.induct)
  case (2 now es rl)
  then obtain ts where "snd (cleanupLoop es (cleanup now rl)) = snd (rl_run (map Cleanup ts) (cleanup now rl))" by blast
  then show ?case by (intro exI [of _ "now # ts"]) (simp split: prod.split)
qed (auto intro: exI [of _ "[]"])

section \<open>Invariant\<close>

definition bucket_ok :: "int \<Rightarrow> TokenBucket \<Rightarrow> bool" where
  "bucket_ok rate tb \<longleftrightarrow> tb_capacity tb = rate \<and> 0 \<le> tb_tokens tb \<and> tb_tokens tb \<le> rate"

definition rl_inv :: "RateLimiter \<Rightarrow> bool" where
  "rl_inv rl \<longleftrightarrow> 0 \<le> rl_rate rl \<and> rl_rate rl < 2 ^ 62 \<and>
     list_all (bucket_ok (rl_rate rl)) (rl_heap rl) \<and>
     distinct (map fst (rl_buckets rl)) \<and> distinct (map snd (rl_buckets rl)) \<and>
     list_all (\<lambda>(c, a). a < length (rl_heap rl)) (rl_buckets rl) \<and>
     rl_loops rl = 1 \<and> rl_closed rl = (if rl_cleanupRunning rl then 0 else 1)"

text \<open>The seconds of a duration: at most zero for one that is not positive, and always small.\<close>

lemma sdiv_smod_abs:
  "\<bar>d sdiv Second\<bar> = \<bar>d\<bar> div Second" "\<bar>d smod Second\<bar> = \<bar>d\<bar> mod Second"
  "d \<le> 0 \<Longrightarrow> d sdiv Second \<le> 0" "d \<le> 0 \<Longrightarrow> d smod Second \<le> 0"
proof -
  have neg: "d sdiv Second = - (- d sdiv Second)" "d smod Second = - (- d smod Second)" by simp_all
  have pos: "d sdiv Second = d div Second" "d smod Second = d mod Second" if "0 \<le> d"
    using that sdiv_nonneg [of d Second] smod_nonneg [of d Second] by simp_all
  have neg': "- d sdiv Second = - d div Second" "- d smod Second = - d mod Second" if "d \<le> 0"
    using that sdiv_nonneg [of "- d" Second] smod_nonneg [of "- d" Second] by simp_all
  have nn: "0 \<le> - d div Second" if "d \<le> 0" using that by (simp add: pos_imp_zdiv_nonneg_iff)
  have np: "0 \<le> d div Second" if "0 \<le> d" using that by (simp add: pos_imp_zdiv_nonneg_iff)
  show "\<bar>d sdiv Second\<bar> = \<bar>d\<bar> div Second"
  proof (cases "0 \<le> d")
    case True
    with pos np show ?thesis by simp
  next
    case False
    then have "\<bar>- d sdiv Second\<bar> = - d div Second" using neg' nn by simp
    with False show ?thesis by (metis abs_minus_cancel abs_of_nonpos linear neg(1))
  qed
  show "\<bar>d smod Second\<bar> = \<bar>d\<bar> mod Second"
  proof (cases "0 \<le> d")
    case True
    with pos show ?thesis by simp
  next
    case False
    then have "\<bar>- d smod Second\<bar> = - d mod Second" using neg' by simp
    with False show ?thesis by (metis abs_minus_cancel abs_of_nonpos linear neg(2))
  qed
  show "d \<le> 0 \<Longrightarrow> d sdiv Second \<le> 0" using neg(1) neg'(1) nn by simp
  show "d \<le> 0 \<Longrightarrow> d smod Second \<le> 0" using neg(2) neg'(2) by (metis neg_0_le_iff_le neg_le_0_iff_le pos_mod_sign zero_less_numeral)
qed

lemma sdiv_smod_bounds:
  assumes "- (2 ^ 63) \<le> d" and "d < 2 ^ 63"
  shows "\<bar>d sdiv Second\<bar> \<le> 2 ^ 34 \<and> \<bar>d smod Second\<bar> \<le> Second"
proof -
  have "\<bar>d\<bar> \<le> 2 ^ 34 * Second" using assms by auto
  then have "\<bar>d\<bar> div Second \<le> 2 ^ 34" using zdiv_mono1 [of "\<bar>d\<bar>" "2 ^ 34 * Second" Second] by simp
  moreover have "\<bar>d\<bar> mod Second < Second" by simp
  ultimately show ?thesis unfolding sdiv_smod_abs by simp
qed

lemma seconds_bounds:
  assumes "- (2 ^ 63) \<le> d" and "d < 2 ^ 63"
  shows "int_of_float (duration_Seconds d) \<le> 2 ^ 35"
    and "d \<le> 0 \<Longrightarrow> int_of_float (duration_Seconds d) \<le> 0"
proof -
  let ?s = "d sdiv Second" and ?n = "d smod Second"
  note b = sdiv_smod_bounds [OF assms]
  let ?f = "fround (of_int ?n / of_int Second)"
  have eq: "duration_Seconds d = fround (of_int ?s + ?f)"
    using b fround.rnd_int [of ?s] fround.rnd_int [of ?n] fround.rnd_int [of Second]
    by (simp add: duration_Seconds_def float_add_def float_div_def float_of_int_def)
  have "of_int ?n / of_int Second \<le> (of_int 1 :: rat)"
    using b by (simp add: abs_le_iff divide_le_eq_1_pos)
  from fround.rnd_le_int [OF _ this] have "?f \<le> 1" by simp
  moreover have "of_int ?s \<le> (2 ^ 34 :: rat)" using b by (metis abs_le_iff of_int_le_iff of_int_numeral of_int_power)
  ultimately have "of_int ?s + ?f \<le> of_int (2 ^ 34 + 1)" by simp
  from fround.rnd_le_int [OF _ this] eq have "duration_Seconds d \<le> of_int (2 ^ 34 + 1)" by simp
  then show "int_of_float (duration_Seconds d) \<le> 2 ^ 35"
    by (auto simp: int_of_float_def floor_le_iff ceiling_le_iff)
  assume "d \<le> 0"
  note z = sdiv_smod_abs(3,4) [OF this]
  have "of_int ?n / of_int Second \<le> (of_int 0 :: rat)" using z by (simp add: divide_le_0_iff)
  from fround.rnd_le_int [OF _ this] have "?f \<le> 0" by simp
  moreover have "of_int ?s \<le> (0 :: rat)" using z by simp
  ultimately have "of_int ?s + ?f \<le> of_int 0" by simp
  from fround.rnd_le_int [OF _ this] eq have "duration_Seconds d \<le> 0" by simp
  then show "int_of_float (duration_Seconds d) \<le> 0"
    by (auto simp: int_of_float_def floor_le_iff ceiling_le_iff)
qed

lemma clamp64_range: "- (2 ^ 63) \<le> clamp64 d \<and> clamp64 d < 2 ^ 63"
  by (auto simp: clamp64_def)

lemma tokensToAdd_small: "tokensToAdd now tb \<le> 2 ^ 35"
  using seconds_bounds(1) clamp64_range by (simp add: tokensToAdd_def time_Sub_def)

lemma consume_ok:
  assumes "bucket_ok rate tb" and "rate < 2 ^ 62"
  shows "bucket_ok rate (snd (consume now tb))"
  using assms tokensToAdd_small [of now "tb\<lparr>tb_lastAccess := now\<rparr>"]
  by (auto simp: consume_def bucket_ok_def Let_def i64_id)

lemma bucketFor_inv:
  assumes "rl_inv rl"
  shows "rl_inv (snd (bucketFor c t1 t2 rl))"
proof (cases "map_of (rl_buckets rl) c")
  case None
  then have "c \<notin> fst ` set (rl_buckets rl)" by (simp add: map_of_eq_None_iff)
  moreover have "length (rl_heap rl) \<notin> snd ` set (rl_buckets rl)"
    using assms by (auto simp: rl_inv_def list_all_iff)
  ultimately show ?thesis
    using assms None by (auto simp: bucketFor_def rl_inv_def bucket_ok_def list_all_iff Let_def)
qed (use assms in \<open>simp add: bucketFor_def\<close>)

lemma consumeAt_inv:
  assumes "rl_inv rl" and "a < length (rl_heap rl)"
  shows "rl_inv (snd (consumeAt a now rl))"
proof -
  have "bucket_ok (rl_rate rl) (rl_heap rl ! a)" using assms by (simp add: rl_inv_def list_all_length)
  then have "bucket_ok (rl_rate rl) (snd (consume now (rl_heap rl ! a)))"
    using assms(1) consume_ok by (simp add: rl_inv_def)
  with assms show ?thesis
    by (auto simp: consumeAt_def rl_inv_def list_all_length nth_list_update split: prod.splits)
qed

lemma cleanup_inv: "rl_inv rl \<Longrightarrow> rl_inv (cleanup now rl)"
  by (auto simp: cleanup_def rl_inv_def Let_def list_all_iff distinct_map_filter)

lemma StopLimiter_inv: "rl_inv rl \<Longrightarrow> rl_inv (StopLimiter rl)"
  by (auto simp: StopLimiter_def rl_inv_def)

lemma rl_step_inv: "rl_inv rl \<Longrightarrow> rl_inv (snd (rl_step op rl))"
  using bucketFor_inv consumeAt_inv cleanup_inv StopLimiter_inv
  by (cases op) (auto split: prod.splits, metis snd_conv)

lemma rl_run_inv: "rl_inv rl \<Longrightarrow> rl_inv (snd (rl_run ops rl))"
proof (induction ops arbitrary: rl)
  case (Cons op ops)
  from Cons.IH [OF rl_step_inv [OF Cons.prems, of op]] show ?case by (simp add: case_prod_unfold)
qed simp

lemma new_inv:
  "0 \<le> rate \<Longrightarrow> rate < 2 ^ 62 \<Longrightarrow> rl_inv (NewRateLimiterWithTTL rate ttl now)"
  "0 \<le> rate \<Longrightarrow> rate < 2 ^ 62 \<Longrightarrow> rl_inv (NewRateLimiter rate now)"
  by (simp_all add: NewRateLimiterWithTTL_def NewRateLimiter_def startCleanup_def rl_inv_def)

section \<open>How much a bucket lets through\<close>

text \<open>Readings of the monotonic clock, which is what \<open>Sub\<close> compares.\<close>

definition read_between :: "int \<Rightarrow> int \<Rightarrow> time \<Rightarrow> bool" where
  "read_between t0 t1 t \<longleftrightarrow> (case mono t of None \<Rightarrow> False | Some x \<Rightarrow> t0 \<le> x \<and> x \<le> t1)"

fun op_between :: "nat \<Rightarrow> int \<Rightarrow> int \<Rightarrow> rl_op \<Rightarrow> bool" where
  "op_between a t0 t1 (Consume a' now) = (a' = a \<longrightarrow> read_between t0 t1 now)"
| "op_between a t0 t1 op = True"

definition passed :: "nat \<Rightarrow> (nat \<times> bool) option list \<Rightarrow> nat" where
  "passed a outs = length (filter (\<lambda>x. x = Some (a, True)) outs)"

text \<open>The potential of a bucket: its tokens and the time it has been refilled for.\<close>

definition potential :: "int \<Rightarrow> TokenBucket \<Rightarrow> int" where
  "potential t0 tb = tb_tokens tb * Second - (the (mono (tb_lastRefill tb)) - t0)"

lemma consume_potential:
  assumes "bucket_ok rate tb" and "rate < 2 ^ 62" and "read_between t0 t1 now"
    and "read_between t0 t1 (tb_lastRefill tb)" and "t1 - t0 < 2 ^ 22 * Second"
    and "consume now tb = (ok, tb')"
  shows "potential t0 tb' + (if ok then Second else 0) \<le> potential t0 tb \<and>
    read_between t0 t1 (tb_lastRefill tb')"
proof -
  obtain x y where x: "mono now = Some x" "t0 \<le> x" "x \<le> t1" and y: "mono (tb_lastRefill tb) = Some y" "t0 \<le> y" "y \<le> t1"
    using assms(3,4) by (auto simp: read_between_def split: option.splits)
  let ?n = "tokensToAdd now (tb\<lparr>tb_lastAccess := now\<rparr>)"
  have sub: "time_Sub now (tb_lastRefill tb) = x - y"
    using x y assms(5) by (simp add: time_Sub_def time_diff_def clamp64_def)
  have "- (2 ^ 63) \<le> x - y" "x - y < 2 ^ 63" using x y assms(5) by simp_all
  note sec = seconds_bounds(2) [OF this]
  have small: "?n \<le> 2 ^ 35" by (rule tokensToAdd_small)
  have n: "?n > 0 \<Longrightarrow> ?n * Second \<le> x - y"
  proof -
    assume pos: "?n > 0"
    then have "0 \<le> x - y" using sec by (cases "x \<le> y") (simp_all add: tokensToAdd_def sub)
    then have "?n = (x - y) div Second"
      using int_of_Seconds [of "x - y"] x y assms(5) by (simp add: tokensToAdd_def sub)
    then show "?n * Second \<le> x - y" using div_mult_le_self [of Second "x - y"] by simp
  qed
  have t: "0 \<le> tb_tokens tb" "tb_tokens tb \<le> rate" "tb_capacity tb = rate"
    using assms(1) by (simp_all add: bucket_ok_def)
  show ?thesis
  proof (cases "?n > 0")
    case True
    have id: "i64 (tb_tokens tb + ?n) = tb_tokens tb + ?n" using t small assms(2) True by (simp add: i64_id)
    have "min rate (tb_tokens tb + ?n) * Second \<le> tb_tokens tb * Second + (x - y)"
      using n [OF True] by (simp add: min_def distrib_right)
    then show ?thesis
      using assms(6,2,3) True id t x y
      by (auto simp: consume_def Let_def potential_def i64_id algebra_simps split: if_splits)
  next
    case False
    then show ?thesis
      using assms(6,2,4) t x y
      by (auto simp: consume_def Let_def potential_def i64_id algebra_simps split: if_splits)
  qed
qed

lemma step_frame:
  assumes "a < length (rl_heap rl)" and "\<forall>now. op \<noteq> Consume a now"
  shows "rl_heap (snd (rl_step op rl)) ! a = rl_heap rl ! a \<and> fst (rl_step op rl) \<noteq> Some (a, True)"
  using assms
  by (cases op) (auto simp: bucketFor_def consumeAt_def cleanup_def StopLimiter_def Let_def nth_append
      split: option.splits prod.splits)

lemma step_rate: "rl_rate (snd (rl_step op rl)) = rl_rate rl"
  by (cases op) (auto simp: bucketFor_def consumeAt_def cleanup_def StopLimiter_def Let_def
      split: option.splits prod.splits)

lemma step_heap: "length (rl_heap rl) \<le> length (rl_heap (snd (rl_step op rl)))"
  by (cases op) (auto simp: bucketFor_def consumeAt_def cleanup_def StopLimiter_def Let_def
      split: option.splits prod.splits)

lemma step_potential:
  assumes "rl_inv rl" and "a < length (rl_heap rl)" and "op_between a t0 t1 op"
    and "read_between t0 t1 (tb_lastRefill (rl_heap rl ! a))" and "t1 - t0 < 2 ^ 22 * Second"
  shows "potential t0 (rl_heap (snd (rl_step op rl)) ! a) + (if fst (rl_step op rl) = Some (a, True) then Second else 0)
      \<le> potential t0 (rl_heap rl ! a) \<and>
    read_between t0 t1 (tb_lastRefill (rl_heap (snd (rl_step op rl)) ! a))"
proof (cases "\<exists>now. op = Consume a now")
  case False
  then show ?thesis using step_frame [OF assms(2), of op] assms(4) by auto
next
  case True
  then obtain now where op: "op = Consume a now" by blast
  obtain ok tb where c: "consume now (rl_heap rl ! a) = (ok, tb)" by (rule prod.exhaust)
  have "bucket_ok (rl_rate rl) (rl_heap rl ! a)" "rl_rate rl < 2 ^ 62"
    using assms(1,2) by (simp_all add: rl_inv_def list_all_length)
  from consume_potential [OF this _ assms(4,5) c] assms(2,3) op c show ?thesis
    by (simp add: consumeAt_def)
qed

lemma run_potential:
  assumes "rl_inv rl" and "a < length (rl_heap rl)" and "list_all (op_between a t0 t1) ops"
    and "read_between t0 t1 (tb_lastRefill (rl_heap rl ! a))" and "t1 - t0 < 2 ^ 22 * Second"
  shows "potential t0 (rl_heap (snd (rl_run ops rl)) ! a) + int (passed a (fst (rl_run ops rl))) * Second
      \<le> potential t0 (rl_heap rl ! a) \<and>
    read_between t0 t1 (tb_lastRefill (rl_heap (snd (rl_run ops rl)) ! a)) \<and>
    a < length (rl_heap (snd (rl_run ops rl)))"
  using assms
proof (induction ops arbitrary: rl)
  case Nil
  then show ?case by (simp add: passed_def)
next
  case (Cons op ops)
  obtain x rl1 where s: "rl_step op rl = (x, rl1)" by (rule prod.exhaust)
  obtain xs rl2 where r: "rl_run ops rl1 = (xs, rl2)" by (rule prod.exhaust)
  have op: "op_between a t0 t1 op" using Cons.prems(3) by simp
  note p = step_potential [OF Cons.prems(1,2) op Cons.prems(4,5)]
  have inv: "rl_inv rl1" using rl_step_inv [OF Cons.prems(1), of op] s by simp
  have "a < length (rl_heap rl1)" using step_heap [of rl op] Cons.prems(2) s by simp
  from Cons.IH [OF inv this] p s r Cons.prems(3,5) show ?case
    by (auto simp: passed_def algebra_simps split: if_splits)
qed

lemma passed_bound_aux:
  assumes "rl_inv rl" and "a < length (rl_heap rl)" and "list_all (op_between a t0 t1) ops"
    and "read_between t0 t1 (tb_lastRefill (rl_heap rl ! a))" and "t1 - t0 < 2 ^ 22 * Second"
  shows "int (passed a (fst (rl_run ops rl))) \<le> rl_rate rl + (t1 - t0) div Second"
proof -
  let ?e = "rl_heap (snd (rl_run ops rl)) ! a" and ?b = "rl_heap rl ! a" and ?n = "int (passed a (fst (rl_run ops rl)))"
  note p = run_potential [OF assms]
  have "bucket_ok (rl_rate rl) ?b" using assms(1,2) by (simp add: rl_inv_def list_all_length)
  then have b: "tb_tokens ?b \<le> rl_rate rl" by (simp add: bucket_ok_def)
  have "rl_inv (snd (rl_run ops rl))" by (rule rl_run_inv [OF assms(1)])
  then have "bucket_ok (rl_rate (snd (rl_run ops rl))) ?e" using p by (simp add: rl_inv_def list_all_length)
  then have e: "0 \<le> tb_tokens ?e" by (simp add: bucket_ok_def)
  have "potential t0 ?b \<le> rl_rate rl * Second"
    using assms(4) b by (auto simp: potential_def read_between_def split: option.splits)
  moreover have "- (t1 - t0) \<le> potential t0 ?e"
    using p e by (auto simp: potential_def read_between_def split: option.splits)
  ultimately have "(?n - rl_rate rl) * Second \<le> t1 - t0" using p by (simp add: left_diff_distrib)
  then have "(?n - rl_rate rl) * Second div Second \<le> (t1 - t0) div Second" by (intro zdiv_mono1) simp_all
  then show ?thesis by simp
qed

section \<open>Properties\<close>

text \<open>C19: In every interleaving of requests, clean-ups and stops, and whatever the clock does, the
  limiter stays well-formed: every bucket, also one that a request still holds after its
  removal, has between 0 tokens and the configured rate; no two clients share a bucket; the
  clean-up goroutine is started once and its channel closed at most once, so that stopping
  twice does not panic.\<close>

theorem limiter_wellformed:
  assumes "0 \<le> rate" and "rate < 2 ^ 62"
    and "snd (rl_run ops (NewRateLimiterWithTTL rate ttl now)) = rl"
  shows "list_all (\<lambda>tb. 0 \<le> tb_tokens tb \<and> tb_tokens tb \<le> tb_capacity tb \<and> tb_capacity tb = rl_rate rl) (rl_heap rl) \<and>
    distinct (map fst (rl_buckets rl)) \<and> distinct (map snd (rl_buckets rl)) \<and>
    list_all (\<lambda>(c, a). a < length (rl_heap rl)) (rl_buckets rl) \<and> rl_loops rl = 1 \<and> rl_closed rl \<le> 1"
  using rl_run_inv [OF new_inv(1) [OF assms(1,2), of ttl now], of ops] assms(3)
  by (auto simp: rl_inv_def bucket_ok_def list_all_iff)

definition lim_at :: "int \<Rightarrow> time" where
  "lim_at ms = reading (ms * Millisecond) (ms * Millisecond)"

definition demo_limiter :: RateLimiter where
  "demo_limiter = snd (rl_step (Lookup ''a'' (lim_at 0) (lim_at 0)) (NewRateLimiter 2 (lim_at 0)))"

lemma limiter_wellformed_witness:
  "rl_closed (snd (rl_run [Stop, Lookup ''a'' (lim_at 0) (lim_at 0), Consume 0 (lim_at 5), Cleanup (lim_at 9), Stop]
     (NewRateLimiterWithTTL 3 1 (lim_at 0)))) \<le> 1"
  using limiter_wellformed [of 3 "[Stop, Lookup ''a'' (lim_at 0) (lim_at 0), Consume 0 (lim_at 5), Cleanup (lim_at 9), Stop]"
      1 "lim_at 0", OF _ _ refl] by simp


definition demo_requests :: "rl_op list" where
  "demo_requests = map (\<lambda>i. Consume 0 (lim_at (501 * int i))) [0..<8]"


lemma consume_ms:
  assumes "0 \<le> s" and "s \<le> t" and "t < 1000000" and "0 \<le> n" and "n \<le> c" and "c < 100"
  shows "consume (lim_at t) \<lparr>tb_tokens = n, tb_capacity = c, tb_lastRefill = lim_at s, tb_lastAccess = x\<rparr> =
    (let k = (t - s) div 1000; n' = (if k > 0 then min c (n + k) else n); s' = (if k > 0 then t else s)
     in (n' > 0, \<lparr>tb_tokens = (if n' > 0 then n' - 1 else n'), tb_capacity = c, tb_lastRefill = lim_at s',
                  tb_lastAccess = lim_at t\<rparr>))"
proof -
  let ?tb = "\<lparr>tb_tokens = n, tb_capacity = c, tb_lastRefill = lim_at s, tb_lastAccess = lim_at t\<rparr>"
  have "(t - s) * Millisecond div Second = (t - s) div 1000"
    using div_mult_mult2 [of Millisecond "t - s" 1000] by simp
  moreover have "int_of_float (duration_Seconds ((t - s) * Millisecond)) = (t - s) * Millisecond div Second"
    using assms by (intro int_of_Seconds) simp_all
  moreover have "time_Sub (lim_at t) (lim_at s) = (t - s) * Millisecond"
    using assms by (simp add: time_Sub_def time_diff_def lim_at_def clamp64_def left_diff_distrib)
  ultimately have k: "tokensToAdd (lim_at t) ?tb = (t - s) div 1000" by (simp add: tokensToAdd_def)
  have "(t - s) div 1000 \<le> t - s" using assms by (intro div_le_self) simp_all
  then show ?thesis using assms k by (simp add: consume_def Let_def i64_id)
qed

text \<open>The refill ignores the configured rate: it is one token per second. Eight requests at a rate
  of two per second, made at that rate, exhaust the burst, and from then on the limiter lets
  one request per second through.\<close>

theorem refill_ignores_rate:
  "map (map_option snd) (fst (rl_run demo_requests demo_limiter)) =
   map Some [True, True, True, False, True, False, True, False]"
proof -
  have up: "[0..<8] = [0, 1, 2, 3, 4, 5, 6, 7 :: nat]" by (simp add: upt_rec)
  have req: "demo_requests = map (\<lambda>t. Consume 0 (lim_at t)) [0, 501, 1002, 1503, 2004, 2505, 3006, 3507]"
    by (simp add: demo_requests_def up)
  have lim: "rl_heap demo_limiter = [\<lparr>tb_tokens = 2, tb_capacity = 2, tb_lastRefill = lim_at 0, tb_lastAccess = lim_at 0\<rparr>]"
    by (simp add: demo_limiter_def bucketFor_def NewRateLimiter_def startCleanup_def)
  show ?thesis unfolding req by (simp add: consumeAt_def lim consume_ms)
qed

lemma Allow_bucket:
  assumes "map_of (rl_buckets rl) c = Some a" and "a < length (rl_heap rl)"
  shows "fst (Allow c t1 t2 now rl) = fst (consume now (rl_heap rl ! a)) \<and>
    rl_heap (snd (Allow c t1 t2 now rl)) ! the (map_of (rl_buckets (snd (Allow c t1 t2 now rl))) c) =
      snd (consume now (rl_heap rl ! a))"
  using assms by (simp add: Allow_def bucketFor_def consumeAt_def split: prod.split)

lemma Allow_fresh:
  assumes "map_of (rl_buckets rl) c = None"
  shows "fst (Allow c t1 t2 now rl) = fst (consume now \<lparr>tb_tokens = rl_rate rl, tb_capacity = rl_rate rl,
      tb_lastRefill = t1, tb_lastAccess = t2\<rparr>) \<and>
    rl_heap (snd (Allow c t1 t2 now rl)) ! the (map_of (rl_buckets (snd (Allow c t1 t2 now rl))) c) =
      snd (consume now \<lparr>tb_tokens = rl_rate rl, tb_capacity = rl_rate rl, tb_lastRefill = t1, tb_lastAccess = t2\<rparr>)"
  using assms by (simp add: Allow_def bucketFor_def consumeAt_def Let_def split: prod.split)

lemma consume_full:
  assumes "bucket_ok rate tb" and "rate < 2 ^ 62" and "tokensToAdd now tb \<ge> rate \<or> tb_tokens tb = rate"
  shows "fst (consume now tb) \<longleftrightarrow> 0 < rate" and "tb_tokens (snd (consume now tb)) = max 0 (rate - 1)"
proof -
  have "tokensToAdd now (tb\<lparr>tb_lastAccess := now\<rparr>) = tokensToAdd now tb" by (simp add: tokensToAdd_def)
  then show "fst (consume now tb) \<longleftrightarrow> 0 < rate" "tb_tokens (snd (consume now tb)) = max 0 (rate - 1)"
    using assms tokensToAdd_small [of now tb]
    by (auto simp: consume_def bucket_ok_def Let_def i64_id)
qed

lemma cleanup_transparent_aux:
  assumes inv: "rl_inv rl" and c: "map_of (rl_buckets rl) c = Some a"
    and idle: "mono (tb_lastRefill (rl_heap rl ! a)) = Some x" "mono (tb_lastAccess (rl_heap rl ! a)) = Some y" "x \<le> y"
    and now: "mono s = Some z" "mono now = Some w" "z \<le> w" "w - x < 2 ^ 22 * Second" "0 \<le> w - x"
    and ttl: "z - y > rl_bucketTTL rl" "rl_rate rl * Second \<le> rl_bucketTTL rl"
  shows "map_of (rl_buckets (cleanup s rl)) c = None \<and>
    fst (Allow c t1 t2 now (cleanup s rl)) = fst (Allow c t1 t2 now rl) \<and>
    tb_tokens (rl_heap (snd (Allow c t1 t2 now (cleanup s rl))) !
        the (map_of (rl_buckets (snd (Allow c t1 t2 now (cleanup s rl)))) c)) =
      tb_tokens (rl_heap (snd (Allow c t1 t2 now rl)) ! the (map_of (rl_buckets (snd (Allow c t1 t2 now rl))) c))"
proof -
  let ?tb = "rl_heap rl ! a" and ?rl = "cleanup s rl"
  have mem: "(c, a) \<in> set (rl_buckets rl)" using map_of_SomeD [OF c] .
  with inv have a: "a < length (rl_heap rl)" by (auto simp: rl_inv_def list_all_iff)
  have ok: "bucket_ok (rl_rate rl) ?tb" and r: "0 \<le> rl_rate rl" "rl_rate rl < 2 ^ 62"
    using inv a by (simp_all add: rl_inv_def list_all_length)
  have sub: "time_Sub s (tb_lastAccess ?tb) = z - y"
    using now idle ttl r by (simp add: time_Sub_def time_diff_def clamp64_def)
  have dist: "distinct (map fst (rl_buckets rl))" using inv by (simp add: rl_inv_def)
  have "fst p \<noteq> c" if p: "p \<in> set (rl_buckets ?rl)" for p
  proof
    assume "fst p = c"
    with p have in_rl: "(c, snd p) \<in> set (rl_buckets rl)" and live: "\<not> time_Sub s (tb_lastAccess (rl_heap rl ! snd p)) > rl_bucketTTL rl"
      by (auto simp: cleanup_def Let_def)
    from eq_key_imp_eq_value [OF dist mem in_rl] live sub ttl(1) show False by simp
  qed
  then have gone: "map_of (rl_buckets ?rl) c = None" by (auto simp: map_of_eq_None_iff)
  have "time_Sub now (tb_lastRefill ?tb) = w - x"
    using now idle by (simp add: time_Sub_def time_diff_def clamp64_def)
  then have "tokensToAdd now ?tb = (w - x) div Second"
    using int_of_Seconds [of "w - x"] now by (simp add: tokensToAdd_def)
  moreover have "rl_rate rl * Second \<le> w - x" using ttl now(3) idle(3) by linarith
  then have "rl_rate rl \<le> (w - x) div Second" using zdiv_mono1 [of "rl_rate rl * Second" "w - x" Second] by simp
  ultimately have "tokensToAdd now ?tb \<ge> rl_rate rl" by simp
  note old = consume_full [OF ok r(2) disjI1 [OF this]]
  have rate: "rl_rate ?rl = rl_rate rl" by (simp add: cleanup_def Let_def)
  let ?f = "\<lparr>tb_tokens = rl_rate rl, tb_capacity = rl_rate rl, tb_lastRefill = t1, tb_lastAccess = t2\<rparr>"
  have "bucket_ok (rl_rate rl) ?f" using r by (simp add: bucket_ok_def)
  note new = consume_full [OF this r(2) disjI2, of now, simplified]
  show ?thesis
    using gone Allow_bucket [OF c a, of t1 t2 now] Allow_fresh [OF gone, of t1 t2 now] old new rate by simp
qed



end
