(* ===== verification/Ip_Net.thy ===== *)
theory Ip_Net
  imports Redis "HOL-Library.Word"
begin

unbundle bit_operations_syntax

text \<open>
  What the IP whitelist uses of Go's package \<open>net\<close>: \<open>ParseIP\<close>, \<open>ParseCIDR\<close>, \<open>IP.Equal\<close> and
  \<open>IPNet.Contains\<close>. An address is 16 bytes (an IPv4 address in its IPv4-in-IPv6 form), as
  \<open>ParseIP\<close> returns it; strings are lists of bytes.
\<close>

type_synonym byte = "8 word"

section \<open>Parsing\<close>

definition digit :: "char \<Rightarrow> nat option" where
  "digit c = (let n = of_char c in if 48 \<le> n \<and> n \<le> 57 then Some (n - 48) else None)"

definition hex_digit :: "char \<Rightarrow> nat option" where
  "hex_digit c = (let n = of_char c in
     if 48 \<le> n \<and> n \<le> 57 then Some (n - 48)
     else if 97 \<le> n \<and> n \<le> 102 then Some (n - 97 + 10)
     else if 65 \<le> n \<and> n \<le> 70 then Some (n - 65 + 10) else None)"

text \<open>Four decimal fields: \<open>start\<close> holds at the beginning and after a dot.\<close>

fun ipv4Fields :: "bool \<Rightarrow> nat \<Rightarrow> nat \<Rightarrow> byte list \<Rightarrow> string \<Rightarrow> byte list option" where
  "ipv4Fields start val digLen fs [] =
     (if length fs < 3 then None else Some (fs @ [of_nat val]))"
| "ipv4Fields start val digLen fs (c # cs) =
     (case digit c of
        Some d \<Rightarrow>
          if digLen = 1 \<and> val = 0 then None
          else let val = val * 10 + d in
               if val > 255 then None else ipv4Fields False val (digLen + 1) fs cs
      | None \<Rightarrow>
          if c \<noteq> CHR ''.'' then None
          else if start \<or> cs = [] then None
          else if length fs = 3 then None
          else ipv4Fields True 0 0 (fs @ [of_nat val]) cs)"

definition parseIPv4 :: "string \<Rightarrow> byte list option" where
  "parseIPv4 s = ipv4Fields True 0 0 [] s"

definition v4InV6Prefix :: "byte list" where
  "v4InV6Prefix = replicate 10 0 @ [255, 255]"

text \<open>One group of hexadecimal digits: its value, the number of digits and the rest.\<close>

fun hexGroup :: "nat \<Rightarrow> nat \<Rightarrow> string \<Rightarrow> (nat \<times> nat \<times> string) option" where
  "hexGroup off acc [] = Some (acc, off, [])"
| "hexGroup off acc (c # cs) =
     (case hex_digit c of
        None \<Rightarrow> Some (acc, off, c # cs)
      | Some d \<Rightarrow>
          let acc = acc * 16 + d in
          if off > 3 then None else if acc > 65535 then None else hexGroup (off + 1) acc cs)"

text \<open>The groups, at most \<open>n\<close> more of them: the bytes so far, the position of the ellipsis and
  what is left of the string.\<close>

fun ipv6Groups :: "nat \<Rightarrow> byte list \<Rightarrow> nat option \<Rightarrow> string \<Rightarrow> (byte list \<times> nat option \<times> string) option" where
  "ipv6Groups 0 ip ellipsis s = Some (ip, ellipsis, s)"
| "ipv6Groups (Suc n) ip ellipsis s =
     (case hexGroup 0 0 s of
        None \<Rightarrow> None
      | Some (acc, off, rest) \<Rightarrow>
          if off = 0 then None
          else if rest \<noteq> [] \<and> hd rest = CHR ''.'' then
            (if ellipsis = None \<and> length ip \<noteq> 12 then None
             else if length ip + 4 > 16 then None
             else case parseIPv4 s of None \<Rightarrow> None | Some v4 \<Rightarrow> Some (ip @ v4, ellipsis, []))
          else
          let ip = ip @ [of_nat (acc div 256), of_nat acc] in
          if rest = [] then Some (ip, ellipsis, [])
          else if hd rest \<noteq> CHR '':'' then None
          else if tl rest = [] then None
          else
          let s = tl rest in
          if hd s = CHR '':'' then
            (if ellipsis \<noteq> None then None
             else if tl s = [] then Some (ip, Some (length ip), [])
             else ipv6Groups n ip (Some (length ip)) (tl s))
          else ipv6Groups n ip ellipsis s)"

text \<open>An address with a zone is not an IP for \<open>ParseIP\<close>, nor is one with an empty zone.\<close>

definition parseIPv6 :: "string \<Rightarrow> byte list option" where
  "parseIPv6 s =
     (if CHR ''%'' \<in> set s then None
      else
      let lead = (take 2 s = ''::'');
          ellipsis = (if lead then Some 0 else None);
          s = (if lead then drop 2 s else s)
      in if lead \<and> s = [] then Some (replicate 16 0)
      else case ipv6Groups 8 [] ellipsis s of
        None \<Rightarrow> None
      | Some (ip, ellipsis, rest) \<Rightarrow>
          if rest \<noteq> [] then None
          else if length ip < 16 then
            (case ellipsis of None \<Rightarrow> None
             | Some e \<Rightarrow> Some (take e ip @ replicate (16 - length ip) 0 @ drop e ip))
          else if ellipsis \<noteq> None then None
          else Some ip)"

text \<open>The sixteen bytes and whether the text was an IPv4 address.\<close>

fun parseAddrFrom :: "string \<Rightarrow> string \<Rightarrow> (byte list \<times> bool) option" where
  "parseAddrFrom s [] = None"
| "parseAddrFrom s (c # cs) =
     (if c = CHR ''.'' then map_option (\<lambda>v4. (v4InV6Prefix @ v4, True)) (parseIPv4 s)
      else if c = CHR '':'' then map_option (\<lambda>ip. (ip, False)) (parseIPv6 s)
      else if c = CHR ''%'' then None
      else parseAddrFrom s cs)"

definition ParseAddr :: "string \<Rightarrow> (byte list \<times> bool) option" where
  "ParseAddr s = parseAddrFrom s s"

definition ParseIP :: "string \<Rightarrow> byte list option" where
  "ParseIP s = map_option fst (ParseAddr s)"

section \<open>Networks\<close>

record IPNet =
  net_IP :: "byte list"
  net_Mask :: "byte list"

definition To4 :: "byte list \<Rightarrow> byte list option" where
  "To4 ip = (if length ip = 4 then Some ip
     else if length ip = 16 \<and> take 12 ip = v4InV6Prefix then Some (drop 12 ip) else None)"

fun maskBytes :: "nat \<Rightarrow> nat \<Rightarrow> byte list" where
  "maskBytes 0 n = []"
| "maskBytes (Suc l) n =
     (if n \<ge> 8 then 255 # maskBytes l (n - 8) else NOT (drop_bit n 255) # maskBytes l 0)"

definition CIDRMask :: "nat \<Rightarrow> nat \<Rightarrow> byte list" where
  "CIDRMask ones bits = maskBytes (bits div 8) ones"

definition maskIP :: "byte list \<Rightarrow> byte list \<Rightarrow> byte list" where
  "maskIP ip m =
     (let m = (if length m = 16 \<and> length ip = 4 \<and> take 12 m = replicate 12 255 then drop 12 m else m);
          ip = (if length m = 4 \<and> length ip = 16 \<and> take 12 ip = v4InV6Prefix then drop 12 ip else ip)
      in if length ip \<noteq> length m then [] else map2 (AND) ip m)"

text \<open>\<open>dtoi\<close> on a whole string: at least one digit, only digits, below \<open>0xFFFFFF\<close>.\<close>

fun dtoi :: "nat \<Rightarrow> string \<Rightarrow> nat option" where
  "dtoi n [] = Some n"
| "dtoi n (c # cs) = (case digit c of None \<Rightarrow> None
     | Some d \<Rightarrow> if n * 10 + d \<ge> 16777215 then None else dtoi (n * 10 + d) cs)"

definition ParseCIDR :: "string \<Rightarrow> IPNet option" where
  "ParseCIDR s =
     (if CHR ''/'' \<notin> set s then None
      else
      let addr = takeWhile (\<lambda>c. c \<noteq> CHR ''/'') s;
          mask = drop (length addr + 1) s
      in case ParseAddr addr of
           None \<Rightarrow> None
         | Some (ip, v4) \<Rightarrow>
             let bits = (if v4 then 32 else 128) in
             if mask = [] then None
             else case dtoi 0 mask of
               None \<Rightarrow> None
             | Some n \<Rightarrow>
                 if n > bits then None
                 else let m = CIDRMask n bits in Some \<lparr>net_IP = maskIP ip m, net_Mask = m\<rparr>)"

text \<open>\<open>networkNumberAndMask\<close> and \<open>Contains\<close>.\<close>

definition networkNumberAndMask :: "IPNet \<Rightarrow> (byte list \<times> byte list) option" where
  "networkNumberAndMask n =
     (let ip = (case To4 (net_IP n) of Some ip4 \<Rightarrow> ip4 | None \<Rightarrow> net_IP n);
          m = net_Mask n
      in if To4 (net_IP n) = None \<and> length ip \<noteq> 16 then None
      else if length m = 4 then (if length ip \<noteq> 4 then None else Some (ip, m))
      else if length m = 16 then (if length ip = 4 then Some (ip, drop 12 m) else Some (ip, m))
      else None)"

definition Contains :: "IPNet \<Rightarrow> byte list \<Rightarrow> bool" where
  "Contains n ip =
     (let (nn, m) = (case networkNumberAndMask n of Some p \<Rightarrow> p | None \<Rightarrow> ([], []));
          ip = (case To4 ip of Some x \<Rightarrow> x | None \<Rightarrow> ip)
      in length ip = length nn \<and> map2 (AND) nn m = map2 (AND) ip m)"

definition EqualIP :: "byte list \<Rightarrow> byte list \<Rightarrow> bool" where
  "EqualIP ip x \<longleftrightarrow>
     (if length ip = length x then ip = x
      else if length ip = 4 \<and> length x = 16 then take 12 x = v4InV6Prefix \<and> ip = drop 12 x
      else if length ip = 16 \<and> length x = 4 then take 12 ip = v4InV6Prefix \<and> drop 12 ip = x
      else False)"

section \<open>Dotted decimal is read back\<close>

definition dotted :: "byte \<Rightarrow> byte \<Rightarrow> byte \<Rightarrow> byte \<Rightarrow> string" where
  "dotted a b c d = show_nat (unat a) @ CHR ''.'' # show_nat (unat b) @ CHR ''.'' # show_nat (unat c) @
     CHR ''.'' # show_nat (unat d)"

lemma digit_char [simp]: "k < 10 \<Longrightarrow> digit (char_of (48 + k)) = Some k"
  by (simp add: digit_def Let_def)

lemma digit_dot [simp]: "digit CHR ''.'' = None"
  by (simp add: digit_def)

lemma show_small:
  "n < 10 \<Longrightarrow> show_nat n = [char_of (48 + n)]"
  "10 \<le> n \<Longrightarrow> n < 100 \<Longrightarrow> show_nat n = [char_of (48 + n div 10), char_of (48 + n mod 10)]"
  "100 \<le> n \<Longrightarrow> n < 1000 \<Longrightarrow>
     show_nat n = [char_of (48 + n div 100), char_of (48 + n div 10 mod 10), char_of (48 + n mod 10)]"
proof -
  show 1: "show_nat n = [char_of (48 + n)]" if "n < 10" for n using that by (subst show_nat.simps) simp
  show 2: "show_nat n = [char_of (48 + n div 10), char_of (48 + n mod 10)]" if "10 \<le> n" "n < 100" for n
    using that 1 [of "n div 10"] by (subst show_nat.simps) simp
  assume n: "100 \<le> n" "n < 1000"
  have "show_nat (n div 10) = [char_of (48 + n div 10 div 10), char_of (48 + n div 10 mod 10)]"
    using n by (intro 2) auto
  moreover have "n div 10 div 10 = n div 100" by (simp flip: div_mult2_eq)
  moreover have "show_nat n = show_nat (n div 10) @ [char_of (48 + n mod 10)]"
    using n by (subst show_nat.simps) simp
  ultimately show "show_nat n = [char_of (48 + n div 100), char_of (48 + n div 10 mod 10), char_of (48 + n mod 10)]"
    by (simp only: append.simps)
qed

text \<open>Reading the digits of one field.\<close>

lemma ipv4_field:
  assumes "n < 256"
  shows "\<exists>l. ipv4Fields True 0 0 fs (show_nat n @ rest) = ipv4Fields False n l fs rest"
proof -
  consider "n < 10" | "10 \<le> n" "n < 100" | "100 \<le> n" by linarith
  then show ?thesis
  proof cases
    case 1
    then show ?thesis using assms by (auto simp: show_small Let_def)
  next
    case 2
    have "n div 10 \<noteq> 0" "n div 10 < 10" "n mod 10 < 10" using 2 by auto
    then show ?thesis using 2 by (auto simp: show_small Let_def)
  next
    case 3
    have *: "n div 100 \<noteq> 0" "n div 100 < 10" "n div 10 mod 10 < 10" "n mod 10 < 10" using 3 assms by auto
    have "n div 100 = n div 10 div 10" by (simp flip: div_mult2_eq)
    then have e: "n div 100 * 10 + n div 10 mod 10 = n div 10" by simp
    then have "(n div 100 * 10 + n div 10 mod 10) * 10 + n mod 10 = n" by simp
    moreover have "n div 10 < 256" using assms by simp
    ultimately show ?thesis using * e 3 assms by (auto simp: show_small Let_def)
  qed
qed

lemma ipv4_field_dot:
  assumes "n < 256" and "length fs < 3" and "rest \<noteq> []"
  shows "ipv4Fields True 0 0 fs (show_nat n @ CHR ''.'' # rest) = ipv4Fields True 0 0 (fs @ [of_nat n]) rest"
proof -
  obtain l where "ipv4Fields True 0 0 fs (show_nat n @ CHR ''.'' # rest) = ipv4Fields False n l fs (CHR ''.'' # rest)"
    using ipv4_field [OF assms(1)] by blast
  with assms show ?thesis by simp
qed

lemma ipv4_field_end:
  assumes "n < 256" and "length fs = 3"
  shows "ipv4Fields True 0 0 fs (show_nat n) = Some (fs @ [of_nat n])"
proof -
  obtain l where "ipv4Fields True 0 0 fs (show_nat n @ []) = ipv4Fields False n l fs []"
    using ipv4_field [OF assms(1)] by blast
  with assms show ?thesis by simp
qed

lemma byte_lt: "unat (a :: byte) < 256"
  using unsigned_less [where ?'b = 8 and ?'a = nat, of a] by simp

lemma parseIPv4_dotted: "parseIPv4 (dotted a b c d) = Some [a, b, c, d]"
  by (simp add: parseIPv4_def dotted_def ipv4_field_dot ipv4_field_end byte_lt show_nat_nonempty)

lemma parseAddrFrom_digits:
  "list_all (\<lambda>c. digit c \<noteq> None) cs \<Longrightarrow>
     parseAddrFrom s (cs @ CHR ''.'' # rest) = map_option (\<lambda>v4. (v4InV6Prefix @ v4, True)) (parseIPv4 s)"
proof (induction cs)
  case (Cons c cs)
  then have "c \<noteq> CHR ''.''" "c \<noteq> CHR '':''" "c \<noteq> CHR ''%''" by (auto simp: digit_def)
  with Cons show ?case by simp
qed simp

lemma digits_of_show: "list_all (\<lambda>c. digit c \<noteq> None) (show_nat n)"
  using show_nat_digits [of _ n] by (fastforce simp: list_all_iff digit_def Let_def)

lemma ParseAddr_dotted: "ParseAddr (dotted a b c d) = Some (v4InV6Prefix @ [a, b, c, d], True)"
proof -
  have "ParseAddr (dotted a b c d) =
      map_option (\<lambda>v4. (v4InV6Prefix @ v4, True)) (parseIPv4 (dotted a b c d))"
    using parseAddrFrom_digits [OF digits_of_show] by (simp add: ParseAddr_def dotted_def)
  then show ?thesis by (simp add: parseIPv4_dotted)
qed

lemma ParseIP_dotted: "ParseIP (dotted a b c d) = Some (v4InV6Prefix @ [a, b, c, d])"
  by (simp add: ParseIP_def ParseAddr_dotted)

section \<open>A network contains the addresses that agree with it on its leading bits\<close>

definition agree :: "nat \<Rightarrow> byte list \<Rightarrow> byte list \<Rightarrow> bool" where
  "agree n xs ys \<longleftrightarrow> (\<forall>j < n. bit (xs ! (j div 8)) (7 - j mod 8) = bit (ys ! (j div 8)) (7 - j mod 8))"

lemma maskBytes_length [simp]: "length (maskBytes l n) = l"
  by (induction l n rule: maskBytes.induct) simp_all

lemma byte_255: "(255 :: byte) = mask 8"
  by (simp add: mask_eq_exp_minus_1)

lemma maskBytes_bit:
  assumes "i < l" and "k < 8"
  shows "bit (maskBytes l n ! i) k \<longleftrightarrow> 8 * i + (7 - k) < n"
  using assms(1)
proof (induction l n arbitrary: i rule: maskBytes.induct)
  case (2 l n)
  have first: "bit (maskBytes (Suc l) n ! 0) k \<longleftrightarrow> 7 - k < n"
    using assms(2) by (auto simp: byte_255 bit_mask_iff bit_drop_bit_eq bit_not_iff)
  show ?case
  proof (cases i)
    case 0
    with first show ?thesis by simp
  next
    case (Suc i')
    then have i': "i' < l" using 2(3) by simp
    show ?thesis
    proof (cases "n \<ge> 8")
      case True
      with 2(1) [OF True i'] Suc show ?thesis by auto
    next
      case False
      with 2(2) [OF False i'] Suc show ?thesis by auto
    qed
  qed
qed simp

lemma masked_byte_eq: "(a AND m = b AND m) \<longleftrightarrow> (\<forall>k < 8. bit m k \<longrightarrow> bit a k = bit b k)" for a b m :: byte
  by (auto simp: bit_eq_iff bit_and_iff)

lemma masked_eq:
  assumes "length xs = l" and "length ys = l" and "n \<le> 8 * l"
  shows "map2 (AND) xs (maskBytes l n) = map2 (AND) ys (maskBytes l n) \<longleftrightarrow> agree n xs ys"
proof -
  have "map2 (AND) xs (maskBytes l n) = map2 (AND) ys (maskBytes l n) \<longleftrightarrow>
      (\<forall>i < l. xs ! i AND maskBytes l n ! i = ys ! i AND maskBytes l n ! i)"
    using assms by (simp add: list_eq_iff_nth_eq)
  also have "\<dots> \<longleftrightarrow> (\<forall>i < l. \<forall>k < 8. 8 * i + (7 - k) < n \<longrightarrow> bit (xs ! i) k = bit (ys ! i) k)"
    by (simp add: masked_byte_eq maskBytes_bit)
  also have "\<dots> \<longleftrightarrow> agree n xs ys"
  proof
    assume all: "\<forall>i < l. \<forall>k < 8. 8 * i + (7 - k) < n \<longrightarrow> bit (xs ! i) k = bit (ys ! i) k"
    show "agree n xs ys" unfolding agree_def
    proof (intro allI impI)
      fix j assume j: "j < n"
      have "j div 8 < l" "7 - j mod 8 < 8" "8 * (j div 8) + (7 - (7 - j mod 8)) < n"
        using j assms(3) by auto
      with all show "bit (xs ! (j div 8)) (7 - j mod 8) = bit (ys ! (j div 8)) (7 - j mod 8)" by blast
    qed
  next
    assume a: "agree n xs ys"
    show "\<forall>i < l. \<forall>k < 8. 8 * i + (7 - k) < n \<longrightarrow> bit (xs ! i) k = bit (ys ! i) k"
    proof (intro allI impI)
      fix i k :: nat assume "i < l" "k < 8" and n: "8 * i + (7 - k) < n"
      define q where "q = 7 - k"
      have q: "q < 8" "7 - q = k" using \<open>k < 8\<close> by (auto simp: q_def)
      have j: "(8 * i + q) div 8 = i" "(8 * i + q) mod 8 = q" using q(1) by simp_all
      have "8 * i + q < n" using n by (simp add: q_def)
      with a have "bit (xs ! ((8 * i + q) div 8)) (7 - (8 * i + q) mod 8) =
          bit (ys ! ((8 * i + q) div 8)) (7 - (8 * i + q) mod 8)"
        unfolding agree_def by blast
      then show "bit (xs ! i) k = bit (ys ! i) k" unfolding j q(2) .
    qed
  qed
  finally show ?thesis .
qed

lemma v4_prefix [simp]: "length v4InV6Prefix = 12"
  by (simp add: v4InV6Prefix_def)

lemma To4_mapped [simp]: "length v = 4 \<Longrightarrow> To4 (v4InV6Prefix @ v) = Some v"
  by (simp add: To4_def)

lemma map2_and_idem:
  "length xs = length (m :: byte list) \<Longrightarrow> map2 (AND) (map2 (AND) xs m) m = map2 (AND) xs m"
  by (rule nth_equalityI) (simp_all add: and.assoc)

lemma Contains_v4:
  assumes "length v = 4" and "length x = 4" and "n \<le> 32"
  shows "Contains \<lparr>net_IP = maskIP (v4InV6Prefix @ v) (CIDRMask n 32), net_Mask = CIDRMask n 32\<rparr> (v4InV6Prefix @ x)
    \<longleftrightarrow> agree n v x"
proof -
  let ?m = "maskBytes 4 n"
  have m: "CIDRMask n 32 = ?m" by (simp add: CIDRMask_def)
  have ip: "maskIP (v4InV6Prefix @ v) ?m = map2 (AND) v ?m" using assms(1) by (simp add: maskIP_def Let_def)
  have "To4 (map2 (AND) v ?m) = Some (map2 (AND) v ?m)" using assms(1) by (simp add: To4_def)
  then have "Contains \<lparr>net_IP = maskIP (v4InV6Prefix @ v) (CIDRMask n 32), net_Mask = CIDRMask n 32\<rparr> (v4InV6Prefix @ x)
      \<longleftrightarrow> map2 (AND) (map2 (AND) v ?m) ?m = map2 (AND) x ?m"
    using assms(1,2) by (simp add: Contains_def networkNumberAndMask_def m ip)
  also have "\<dots> \<longleftrightarrow> agree n v x"
    using masked_eq [OF assms(1,2), of n] assms map2_and_idem [of v ?m] by simp
  finally show ?thesis .
qed

lemma dtoi_small: "n \<le> 32 \<Longrightarrow> show_nat n \<noteq> [] \<and> dtoi 0 (show_nat n) = Some n"
proof -
  assume n: "n \<le> 32"
  have "n div 10 < 10" "n mod 10 < 10" using n by auto
  then show "show_nat n \<noteq> [] \<and> dtoi 0 (show_nat n) = Some n"
    using n by (cases "n < 10") (auto simp: show_small Let_def)
qed

lemma no_slash: "CHR ''/'' \<notin> set (dotted a b c d)"
  using show_nat_digits by (fastforce simp: dotted_def)

lemma ParseCIDR_dotted:
  assumes "n \<le> 32"
  shows "ParseCIDR (dotted a b c d @ CHR ''/'' # show_nat n) =
    Some \<lparr>net_IP = maskIP (v4InV6Prefix @ [a, b, c, d]) (CIDRMask n 32), net_Mask = CIDRMask n 32\<rparr>"
proof -
  have "takeWhile (\<lambda>c. c \<noteq> CHR ''/'') (dotted a b c d @ CHR ''/'' # show_nat n) = dotted a b c d"
    using no_slash [of a b c d] by (subst takeWhile_append2) auto
  then show ?thesis
    using dtoi_small [OF assms] assms by (simp add: ParseCIDR_def ParseAddr_dotted Let_def)
qed

end
