(* ===== verification/Security.thy ===== *)
theory Security
  imports Rate_Limiter Ip_Net
begin

text \<open>
  The security manager (\<open>security.go\<close>): API keys, the IP whitelist, the gate of the rate
  limiter, encryption, the audit log and the validation of the configuration. AES, GCM and
  SHA-256 are a record of functions, an argument of the definitions that use them.
\<close>

section \<open>Configuration\<close>

record SecurityConfig =
  sc_EnableAuthentication :: bool
  sc_APIKeys :: "string list"
  sc_TokenExpiration :: int
  sc_EnableIPWhitelist :: bool
  sc_AllowedIPs :: "string list"
  sc_EnableRateLimit :: bool
  sc_RateLimit :: int
  sc_EnableEncryption :: bool
  sc_EncryptionKey :: string
  sc_EnableAuditLog :: bool
  sc_AuditLogPath :: string

datatype sec_error =
  SecConfigNil
| NoAPIKeys
| APIKeyTooShort nat
| TokenExpirationNotPositive
| NoAllowedIPs
| InvalidCIDR nat string
| InvalidIP nat string
| RateLimitNotPositive
| NoEncryptionKey
| EncryptionKeyTooShort
| NoAuditLogPath
| EncryptionKeyEmpty
| CipherFailed
| GCMFailed
| NonceFailed
| CiphertextTooShort
| DecryptFailed
| RandomFailed

fun validateKeys :: "nat \<Rightarrow> string list \<Rightarrow> sec_error option" where
  "validateKeys i [] = None"
| "validateKeys i (key # keys) = (if length key < 16 then Some (APIKeyTooShort i) else validateKeys (i + 1) keys)"

fun validateIPs :: "nat \<Rightarrow> string list \<Rightarrow> sec_error option" where
  "validateIPs i [] = None"
| "validateIPs i (ip # ips) =
     (if CHR ''/'' \<in> set ip
      then (case ParseCIDR ip of None \<Rightarrow> Some (InvalidCIDR i ip) | Some n \<Rightarrow> validateIPs (i + 1) ips)
      else (case ParseIP ip of None \<Rightarrow> Some (InvalidIP i ip) | Some a \<Rightarrow> validateIPs (i + 1) ips))"

definition ValidateSecurityConfig :: "SecurityConfig option \<Rightarrow> sec_error option" where
  "ValidateSecurityConfig config =
     (case config of None \<Rightarrow> Some SecConfigNil
      | Some c \<Rightarrow>
          first_error
            (if sc_EnableAuthentication c
             then reject_if (sc_APIKeys c = []) NoAPIKeys
                    (first_error (validateKeys 0 (sc_APIKeys c))
                      (reject_if (sc_TokenExpiration c \<le> 0) TokenExpirationNotPositive None))
             else None)
          (first_error
            (if sc_EnableIPWhitelist c
             then reject_if (sc_AllowedIPs c = []) NoAllowedIPs (validateIPs 0 (sc_AllowedIPs c))
             else None)
          (first_error
            (if sc_EnableRateLimit c then reject_if (sc_RateLimit c \<le> 0) RateLimitNotPositive None else None)
          (first_error
            (if sc_EnableEncryption c
             then reject_if (length (sc_EncryptionKey c) = 0) NoEncryptionKey
                    (reject_if (length (sc_EncryptionKey c) < 16) EncryptionKeyTooShort None)
             else None)
            (if sc_EnableAuditLog c then reject_if (length (sc_AuditLogPath c) = 0) NoAuditLogPath None else None)))))"

section \<open>The manager\<close>

record AuditLogger =
  al_logPath :: string

record SecurityManager =
  sm_config :: SecurityConfig
  sm_rateLimiter :: "RateLimiter option"
  sm_auditLogger :: "AuditLogger option"

definition NewAuditLogger :: "string \<Rightarrow> (sec_error, AuditLogger) result" where
  "NewAuditLogger logPath = Inr \<lparr>al_logPath = logPath\<rparr>"

definition NewSecurityManager :: "SecurityConfig option \<Rightarrow> time \<Rightarrow> (sec_error, SecurityManager) result" where
  "NewSecurityManager config now =
     (case config of None \<Rightarrow> Inl SecConfigNil
      | Some c \<Rightarrow>
          let sm = \<lparr>sm_config = c, sm_rateLimiter = None, sm_auditLogger = None\<rparr>;
              sm = (if sc_EnableRateLimit c then sm\<lparr>sm_rateLimiter := Some (NewRateLimiter (sc_RateLimit c) now)\<rparr> else sm)
          in if sc_EnableAuditLog c
             then (case NewAuditLogger (sc_AuditLogPath c) of
                     Inl e \<Rightarrow> Inl e
                   | Inr l \<Rightarrow> Inr (sm\<lparr>sm_auditLogger := Some l\<rparr>))
             else Inr sm)"

text \<open>\<open>Stop\<close> also returns the stopped limiter, which requests in flight may still use.\<close>

definition StopManager :: "SecurityManager \<Rightarrow> RateLimiter option \<times> SecurityManager" where
  "StopManager sm =
     (map_option StopLimiter (sm_rateLimiter sm), sm\<lparr>sm_rateLimiter := None, sm_auditLogger := None\<rparr>)"

section \<open>API keys\<close>

text \<open>\<open>subtle.ConstantTimeCompare\<close>: 1 if the bytes are the same, else 0, with a run time that
  depends on the length only.\<close>

definition bytes_of :: "string \<Rightarrow> byte list" where
  "bytes_of s = map of_char s"

definition ConstantTimeByteEq :: "byte \<Rightarrow> byte \<Rightarrow> int" where
  "ConstantTimeByteEq x y = uint (drop_bit 31 (ucast (x XOR y) - (1 :: 32 word)))"

definition ConstantTimeCompare :: "byte list \<Rightarrow> byte list \<Rightarrow> int" where
  "ConstantTimeCompare x y =
     (if length x \<noteq> length y then 0
      else ConstantTimeByteEq (fold (\<lambda>(a, b) v. v OR (a XOR b)) (zip x y) 0) 0)"

definition ValidateAPIKey :: "SecurityManager \<Rightarrow> string \<Rightarrow> bool" where
  "ValidateAPIKey sm apiKey =
     (if \<not> sc_EnableAuthentication (sm_config sm) then True
      else list_ex (\<lambda>validKey. ConstantTimeCompare (bytes_of apiKey) (bytes_of validKey) = 1)
             (sc_APIKeys (sm_config sm)))"

section \<open>IP whitelist and rate limit\<close>

definition allows :: "byte list \<Rightarrow> string \<Rightarrow> bool" where
  "allows clientIPAddr allowedIP =
     (if CHR ''/'' \<in> set allowedIP
      then (case ParseCIDR allowedIP of None \<Rightarrow> False | Some ipNet \<Rightarrow> Contains ipNet clientIPAddr)
      else (case ParseIP allowedIP of None \<Rightarrow> False | Some addr \<Rightarrow> EqualIP addr clientIPAddr))"

definition CheckIPWhitelist :: "SecurityManager \<Rightarrow> string \<Rightarrow> bool" where
  "CheckIPWhitelist sm clientIP =
     (if \<not> sc_EnableIPWhitelist (sm_config sm) then True
      else case ParseIP clientIP of None \<Rightarrow> False
      | Some clientIPAddr \<Rightarrow> list_ex (allows clientIPAddr) (sc_AllowedIPs (sm_config sm)))"

definition CheckRateLimit :: "SecurityManager \<Rightarrow> string \<Rightarrow> time \<Rightarrow> time \<Rightarrow> time \<Rightarrow> bool \<times> SecurityManager" where
  "CheckRateLimit sm clientID t1 t2 now =
     (case (sc_EnableRateLimit (sm_config sm), sm_rateLimiter sm) of
        (True, Some rl) \<Rightarrow> (case Allow clientID t1 t2 now rl of (ok, rl) \<Rightarrow> (ok, sm\<lparr>sm_rateLimiter := Some rl\<rparr>))
      | _ \<Rightarrow> (True, sm))"

section \<open>Encryption\<close>

text \<open>\<open>crypto/aes\<close>, \<open>crypto/cipher\<close> and \<open>crypto/sha256\<close>: a cipher of a key, GCM on a cipher, its
  nonce size, sealing and opening. \<open>crypto_ok\<close> is their documentation: a 32-byte key makes a
  cipher, and what is sealed under a nonce of the right size opens under it.\<close>

record ('c, 'g) crypto =
  NewCipher :: "byte list \<Rightarrow> 'c option"
  NewGCM :: "'c \<Rightarrow> 'g option"
  NonceSize :: "'g \<Rightarrow> nat"
  Seal :: "'g \<Rightarrow> byte list \<Rightarrow> byte list \<Rightarrow> byte list"
  Open :: "'g \<Rightarrow> byte list \<Rightarrow> byte list \<Rightarrow> byte list option"
  Sum256 :: "byte list \<Rightarrow> byte list"

definition crypto_ok :: "('c, 'g) crypto \<Rightarrow> bool" where
  "crypto_ok K \<longleftrightarrow> (\<forall>s. length (Sum256 K s) = 32) \<and>
     (\<forall>key. length key = 32 \<longrightarrow> (case NewCipher K key of None \<Rightarrow> False
        | Some c \<Rightarrow> (case NewGCM K c of None \<Rightarrow> False
            | Some g \<Rightarrow> (\<forall>nonce data. length nonce = NonceSize K g \<longrightarrow>
                 Open K g nonce (Seal K g nonce data) = Some data))))"

definition deriveKey :: "('c, 'g) crypto \<Rightarrow> SecurityManager \<Rightarrow> byte list" where
  "deriveKey K sm =
     (if sc_EncryptionKey (sm_config sm) = '''' then []
      else Sum256 K (bytes_of (sc_EncryptionKey (sm_config sm))))"

text \<open>\<open>rand n\<close>: the result of reading \<open>n\<close> random bytes.\<close>

definition EncryptData :: "('c, 'g) crypto \<Rightarrow> (nat \<Rightarrow> byte list option) \<Rightarrow> SecurityManager \<Rightarrow> byte list \<Rightarrow>
    (sec_error, byte list) result" where
  "EncryptData K rand sm data =
     (if \<not> sc_EnableEncryption (sm_config sm) then Inr data
      else
      let key = deriveKey K sm
      in if length key = 0 then Inl EncryptionKeyEmpty
      else case NewCipher K key of None \<Rightarrow> Inl CipherFailed
      | Some block \<Rightarrow> (case NewGCM K block of None \<Rightarrow> Inl GCMFailed
      | Some gcm \<Rightarrow> (case rand (NonceSize K gcm) of None \<Rightarrow> Inl NonceFailed
      | Some nonce \<Rightarrow> Inr (nonce @ Seal K gcm nonce data))))"

definition DecryptData :: "('c, 'g) crypto \<Rightarrow> SecurityManager \<Rightarrow> byte list \<Rightarrow> (sec_error, byte list) result" where
  "DecryptData K sm encryptedData =
     (if \<not> sc_EnableEncryption (sm_config sm) then Inr encryptedData
      else
      let key = deriveKey K sm
      in if length key = 0 then Inl EncryptionKeyEmpty
      else case NewCipher K key of None \<Rightarrow> Inl CipherFailed
      | Some block \<Rightarrow> (case NewGCM K block of None \<Rightarrow> Inl GCMFailed
      | Some gcm \<Rightarrow>
          let nonceSize = NonceSize K gcm
          in if length encryptedData < nonceSize then Inl CiphertextTooShort
             else (case Open K gcm (take nonceSize encryptedData) (drop nonceSize encryptedData) of
                     None \<Rightarrow> Inl DecryptFailed
                   | Some plaintext \<Rightarrow> Inr plaintext)))"

section \<open>Making keys\<close>

text \<open>\<open>base64.URLEncoding\<close>\<close>

definition b64_alphabet :: string where
  "b64_alphabet = ''ABCDEFGHIJKLMNOPQRSTUVWXYZabcdefghijklmnopqrstuvwxyz0123456789-_''"

definition b64_char :: "nat \<Rightarrow> char" where
  "b64_char n = b64_alphabet ! n"

fun EncodeToString :: "byte list \<Rightarrow> string" where
  "EncodeToString [] = []"
| "EncodeToString [a] =
     (let v = unat a * 65536
      in [b64_char (v div 262144), b64_char (v div 4096 mod 64), CHR ''='', CHR ''=''])"
| "EncodeToString [a, b] =
     (let v = unat a * 65536 + unat b * 256
      in [b64_char (v div 262144), b64_char (v div 4096 mod 64), b64_char (v div 64 mod 64), CHR ''=''])"
| "EncodeToString (a # b # c # rest) =
     (let v = unat a * 65536 + unat b * 256 + unat c
      in b64_char (v div 262144) # b64_char (v div 4096 mod 64) # b64_char (v div 64 mod 64) #
         b64_char (v mod 64) # EncodeToString rest)"

definition GenerateAPIKey :: "(nat \<Rightarrow> byte list option) \<Rightarrow> (sec_error, string) result" where
  "GenerateAPIKey rand = (case rand 32 of None \<Rightarrow> Inl RandomFailed | Some bytes \<Rightarrow> Inr (EncodeToString bytes))"

definition HashAPIKey :: "('c, 'g) crypto \<Rightarrow> string \<Rightarrow> string" where
  "HashAPIKey K apiKey = EncodeToString (Sum256 K (bytes_of apiKey))"

section \<open>Audit log\<close>

record AuditEvent =
  ae_Timestamp :: time
  ae_ClientIP :: string
  ae_UserAgent :: string
  ae_Action :: string
  ae_Resource :: string
  ae_Result :: string
  ae_Details :: string

text \<open>The line that the logger writes, with the format of a time as an argument; nothing when
  the log is disabled.\<close>

definition audit_line :: "(time \<Rightarrow> string) \<Rightarrow> AuditEvent \<Rightarrow> string" where
  "audit_line rfc3339 e = ''AUDIT: '' @ rfc3339 (ae_Timestamp e) @ '' - '' @ ae_Action e @ '' from '' @
     ae_ClientIP e @ '' - '' @ ae_Result e @ '' on '' @ ae_Resource e @ '' - '' @ ae_Details e @
     '' ('' @ ae_UserAgent e @ '')''"

definition LogAuditEvent :: "(time \<Rightarrow> string) \<Rightarrow> SecurityManager \<Rightarrow> AuditEvent \<Rightarrow> string list \<Rightarrow> string list" where
  "LogAuditEvent rfc3339 sm e lines =
     (if \<not> sc_EnableAuditLog (sm_config sm) \<or> sm_auditLogger sm = None then lines
      else lines @ [audit_line rfc3339 e])"

end
