(* ===== verification/Security_Props.thy ===== *)
theory Security_Props
  imports Security
begin

text \<open>
  The properties of the security manager.
\<close>

section \<open>Comparison in constant time\<close>

lemma fold_or_zero:
  "fold (\<lambda>(a, b) v. v OR (a XOR b)) ps v = 0 \<longleftrightarrow> v = 0 \<and> (\<forall>(a, b) \<in> set ps. a = b)" for v :: byte
proof (induction ps arbitrary: v)
  case (Cons p ps)
  obtain a b where p: "p = (a, b)" by (rule prod.exhaust)
  have "v OR (a XOR b) = 0 \<longleftrightarrow> v = 0 \<and> a = b"
    by (metis or_eq_0_iff xor_self_eq word_bitwise_1_simps(1) xor.left_commute xor.right_neutral)
  with Cons p show ?case by auto
qed simp

lemma byte_eq_zero: "ConstantTimeByteEq v 0 = (if v = 0 then 1 else 0)"
proof (cases "v = 0")
  case True
  have "drop_bit 31 (- 1 :: 32 word) = 1" by code_simp
  with True show ?thesis by (simp add: ConstantTimeByteEq_def)
next
  case False
  let ?w = "ucast v :: 32 word"
  have u: "uint ?w = uint v" by (simp add: unsigned_ucast_eq take_bit_int_eq_self_iff  order_less_le_trans [OF unsigned_less])
  have "uint v \<noteq> 0" "0 \<le> uint v" "uint v < 256"
    using False uint_0_iff [of v] unsigned_less [where ?'b = 8 and ?'a = int, of v] by simp_all
  then have "0 < uint v" "uint v < 256" by linarith+
  with u have "uint (?w - 1) = uint v - 1" by (simp add: uint_word_ariths)
  moreover have "uint (drop_bit 31 (?w - 1)) = uint (?w - 1) div 2 ^ 31"
    by (simp only: drop_bit_eq_div uint_div_distrib) (simp add: uint_word_of_int_eq)
  ultimately have "uint (drop_bit 31 (?w - 1)) = 0"
    using \<open>uint v < 256\<close> \<open>0 < uint v\<close> by simp
  with False show ?thesis by (simp add: ConstantTimeByteEq_def)
qed

lemma compare_eq: "ConstantTimeCompare x y = 1 \<longleftrightarrow> x = y"
proof (cases "length x = length y")
  case True
  then have "(\<forall>(a, b) \<in> set (zip x y). a = b) \<longleftrightarrow> x = y"
    by (auto simp: set_zip list_eq_iff_nth_eq)
  with True show ?thesis by (simp add: ConstantTimeCompare_def byte_eq_zero fold_or_zero)
qed (auto simp: ConstantTimeCompare_def)

lemma bytes_of_inj: "bytes_of s = bytes_of t \<longleftrightarrow> s = t"
proof -
  have "c = d" if eq: "(of_char c :: byte) = of_char d" for c d
  proof -
    have n: "(of_nat (of_char e :: nat) :: byte) = of_char e" for e by (rule of_nat_of_char)
    have "(of_nat (of_char c :: nat) :: byte) = of_nat (of_char d :: nat)" unfolding n by (rule eq)
    then have "(of_char c :: nat) mod 256 = of_char d mod 256"
      by (simp add: word_of_nat_eq_iff take_bit_eq_mod)
    then show ?thesis by simp
  qed
  then have "inj (of_char :: char \<Rightarrow> byte)" by (rule injI)
  then show ?thesis by (simp add: bytes_of_def inj_map_eq_map)
qed

text \<open>With authentication enabled exactly the configured keys are accepted, byte for byte; with
  it disabled every key is.\<close>

theorem ValidateAPIKey_exact:
  "ValidateAPIKey sm apiKey \<longleftrightarrow>
     (sc_EnableAuthentication (sm_config sm) \<longrightarrow> apiKey \<in> set (sc_APIKeys (sm_config sm)))"
  by (auto simp: ValidateAPIKey_def list_ex_iff compare_eq bytes_of_inj)

section \<open>The whitelist\<close>

text \<open>An entry of the whitelist: an IPv4 address, alone or as a network with its prefix length.\<close>

fun entry_text :: "(byte \<times> byte \<times> byte \<times> byte) \<times> nat option \<Rightarrow> string" where
  "entry_text ((a, b, c, d), None) = dotted a b c d"
| "entry_text ((a, b, c, d), Some n) = dotted a b c d @ CHR ''/'' # show_nat n"

fun entry_admits :: "byte \<times> byte \<times> byte \<times> byte \<Rightarrow> (byte \<times> byte \<times> byte \<times> byte) \<times> nat option \<Rightarrow> bool" where
  "entry_admits (x, y, z, w) ((a, b, c, d), len) = agree (case len of None \<Rightarrow> 32 | Some n \<Rightarrow> n) [a, b, c, d] [x, y, z, w]"

lemma byte_full: "(255 :: byte) = -1"
  by code_simp

lemma agree_all: "length xs = 4 \<Longrightarrow> length ys = 4 \<Longrightarrow> agree 32 xs ys \<longleftrightarrow> xs = ys"
proof -
  assume l: "length xs = 4" "length ys = 4"
  have m: "maskBytes 4 32 = [255, 255, 255, 255]" by (simp add: numeral_eq_Suc)
  have id: "map2 (AND) zs [255, 255, 255, 255] = zs" if "length zs = 4" for zs :: "byte list"
    using that by (auto simp: byte_full numeral_eq_Suc length_Suc_conv)
  show ?thesis using masked_eq [OF l, of 32] id [OF l(1)] id [OF l(2)] by (simp add: m)
qed

lemma allows_entry:
  assumes "\<forall>n. len = Some n \<longrightarrow> n \<le> 32"
  shows "allows (v4InV6Prefix @ [x, y, z, w]) (entry_text ((a, b, c, d), len)) \<longleftrightarrow>
    entry_admits (x, y, z, w) ((a, b, c, d), len)"
proof (cases len)
  case None
  then show ?thesis
    using no_slash [of a b c d]
    by (simp add: allows_def ParseIP_dotted EqualIP_def agree_all)
next
  case (Some n)
  with assms show ?thesis
    by (simp add: allows_def ParseCIDR_dotted Contains_v4)
qed

text \<open>C26: A whitelist of IPv4 addresses and networks admits exactly the IPv4 clients that agree with
  one of its entries on the leading bits its prefix length names (all 32 for a plain address),
  from the texts in the configuration and of the client.\<close>

theorem whitelist_networks:
  assumes "sc_EnableIPWhitelist (sm_config sm)" and "sc_AllowedIPs (sm_config sm) = map entry_text es"
    and "\<forall>e \<in> set es. case snd e of None \<Rightarrow> True | Some n \<Rightarrow> n \<le> 32"
  shows "CheckIPWhitelist sm (dotted x y z w) \<longleftrightarrow> (\<exists>e \<in> set es. entry_admits (x, y, z, w) e)"
proof -
  have "allows (v4InV6Prefix @ [x, y, z, w]) (entry_text e) \<longleftrightarrow> entry_admits (x, y, z, w) e"
    if "e \<in> set es" for e
  proof -
    obtain a b c d len where "e = ((a, b, c, d), len)" by (metis prod.exhaust)
    with that assms(3) show ?thesis by (auto intro!: allows_entry simp del: entry_text.simps entry_admits.simps)
  qed
  with assms(1,2) show ?thesis
    by (auto simp: CheckIPWhitelist_def ParseIP_dotted list_ex_iff)
qed

definition demo_security :: SecurityConfig where
  "demo_security = \<lparr>sc_EnableAuthentication = True, sc_APIKeys = [''0123456789abcdef''], sc_TokenExpiration = 60,
     sc_EnableIPWhitelist = True, sc_AllowedIPs = map entry_text [((10, 0, 0, 0), Some 8), ((192, 168, 1, 7), None)],
     sc_EnableRateLimit = True, sc_RateLimit = 5, sc_EnableEncryption = True,
     sc_EncryptionKey = ''a key of more than sixteen'', sc_EnableAuditLog = False, sc_AuditLogPath = ''''\<rparr>"

definition demo_sm :: SecurityManager where
  "demo_sm = \<lparr>sm_config = demo_security, sm_rateLimiter = None, sm_auditLogger = None\<rparr>"

lemma whitelist_networks_witness:
  "CheckIPWhitelist demo_sm (dotted 192 168 1 7)"
proof -
  have "CheckIPWhitelist demo_sm (dotted 192 168 1 7) \<longleftrightarrow>
      (\<exists>e \<in> set [((10, 0, 0, 0), Some 8), ((192, 168, 1, 7), None)]. entry_admits (192, 168, 1, 7) e)"
    by (rule whitelist_networks) (simp_all add: demo_sm_def demo_security_def)
  then show ?thesis by (simp add: agree_all)
qed

section \<open>Encryption\<close>

lemma encrypt_roundtrip_aux:
  assumes "crypto_ok K" and "\<forall>n. \<exists>bs. rand n = Some bs \<and> length bs = n"
    and "sc_EncryptionKey (sm_config sm) \<noteq> ''''"
  shows "\<exists>c. EncryptData K rand sm data = Inr c \<and> DecryptData K sm c = Inr data"
proof (cases "sc_EnableEncryption (sm_config sm)")
  case False
  then show ?thesis by (simp add: EncryptData_def DecryptData_def)
next
  case True
  let ?key = "deriveKey K sm"
  have key: "length ?key = 32" using assms(1,3) by (simp add: deriveKey_def crypto_ok_def)
  obtain c g where c: "NewCipher K ?key = Some c" and g: "NewGCM K c = Some g"
    and op: "\<And>nonce d. length nonce = NonceSize K g \<Longrightarrow> Open K g nonce (Seal K g nonce d) = Some d"
    using assms(1) key by (fastforce simp: crypto_ok_def split: option.splits)
  obtain nonce where n: "rand (NonceSize K g) = Some nonce" "length nonce = NonceSize K g"
    using assms(2) by blast
  have "length ?key \<noteq> 0" using key by simp
  then show ?thesis using True c g n op by (simp add: EncryptData_def DecryptData_def Let_def)
qed

text \<open>With a nonempty encryption key and a working source of randomness, encryption succeeds and
  decryption gives the data back, whether encryption is enabled or not.\<close>

theorem encrypt_roundtrip:
  assumes "crypto_ok K" and "\<forall>n. \<exists>bs. rand n = Some bs \<and> length bs = n"
    and "sc_EncryptionKey (sm_config sm) \<noteq> ''''"
  shows "\<exists>c. EncryptData K rand sm data = Inr c \<and> DecryptData K sm c = Inr data"
  by (rule encrypt_roundtrip_aux [OF assms])

definition demo_crypto :: "(byte list, byte list) crypto" where
  "demo_crypto = \<lparr>NewCipher = (\<lambda>key. if length key \<in> {16, 24, 32} then Some key else None), NewGCM = Some,
     NonceSize = (\<lambda>g. 12), Seal = (\<lambda>g nonce d. nonce @ rev d),
     Open = (\<lambda>g nonce d. if take 12 d = nonce then Some (rev (drop 12 d)) else None),
     Sum256 = (\<lambda>s. take 32 (s @ replicate 32 0))\<rparr>"

lemma encrypt_roundtrip_witness:
  "\<exists>c. EncryptData demo_crypto (\<lambda>n. Some (replicate n 7)) demo_sm [1, 2, 3] = Inr c \<and>
     DecryptData demo_crypto demo_sm c = Inr [1, 2, 3]"
proof (rule encrypt_roundtrip)
  show "crypto_ok demo_crypto" by (auto simp: crypto_ok_def demo_crypto_def)
qed (simp_all add: demo_sm_def demo_security_def)

section \<open>Generated keys\<close>

lemma b64_length: "length (EncodeToString bs) = 4 * ((length bs + 2) div 3)"
proof (induction bs rule: EncodeToString.induct)
  case (4 a b c rest)
  have "(Suc (Suc (Suc (length rest))) + 2) div 3 = Suc ((length rest + 2) div 3)" by presburger
  with 4 show ?case by (simp add: Let_def)
qed (simp_all add: Let_def)

lemma generated_key_length: "rand 32 = Some bs \<Longrightarrow> length bs = 32 \<Longrightarrow>
    \<exists>k. GenerateAPIKey rand = Inr k \<and> length k = 44"
  by (simp add: GenerateAPIKey_def b64_length)

section \<open>A validated configuration\<close>

lemma validateKeys_None: "validateKeys i ks = None \<longleftrightarrow> (\<forall>k \<in> set ks. 16 \<le> length k)"
  by (induction ks arbitrary: i) auto

definition readable :: "string \<Rightarrow> bool" where
  "readable ip \<longleftrightarrow> (if CHR ''/'' \<in> set ip then ParseCIDR ip \<noteq> None else ParseIP ip \<noteq> None)"

lemma validateIPs_None: "validateIPs i ips = None \<longleftrightarrow> (\<forall>ip \<in> set ips. readable ip)"
  by (induction ips arbitrary: i) (auto simp: readable_def split: option.splits)

text \<open>Exactly which security configurations validation accepts; an absent one never.\<close>

theorem ValidateSecurityConfig_accepts:
  "ValidateSecurityConfig None = Some SecConfigNil \<and>
   (ValidateSecurityConfig (Some c) = None \<longleftrightarrow>
     (sc_EnableAuthentication c \<longrightarrow> sc_APIKeys c \<noteq> [] \<and> (\<forall>k \<in> set (sc_APIKeys c). 16 \<le> length k) \<and>
        0 < sc_TokenExpiration c) \<and>
     (sc_EnableIPWhitelist c \<longrightarrow> sc_AllowedIPs c \<noteq> [] \<and> (\<forall>ip \<in> set (sc_AllowedIPs c). readable ip)) \<and>
     (sc_EnableRateLimit c \<longrightarrow> 0 < sc_RateLimit c) \<and>
     (sc_EnableEncryption c \<longrightarrow> 16 \<le> length (sc_EncryptionKey c)) \<and>
     (sc_EnableAuditLog c \<longrightarrow> sc_AuditLogPath c \<noteq> ''''))"
  by (auto simp: ValidateSecurityConfig_def validateKeys_None validateIPs_None not_less not_le)

lemma consume_fresh:
  assumes "0 < rate" and "rate < 2 ^ 62"
  shows "fst (consume now \<lparr>tb_tokens = rate, tb_capacity = rate, tb_lastRefill = t1, tb_lastAccess = t2\<rparr>)"
  using consume_full(1) [of rate "\<lparr>tb_tokens = rate, tb_capacity = rate, tb_lastRefill = t1, tb_lastAccess = t2\<rparr>" now] assms
  by (simp add: bucket_ok_def)



end
