(* ===== verification/Plugin.thy ===== *)
theory Plugin
  imports Worker_Manager Generate_Loop Config_Validator
begin

text \<open>
  The plugin (\<open>PlugSnowflake\<close> of \<open>types.go\<close>, \<open>lifecycle_context.go\<close>): it loads its
  configuration, finds a Redis client, builds the worker ID manager and the generator, starts
  and stops them, and puts the manager's health in front of the generator. Each method works
  under the plugin's lock. Redis, the JSON codec and the framework's base plugin are arguments.
\<close>

section \<open>The framework\<close>

text \<open>\<open>plugins.BasePlugin\<close> keeps the status and hands events on; it is not part of this
  repository. Of its statuses the code names five.\<close>

datatype plugin_status = StatusInitializing | StatusActive | StatusFailed | StatusStopping | StatusTerminated | StatusOther

datatype event_type = EventPluginStarting | EventPluginStarted | EventPluginStopping | EventPluginStopped

record plugin_event =
  ev_Type :: event_type
  ev_Source :: string
  ev_Category :: string

record 'b base_plugin =
  Status :: "'b \<Rightarrow> plugin_status"
  SetStatus :: "plugin_status \<Rightarrow> 'b \<Rightarrow> 'b"
  EmitEvent :: "plugin_event \<Rightarrow> 'b \<Rightarrow> 'b"

text \<open>What is relied on: the status is the one last set.\<close>

definition base_ok :: "'b base_plugin \<Rightarrow> bool" where
  "base_ok B \<longleftrightarrow> (\<forall>s b. Status B (SetStatus B s b) = s) \<and> (\<forall>e b. Status B (EmitEvent B e b) = Status B b)"

text \<open>A shared resource, by its dynamic type: a client, a provider with what its
  \<open>UniversalClient\<close> returns (an error, or a client that may be nil), or something else. The
  runtime: its configuration (nil; a scan that fails; what was scanned), the look-up of shared
  resources, the host's addresses, and name, host and version of the application.\<close>

datatype resource = ClientResource | ProviderResource "bool option" | OtherResource

record lynx_app =
  app_Name :: string
  app_Host :: string
  app_Version :: string

record runtime =
  rt_config :: "EonId option option"
  rt_GetSharedResource :: "string \<Rightarrow> resource option"
  rt_addrs :: "iface_addr list option"
  rt_app :: "lynx_app option"

section \<open>State\<close>

text \<open>\<open>p_redisClient\<close>: it is not nil. \<open>p_onWorkerIDChange\<close>: the manager's callback is set, to the
  closure over the generator. \<open>p_shutdownCh\<close> counts how often the channel was closed; the two
  \<open>sync.Once\<close> values say whether they have fired.\<close>

record 'b PlugSnowflake =
  p_base :: 'b
  p_conf :: "EonId option"
  p_redisClient :: bool
  p_workerManager :: "WorkerIDManager option"
  p_onWorkerIDChange :: bool
  p_generator :: "Generator option"
  p_shutdownCh :: nat
  p_shutdownOnce :: bool
  p_stopCleanupOnce :: bool

definition NewSnowflakePlugin :: "'b \<Rightarrow> 'b PlugSnowflake" where
  "NewSnowflakePlugin base = \<lparr>p_base = base, p_conf = None, p_redisClient = False, p_workerManager = None,
     p_onWorkerIDChange = False, p_generator = None, p_shutdownCh = 0, p_shutdownOnce = False,
     p_stopCleanupOnce = False\<rparr>"

text \<open>The configuration as \<open>any\<close>: a (possibly nil) pointer to the message, or another type.\<close>

datatype any_config = AnyEonId "EonId option" | AnyOtherConfig

datatype plugin_error =
  InvalidConfigurationType
| GeneratorNotCreated new_error
| Cancelled
| AlreadyActive
| StartupFailed worker_error
| HealthCheckFailed
| NotActive
| CleanupFailed worker_error
| GeneratorNotInitialized
| WorkerUnhealthy
| GeneratorError gen_error

definition UpdateConfiguration :: "any_config \<Rightarrow> 'b PlugSnowflake \<Rightarrow> plugin_error option \<times> 'b PlugSnowflake" where
  "UpdateConfiguration config p = (case config of
     AnyEonId conf \<Rightarrow> (None, p\<lparr>p_conf := conf\<rparr>)
   | AnyOtherConfig \<Rightarrow> (Some InvalidConfigurationType, p))"

section \<open>The Redis client\<close>

definition RedisPluginName_const :: string where "RedisPluginName_const = ''redis.client''"
definition RedisLegacyResourceName :: string where "RedisLegacyResourceName = ''redis''"

datatype resolve_error = ProviderFailed string | NotARedisResource string | LookupFailed string | NoCandidates

definition resourceCandidates :: "string \<Rightarrow> string list" where
  "resourceCandidates preferredName =
     (let candidates = [preferredName, ''redis.provider'', RedisPluginName_const @ ''.provider'']
      in if preferredName = '''' \<or> preferredName = RedisLegacyResourceName then candidates @ [RedisPluginName_const]
         else if preferredName = RedisPluginName_const then candidates @ [RedisLegacyResourceName]
         else candidates)"

text \<open>The loop over the candidates, with the names seen and the last error.\<close>

fun resolveLoop :: "(string \<Rightarrow> resource option) \<Rightarrow> string list \<Rightarrow> string set \<Rightarrow> resolve_error option \<Rightarrow>
    (resolve_error, bool \<times> string) result" where
  "resolveLoop get [] seen lastErr =
     (case lastErr of None \<Rightarrow> Inl NoCandidates | Some err \<Rightarrow> Inl err)"
| "resolveLoop get (name # names) seen lastErr =
     (if name = '''' then resolveLoop get names seen lastErr
      else if name \<in> seen then resolveLoop get names seen lastErr
      else
      let seen = insert name seen
      in case get name of
           None \<Rightarrow> resolveLoop get names seen (Some (LookupFailed name))
         | Some ClientResource \<Rightarrow> Inr (True, name)
         | Some (ProviderResource None) \<Rightarrow> Inl (ProviderFailed name)
         | Some (ProviderResource (Some client)) \<Rightarrow> Inr (client, name)
         | Some OtherResource \<Rightarrow> Inl (NotARedisResource name))"

definition resolveRedisClientResource :: "runtime \<Rightarrow> string \<Rightarrow> (resolve_error, bool \<times> string) result" where
  "resolveRedisClientResource rt preferredName =
     resolveLoop (rt_GetSharedResource rt) (resourceCandidates preferredName) {} None"

section \<open>Initialisation\<close>

definition zero_EonId :: EonId where
  "zero_EonId = \<lparr>DatacenterId = 0, WorkerId = 0, AutoRegisterWorkerId = False, RedisKeyPrefix = '''',
     WorkerIdTtl = None, HeartbeatInterval = None, pb_EnableClockDriftProtection = False,
     pb_MaxClockDrift = None, ClockCheckInterval = None, pb_ClockDriftAction = '''',
     pb_EnableSequenceCache = False, pb_SequenceCacheSize = 0, pb_EnableMetrics = False,
     RedisPluginName = '''', RedisDb = 0, pb_CustomEpoch = 0, WorkerIdBits = 0, pb_SequenceBits = 0\<rparr>"

text \<open>\<open>scanned\<close>: nothing when the runtime has no configuration, else the result of the scan.\<close>

definition loadedConf :: "EonId option option \<Rightarrow> EonId" where
  "loadedConf scanned = (case scanned of None \<Rightarrow> zero_EonId | Some None \<Rightarrow> fallbackConf | Some (Some c) \<Rightarrow> c)"

definition currentLynxName :: "lynx_app option \<Rightarrow> string" where
  "currentLynxName app = (case app of None \<Rightarrow> '''' | Some a \<Rightarrow> app_Name a)"

definition currentLynxHost :: "lynx_app option \<Rightarrow> string" where
  "currentLynxHost app = (case app of None \<Rightarrow> '''' | Some a \<Rightarrow> app_Host a)"

definition currentLynxVersion :: "lynx_app option \<Rightarrow> string" where
  "currentLynxVersion app = (case app of None \<Rightarrow> '''' | Some a \<Rightarrow> app_Version a)"

definition pluginIP :: "runtime \<Rightarrow> string" where
  "pluginIP rt =
     (let localIP = getLocalIP (rt_addrs rt)
      in if localIP = '''' \<or> localIP = ''unknown'' then
           (let h = currentLynxHost (rt_app rt)
            in if h \<noteq> '''' then h else if localIP = '''' then ''unknown'' else localIP)
         else localIP)"

text \<open>The manager is built in place, not by \<open>NewWorkerIDManager\<close>.\<close>

definition pluginManager :: "runtime \<Rightarrow> bool \<Rightarrow> EonId \<Rightarrow> WorkerIDManager" where
  "pluginManager rt redisClient conf =
     (let keyPrefix = NormalizeKeyPrefix (RedisKeyPrefix conf);
          ttl = (case WorkerIdTtl conf of None \<Rightarrow> DefaultWorkerIDTTL | Some d \<Rightarrow> d);
          heartbeatInterval = (case HeartbeatInterval conf of None \<Rightarrow> DefaultHeartbeatInterval | Some d \<Rightarrow> d);
          m = \<lparr>w_redisClient = redisClient, w_datacenterID = DatacenterId conf, w_keyPrefix = keyPrefix,
               w_ttl = ttl, w_heartbeatInterval = heartbeatInterval, w_workerID = WorkerId conf,
               w_registered = False, w_heartbeatCtx = None, w_heartbeatCancel = None,
               w_heartbeatRunning = False, w_registerTime = zero_time, w_instanceID = '''',
               w_localIP = pluginIP rt, w_serviceName = currentLynxName (rt_app rt),
               w_serviceVersion = currentLynxVersion (rt_app rt), w_healthy = 0, w_shuttingDown = 0,
               w_recovering = 0, w_leaseDeadline = 0, w_maxWorkerID = 0, w_contexts = 0,
               w_cancelled = [], w_loops = [], w_promCalls = []\<rparr>
      in if \<not> AutoRegisterWorkerId conf then m\<lparr>w_healthy := 1\<rparr> else m)"

text \<open>The client for automatic registration, which is switched off when there is none. Otherwise
  the plugin keeps the client it had.\<close>

definition connectRedis :: "runtime \<Rightarrow> EonId \<Rightarrow> bool \<Rightarrow> EonId \<times> bool" where
  "connectRedis rt conf redisClient =
     (if AutoRegisterWorkerId conf then
        (let redisPluginName = (if RedisPluginName conf = [] then ''redis'' else RedisPluginName conf)
         in case resolveRedisClientResource rt redisPluginName of
              Inr (client, resolvedName) \<Rightarrow> (conf, client)
            | Inl err \<Rightarrow> (conf\<lparr>AutoRegisterWorkerId := False\<rparr>, redisClient))
      else (conf, redisClient))"

definition InitializeResources :: "runtime \<Rightarrow> host \<Rightarrow> 'b PlugSnowflake \<Rightarrow> plugin_error option \<times> 'b PlugSnowflake" where
  "InitializeResources rt h p =
     (let (conf, client) = connectRedis rt (loadedConf (rt_config rt)) (p_redisClient p);
          p = p\<lparr>p_conf := Some conf, p_redisClient := client\<rparr>;
          p = p\<lparr>p_workerManager := Some (pluginManager rt client conf), p_onWorkerIDChange := False\<rparr>
      in case NewSnowflakeGeneratorCore h (DatacenterId conf) (WorkerId conf) (Some (generatorConfigOf conf)) of
           Inl err \<Rightarrow> (Some (GeneratorNotCreated err), p\<lparr>p_generator := None\<rparr>)
         | Inr g \<Rightarrow> (None, p\<lparr>p_generator := Some g, p_onWorkerIDChange := True\<rparr>))"

text \<open>The context-aware entry hands on to the base plugin, which runs the steps above.\<close>

definition InitializeContext :: "(runtime \<Rightarrow> 'b PlugSnowflake \<Rightarrow> plugin_error option \<times> 'b PlugSnowflake) \<Rightarrow> bool \<Rightarrow>
    runtime \<Rightarrow> 'b PlugSnowflake \<Rightarrow> plugin_error option \<times> 'b PlugSnowflake" where
  "InitializeContext baseInitialize ctxErr rt p = (if ctxErr then (Some Cancelled, p) else baseInitialize rt p)"

section \<open>Start\<close>

text \<open>The callback on the plugin's generator.\<close>

definition onWorkerIDChange :: "'b PlugSnowflake \<Rightarrow> (int \<Rightarrow> Generator option \<Rightarrow> Generator option) option" where
  "onWorkerIDChange p = (if p_onWorkerIDChange p then Some (\<lambda>w. map_option (SetWorkerID w)) else None)"

text \<open>The outcome of the start-up tasks; a negative shift count panics.\<close>

datatype startup = StartupOk | StartupError worker_error | StartupPanic

record 'r start_env =
  st_specific :: "'r specific_env"
  st_attempts :: "nat \<Rightarrow> 'r attempt_env"

definition startupMaxWorkerID :: "int \<Rightarrow> int" where
  "startupMaxWorkerID bits =
     (let maxWorkerID = i64 (shl64 1 bits - 1) in if maxWorkerID \<le> 0 then 31 else maxWorkerID)"

text \<open>The second half: a fresh worker ID, which the generator then takes.\<close>

definition autoRegister :: "'r redis \<Rightarrow> codec \<Rightarrow> (nat \<Rightarrow> 'r attempt_env) \<Rightarrow> int \<Rightarrow> WorkerIDManager \<Rightarrow>
    'b PlugSnowflake \<Rightarrow> 'r \<Rightarrow> startup \<times> 'b PlugSnowflake \<times> 'r" where
  "autoRegister R J env maxWorkerID m p r =
     (case RegisterWorkerID R J (onWorkerIDChange p) env maxWorkerID m (p_generator p) r of
        (Inl err, m, gen, r) \<Rightarrow> (StartupError err, p\<lparr>p_workerManager := Some m, p_generator := gen\<rparr>, r)
      | (Inr workerID, m, gen, r) \<Rightarrow>
          (StartupOk, p\<lparr>p_workerManager := Some m,
             p_generator := map_option (\<lambda>g. g\<lparr>g_workerID := workerID\<rparr>) gen\<rparr>, r))"

definition startupTasksContext :: "'r redis \<Rightarrow> codec \<Rightarrow> 'r start_env \<Rightarrow> 'b PlugSnowflake \<Rightarrow> 'r \<Rightarrow>
    startup \<times> 'b PlugSnowflake \<times> 'r" where
  "startupTasksContext R J env p r =
     (case (p_conf p, p_workerManager p) of
        (Some conf, Some m) \<Rightarrow>
          if \<not> AutoRegisterWorkerId conf \<or> \<not> p_redisClient p then (StartupOk, p, r)
          else if WorkerIdBits conf < 0 then (StartupPanic, p, r)
          else
          let maxWorkerID = startupMaxWorkerID (WorkerIdBits conf);
              m = m\<lparr>w_maxWorkerID := maxWorkerID\<rparr>
          in if WorkerId conf > 0 then
               (case RegisterSpecificWorkerID R J (st_specific env) (WorkerId conf) m r of
                  (None, m, r) \<Rightarrow> (StartupOk, p\<lparr>p_workerManager := Some m\<rparr>, r)
                | (Some err, m, r) \<Rightarrow> autoRegister R J (st_attempts env) maxWorkerID m p r)
             else autoRegister R J (st_attempts env) maxWorkerID m p r
      | _ \<Rightarrow> (StartupOk, p, r))"

definition plugin_CheckHealth :: "'b PlugSnowflake \<Rightarrow> plugin_error option" where
  "plugin_CheckHealth p = (case p_generator p of None \<Rightarrow> Some GeneratorNotInitialized | Some g \<Rightarrow> None)"

definition lifecycleEvent :: "event_type \<Rightarrow> string \<Rightarrow> plugin_event" where
  "lifecycleEvent ty source = \<lparr>ev_Type = ty, ev_Source = source, ev_Category = ''lifecycle''\<rparr>"

definition onBase :: "('b \<Rightarrow> 'b) \<Rightarrow> 'b PlugSnowflake \<Rightarrow> 'b PlugSnowflake" where
  "onBase f p = p\<lparr>p_base := f (p_base p)\<rparr>"

text \<open>\<open>None\<close>: the start-up panicked. \<open>ctxErr\<close>: the context is done on entry.\<close>

definition StartContext :: "'b base_plugin \<Rightarrow> 'r redis \<Rightarrow> codec \<Rightarrow> bool \<Rightarrow> 'r start_env \<Rightarrow> 'b PlugSnowflake \<Rightarrow> 'r \<Rightarrow>
    plugin_error option option \<times> 'b PlugSnowflake \<times> 'r" where
  "StartContext B R J ctxErr env p r =
     (if ctxErr then (Some (Some Cancelled), p, r)
      else if Status B (p_base p) = StatusActive then (Some (Some AlreadyActive), p, r)
      else
      let p = onBase (SetStatus B StatusInitializing) p;
          p = onBase (EmitEvent B (lifecycleEvent EventPluginStarting ''StartContext'')) p
      in case startupTasksContext R J env p r of
           (StartupPanic, p, r) \<Rightarrow> (None, p, r)
         | (StartupError err, p, r) \<Rightarrow> (Some (Some (StartupFailed err)), onBase (SetStatus B StatusFailed) p, r)
         | (StartupOk, p, r) \<Rightarrow>
             (case plugin_CheckHealth p of
                Some err \<Rightarrow> (Some (Some HealthCheckFailed), onBase (SetStatus B StatusFailed) p, r)
              | None \<Rightarrow>
                  (let p = onBase (SetStatus B StatusActive) p;
                       p = onBase (EmitEvent B (lifecycleEvent EventPluginStarted ''StartContext'')) p
                   in (Some None, p, r))))"

section \<open>Stop\<close>

definition doStopCleanupContext :: "'r redis \<Rightarrow> codec \<Rightarrow> 'r unregister_env \<Rightarrow> 'b PlugSnowflake \<Rightarrow> 'r \<Rightarrow>
    worker_error option \<times> 'b PlugSnowflake \<times> 'r" where
  "doStopCleanupContext R J env p r =
     (let (firstErr, p, r) =
            (case p_workerManager p of
               None \<Rightarrow> (None, p, r)
             | Some m \<Rightarrow> (case UnregisterWorkerID R J env m r of (err, m, r) \<Rightarrow> (err, p\<lparr>p_workerManager := Some m\<rparr>, r)));
          p = p\<lparr>p_generator := map_option Shutdown (p_generator p)\<rparr>
      in (firstErr, p, r))"

definition cleanupTasksContext :: "'r redis \<Rightarrow> codec \<Rightarrow> 'r unregister_env \<Rightarrow> 'b PlugSnowflake \<Rightarrow> 'r \<Rightarrow>
    worker_error option \<times> 'b PlugSnowflake \<times> 'r" where
  "cleanupTasksContext R J env p r =
     (let p = (if p_shutdownOnce p then p else p\<lparr>p_shutdownOnce := True, p_shutdownCh := p_shutdownCh p + 1\<rparr>)
      in if p_stopCleanupOnce p then (None, p, r)
         else doStopCleanupContext R J env (p\<lparr>p_stopCleanupOnce := True\<rparr>) r)"

definition stopWithContext :: "'b base_plugin \<Rightarrow> 'r redis \<Rightarrow> codec \<Rightarrow> bool \<Rightarrow> string \<Rightarrow> 'r unregister_env \<Rightarrow>
    'b PlugSnowflake \<Rightarrow> 'r \<Rightarrow> plugin_error option \<times> 'b PlugSnowflake \<times> 'r" where
  "stopWithContext B R J ctxErr source env p r =
     (if ctxErr then (Some Cancelled, p, r)
      else if Status B (p_base p) \<noteq> StatusActive then (Some NotActive, p, r)
      else
      let p = onBase (SetStatus B StatusStopping) p;
          p = onBase (EmitEvent B (lifecycleEvent EventPluginStopping source)) p
      in case cleanupTasksContext R J env p r of
           (Some err, p, r) \<Rightarrow> (Some (CleanupFailed err), onBase (SetStatus B StatusFailed) p, r)
         | (None, p, r) \<Rightarrow>
             (let p = onBase (SetStatus B StatusTerminated) p;
                  p = onBase (EmitEvent B (lifecycleEvent EventPluginStopped source)) p
              in (None, p, r)))"

definition StopContext :: "'b base_plugin \<Rightarrow> 'r redis \<Rightarrow> codec \<Rightarrow> bool \<Rightarrow> 'r unregister_env \<Rightarrow> 'b PlugSnowflake \<Rightarrow> 'r \<Rightarrow>
    plugin_error option \<times> 'b PlugSnowflake \<times> 'r" where
  "StopContext B R J ctxErr env p r = stopWithContext B R J ctxErr ''StopContext'' env p r"

definition plugin_Stop :: "'b base_plugin \<Rightarrow> 'r redis \<Rightarrow> codec \<Rightarrow> 'r unregister_env \<Rightarrow> 'b PlugSnowflake \<Rightarrow> 'r \<Rightarrow>
    plugin_error option \<times> 'b PlugSnowflake \<times> 'r" where
  "plugin_Stop B R J env p r = stopWithContext B R J False ''Stop'' env p r"

definition StartupTasks :: "'r redis \<Rightarrow> codec \<Rightarrow> 'r start_env \<Rightarrow> 'b PlugSnowflake \<Rightarrow> 'r \<Rightarrow>
    startup \<times> 'b PlugSnowflake \<times> 'r" where
  "StartupTasks R J env p r = startupTasksContext R J env p r"

definition CleanupTasks :: "'r redis \<Rightarrow> codec \<Rightarrow> 'r unregister_env \<Rightarrow> 'b PlugSnowflake \<Rightarrow> 'r \<Rightarrow>
    worker_error option \<times> 'b PlugSnowflake \<times> 'r" where
  "CleanupTasks R J env p r = cleanupTasksContext R J env p r"

section \<open>IDs\<close>

text \<open>The gate: a generator, and a healthy manager if there is one. \<open>now\<close> is the reading in
  \<open>IsHealthy\<close>, which may mark the manager unhealthy.\<close>

definition gate :: "time \<Rightarrow> 'b PlugSnowflake \<Rightarrow> (plugin_error, Generator) result \<times> 'b PlugSnowflake" where
  "gate now p =
     (case p_generator p of
        None \<Rightarrow> (Inl GeneratorNotInitialized, p)
      | Some g \<Rightarrow>
          (case p_workerManager p of
             None \<Rightarrow> (Inr g, p)
           | Some m \<Rightarrow>
               (case worker_IsHealthy now m of (ok, m) \<Rightarrow>
                  let p = p\<lparr>p_workerManager := Some m\<rparr> in if ok then (Inr g, p) else (Inl WorkerUnhealthy, p))))"

text \<open>As for the generator's loop: \<open>None\<close> when the fuel runs out, an inner \<open>None\<close> for a panic.\<close>

definition plugin_GenerateID :: "nat \<Rightarrow> (nat \<Rightarrow> iteration) \<Rightarrow> time \<Rightarrow> time \<Rightarrow> 'b PlugSnowflake \<Rightarrow>
    ((plugin_error, int) result option \<times> 'b PlugSnowflake) option" where
  "plugin_GenerateID fuel env now startTime p =
     (case gate now p of
        (Inl err, p) \<Rightarrow> Some (Some (Inl err), p)
      | (Inr g, p) \<Rightarrow>
          (case GenerateID fuel env startTime 0 g of
             None \<Rightarrow> None
           | Some (None, sleeps, g) \<Rightarrow> Some (None, p\<lparr>p_generator := Some g\<rparr>)
           | Some (Some (Inl err), sleeps, g) \<Rightarrow> Some (Some (Inl (GeneratorError err)), p\<lparr>p_generator := Some g\<rparr>)
           | Some (Some (Inr x), sleeps, g) \<Rightarrow> Some (Some (Inr x), p\<lparr>p_generator := Some g\<rparr>)))"

definition plugin_GenerateIDWithMetadata :: "nat \<Rightarrow> (nat \<Rightarrow> iteration) \<Rightarrow> time \<Rightarrow> time \<Rightarrow> 'b PlugSnowflake \<Rightarrow>
    ((plugin_error, int \<times> SID) result option \<times> 'b PlugSnowflake) option" where
  "plugin_GenerateIDWithMetadata fuel env now startTime p =
     (case gate now p of
        (Inl err, p) \<Rightarrow> Some (Some (Inl err), p)
      | (Inr g, p) \<Rightarrow>
          (case GenerateIDWithMetadata fuel env startTime g of
             None \<Rightarrow> None
           | Some (None, g) \<Rightarrow> Some (None, p\<lparr>p_generator := Some g\<rparr>)
           | Some (Some (Inl err), g) \<Rightarrow> Some (Some (Inl (GeneratorError err)), p\<lparr>p_generator := Some g\<rparr>)
           | Some (Some (Inr x), g) \<Rightarrow> Some (Some (Inr x), p\<lparr>p_generator := Some g\<rparr>)))"

definition plugin_ParseID :: "int \<Rightarrow> 'b PlugSnowflake \<Rightarrow> (plugin_error, SID) result" where
  "plugin_ParseID x p = (case p_generator p of
     None \<Rightarrow> Inl GeneratorNotInitialized
   | Some g \<Rightarrow> (case ParseID g x of Inl err \<Rightarrow> Inl (GeneratorError err) | Inr s \<Rightarrow> Inr s))"

definition plugin_GetGenerator :: "'b PlugSnowflake \<Rightarrow> Generator option" where
  "plugin_GetGenerator p = p_generator p"

text \<open>The plugin depends on Redis unless its configuration says that worker IDs are fixed.\<close>

definition GetDependencies :: "'b PlugSnowflake \<Rightarrow> string list" where
  "GetDependencies p =
     (let needRedis = (case p_conf p of None \<Rightarrow> True | Some c \<Rightarrow> AutoRegisterWorkerId c)
      in if \<not> needRedis then [] else [RedisPluginName_const])"

end
