(* ===== verification/Own_Ids.thy ===== *)
theory Own_Ids
  imports Generate_Loop
begin

text \<open>
  The worker ID inside an ID that \<open>GenerateID\<close> returns: while nothing changes the generator's
  worker ID, it is the generator's own. Generators of one layout but different identities
  therefore never return the same ID.
\<close>

definition own_id :: "Generator \<Rightarrow> int \<Rightarrow> bool" where
  "own_id g x \<longleftrightarrow> (\<exists>t q. valid_part g (t, g_datacenterID g, g_workerID g, q) \<and>
     x = encode_part g (t, g_datacenterID g, g_workerID g, q))"

lemma own_id_transfer:
  assumes "shape g' = shape g" and "gen_layout g" and "gen_layout g'" and "g_workerID g' = g_workerID g"
  shows "own_id g' x = own_id g x"
  using assms(2-4)
  by (simp add: own_id_def valid_part_def encode_part_def encodeID_def same_shape [OF assms(1)])

lemma others_worker:
  assumes "gen_inv g" and "\<forall>op \<in> set ops. reading_ok g op" and "keeps_worker ops"
  shows "g_workerID (others ops g) = g_workerID g"
  using assms
proof (induction ops arbitrary: g)
  case Nil
  then show ?case by (simp add: others_def)
next
  case (Cons op ops)
  obtain r g' where st: "gstep op g = (r, g')" by (rule prod.exhaust)
  have ok: "reading_ok g op" using Cons.prems(2) by simp
  have k: "case op of ChangeWorker w \<Rightarrow> False | _ \<Rightarrow> True" "keeps_worker ops"
    using Cons.prems(3) by (simp_all add: keeps_worker_def)
  have adv: "gen_inv g'" "shape g' = shape g" using step_advances [OF Cons.prems(1) ok st] by auto
  have "\<forall>op \<in> set ops. reading_ok g' op"
    using Cons.prems(2) reading_ok_shape [OF adv(2)] by simp
  from Cons.IH [OF adv(1) this k(2)] step_worker [OF Cons.prems(1) ok st k(1)] st show ?case
    by (simp add: others_def grun_Cons del: grun.simps(2))
qed

lemma attempt_own:
  assumes inv: "gen_inv g" and ok: "reading_ok g (Attempt now check)"
    and eq: "tryGenerateID now check g = (Generated x hit, g')"
  shows "own_id g x"
proof -
  have st: "gstep (Attempt now check) g = (Some (Generated x hit), g')"
    using eq by (simp add: gstep_def)
  note adv = step_advances [OF inv ok st]
  have sh: "shape g' = shape g" and inv': "gen_inv g'" using adv by simp_all
  have wk: "g_workerID g' = g_workerID g" using step_worker [OF inv ok st] by simp
  have id: "x = idOf g' (g_lastTimestamp g') (g_sequence g')" and life: "in_lifetime g' (g_lastTimestamp g')"
    using adv in_lifetime_def same_shape [OF sh] by auto
  have lay: "gen_layout g" "gen_layout g'" using inv inv' by (simp_all add: gen_inv_def)
  have "valid_part g' (g_lastTimestamp g', g_datacenterID g', g_workerID g', g_sequence g')"
    using part_of_valid [OF inv' life] by (simp add: part_of_def)
  moreover have "x = encode_part g' (g_lastTimestamp g', g_datacenterID g', g_workerID g', g_sequence g')"
    by (simp add: id encode_part_def encodeID_def idOf_def)
  ultimately have "own_id g' x" unfolding own_id_def by blast
  then show ?thesis using own_id_transfer [OF sh lay wk] by simp
qed

lemma keeps_worker_parts:
  "keeps_worker (iteration_ops it) \<Longrightarrow>
     keeps_worker (it_before it) \<and> keeps_worker (it_between it) \<and> keeps_worker (it_after it)"
  by (auto simp: keeps_worker_def iteration_ops_def)

lemma worker_frame [simp]:
  "g_workerID (onMetrics f g) = g_workerID g" "g_workerID (prom c g) = g_workerID g"
  by (simp_all add: onMetrics_def prom_def)

lemma loopBody_own:
  assumes inv: "gen_inv g" and ok: "\<forall>op \<in> set (iteration_ops it). reading_ok g op"
    and kw: "keeps_worker (iteration_ops it)" and b: "loopBody startTime it g = (s, g')"
  shows "g_workerID g' = g_workerID g \<and> (\<forall>x. s = Finish (Inr x) \<longrightarrow> own_id g x)"
proof -
  define g1 where "g1 = others (it_before it) g"
  define g2 where "g2 = others (it_between it) g1"
  obtain r g3 where t: "tryGenerateID (it_now it) (it_check it) g2 = (r, g3)" by (rule prod.exhaust)
  define g4 where "g4 = others (it_after it) g3"
  note kw = keeps_worker_parts [OF kw]
  have ok_all: "\<forall>op \<in> set (it_before it). reading_ok g op" "\<forall>op \<in> set (it_between it). reading_ok g op"
    "reading_ok g (Attempt (it_now it) (it_check it))" "\<forall>op \<in> set (it_after it). reading_ok g op"
    using ok by (auto simp: iteration_ops_def)
  have 1: "gen_inv g1" "shape g1 = shape g" "g_workerID g1 = g_workerID g"
    using others_keep [OF inv ok_all(1)] others_worker [OF inv ok_all(1)] kw by (simp_all add: g1_def)
  have ok1: "\<forall>op \<in> set (it_between it). reading_ok g1 op"
    using ok_all(2) reading_ok_shape [OF 1(2)] by simp
  have 2: "gen_inv g2" "shape g2 = shape g" "g_workerID g2 = g_workerID g"
    using others_keep [OF 1(1) ok1] others_worker [OF 1(1) ok1] 1 kw by (simp_all add: g2_def)
  have ok2: "reading_ok g2 (Attempt (it_now it) (it_check it))"
    using ok_all(3) reading_ok_shape [OF 2(2)] by simp
  have st: "gstep (Attempt (it_now it) (it_check it)) g2 = (Some r, g3)" using t by (simp add: gstep_def)
  have 3: "gen_inv g3" "shape g3 = shape g" "g_workerID g3 = g_workerID g"
    using step_advances [OF 2(1) ok2 st] step_worker [OF 2(1) ok2 st] 2 by auto
  have ok3: "\<forall>op \<in> set (it_after it). reading_ok g3 op"
    using ok_all(4) reading_ok_shape [OF 3(2)] by simp
  have 4: "g_workerID g4 = g_workerID g"
    using others_worker [OF 3(1) ok3] 3 kw by (simp add: g4_def)
  have lay: "gen_layout g" "gen_layout g2" using inv 2(1) by (simp_all add: gen_inv_def)
  have own: "r = Generated x hit \<Longrightarrow> own_id g x" for x hit
    using attempt_own [OF 2(1) ok2] t own_id_transfer [OF 2(2) lay 2(3)] by simp
  show ?thesis
    using b t own 1(3) 3(3) 4
    by (auto simp: loopBody_def Let_def g1_def [symmetric] g2_def [symmetric] g4_def [symmetric]
        split: if_splits attempt.splits)
qed

lemma GenerateID_own:
  assumes "gen_inv g" and "\<forall>j < i + fuel. \<forall>op \<in> set (iteration_ops (env j)). reading_ok g op"
    and "\<forall>j < i + fuel. keeps_worker (iteration_ops (env j))"
    and "GenerateID fuel env startTime i g = Some (Some (Inr x), ds, g')"
  shows "own_id g x"
  using assms
proof (induction fuel arbitrary: i g ds)
  case 0
  then show ?case by simp
next
  case (Suc fuel)
  obtain st g1 where b: "loopBody startTime (env i) g = (st, g1)" by (rule prod.exhaust)
  have ok: "\<forall>op \<in> set (iteration_ops (env i)). reading_ok g op" using Suc.prems(2) by (auto dest: spec [of _ i])
  have kw: "keeps_worker (iteration_ops (env i))" using Suc.prems(3) by simp
  note own = loopBody_own [OF Suc.prems(1) ok kw b]
  note body = loopBody_result [OF Suc.prems(1) ok b]
  show ?case
  proof (cases st)
    case (Sleep d)
    with Suc.prems(4) b obtain ds' where rec: "GenerateID fuel env startTime (Suc i) g1 = Some (Some (Inr x), ds', g')"
      by (auto split: option.splits)
    have sh: "shape g1 = shape g" and inv1: "gen_inv g1" using body by simp_all
    have "\<forall>j < Suc i + fuel. \<forall>op \<in> set (iteration_ops (env j)). reading_ok g1 op"
      using Suc.prems(2) reading_ok_shape [OF sh] by simp
    from Suc.IH [OF inv1 this _ rec] Suc.prems(3) have "own_id g1 x" by simp
    moreover have "gen_layout g" "gen_layout g1" using Suc.prems(1) inv1 by (simp_all add: gen_inv_def)
    ultimately show ?thesis using own_id_transfer [OF sh] own by simp
  qed (use Suc.prems(4) b own in auto)
qed

text \<open>The identity is a field of the ID, at the same place in generators of the same widths.\<close>

lemma own_id_fields:
  assumes "own_id g x"
  shows "x div 2 ^ (wB g + sB g) mod 2 ^ dB g = g_datacenterID g \<and> x div 2 ^ sB g mod 2 ^ wB g = g_workerID g"
proof -
  obtain t q where v: "valid_part g (t, g_datacenterID g, g_workerID g, q)"
    and x: "x = encode_part g (t, g_datacenterID g, g_workerID g, q)"
    using assms by (auto simp: own_id_def)
  then have "fields_ok (dB g) (wB g) (sB g) (t - g_customEpoch g) (g_datacenterID g) (g_workerID g) q"
    by (simp add: valid_part_def)
  from packed_fields [OF this] encode_part_packed [OF v] x show ?thesis by simp
qed

lemma own_ids_differ:
  assumes "own_id g1 x1" and "own_id g2 x2" and "dB g1 = dB g2" and "wB g1 = wB g2" and "sB g1 = sB g2"
    and "(g_datacenterID g1, g_workerID g1) \<noteq> (g_datacenterID g2, g_workerID g2)"
  shows "x1 \<noteq> x2"
  using own_id_fields [OF assms(1)] own_id_fields [OF assms(2)] assms(3-6) by auto

end
