(* ===== verification/Plugin_Start.thy ===== *)
theory Plugin_Start
  imports Plugin Own_Ids Worker_Exclusion
begin

text \<open>
  What a start of the plugin does: with automatic registration it ends with a lease on a worker
  ID that the generator carries, or with an error and a manager that keeps the gate shut; and
  it spares what other instances hold in Redis.
\<close>

section \<open>After initialisation\<close>

text \<open>The state that \<open>InitializeResources\<close> leaves for a start with automatic registration.\<close>

definition plugin_ready :: "'b PlugSnowflake \<Rightarrow> EonId \<Rightarrow> WorkerIDManager \<Rightarrow> Generator \<Rightarrow> bool" where
  "plugin_ready p conf m g \<longleftrightarrow> p_conf p = Some conf \<and> p_workerManager p = Some m \<and> p_generator p = Some g \<and>
     p_onWorkerIDChange p \<and> 0 \<le> WorkerIdBits conf \<and> \<not> w_registered m \<and> w_shuttingDown m = 0 \<and>
     w_leaseDeadline m = 0 \<and> w_redisClient m = p_redisClient p \<and>
     w_datacenterID m = DatacenterId conf \<and>
     w_ttl m = (case WorkerIdTtl conf of None \<Rightarrow> DefaultWorkerIDTTL | Some d \<Rightarrow> d) \<and>
     w_healthy m = (if AutoRegisterWorkerId conf then 0 else 1) \<and>
     gen_inv g \<and> g_datacenterID g = DatacenterId conf \<and> g_workerID g = WorkerId conf \<and>
     g_maxWorkerID g = startupMaxWorkerID (WorkerIdBits conf) \<and> \<not> g_isShuttingDown g"

lemma startup_range:
  assumes "gen_layout g" and "0 \<le> bits" and "g_workerIDBits g = (if bits = 0 then 5 else bits)"
  shows "startupMaxWorkerID bits = g_maxWorkerID g"
proof (cases "bits = 0")
  case True
  with assms show ?thesis
    by (simp add: gen_layout_def startupMaxWorkerID_def shl64_def i64_id)
next
  case False
  have b: "1 \<le> g_workerIDBits g" "g_workerIDBits g \<le> 15" using assms(1) by (auto simp: gen_layout_def layout_ok_def)
  then have "i64 (shl64 1 bits - 1) = 2 ^ nat bits - 1" using False assms(3) by (intro shl64_mask) auto
  moreover have "\<not> (2 :: int) ^ nat bits \<le> 1"
    using False assms(2) one_less_power [of "2 :: int" "nat bits"] by linarith
  ultimately show ?thesis using False assms by (simp add: gen_layout_def startupMaxWorkerID_def Let_def)
qed

lemma generator_bits:
  assumes "NewSnowflakeGeneratorCore h dc wk (Some (generatorConfigOf conf)) = Inr g" and "host_sane h"
  shows "0 \<le> WorkerIdBits conf \<and> g_workerIDBits g = (if WorkerIdBits conf = 0 then 5 else WorkerIdBits conf)"
proof -
  note new = new_establishes_inv_aux [OF assms]
  have "1 \<le> g_workerIDBits g" using new by (auto simp: gen_inv_def gen_layout_def layout_ok_def)
  with new show ?thesis by (auto simp: generatorConfigOf_sel split: if_splits)
qed

lemma initialized_ready:
  assumes init: "InitializeResources rt h p0 = (None, p)" and h: "host_sane h"
  shows "\<exists>conf m g. plugin_ready p conf m g \<and> p_base p = p_base p0 \<and> p_stopCleanupOnce p = p_stopCleanupOnce p0"
proof -
  obtain conf c where con: "connectRedis rt (loadedConf (rt_config rt)) (p_redisClient p0) = (conf, c)"
    by (rule prod.exhaust)
  obtain g where gen: "NewSnowflakeGeneratorCore h (DatacenterId conf) (WorkerId conf) (Some (generatorConfigOf conf)) = Inr g"
    and p: "p_generator p = Some g" "p_conf p = Some conf" "p_workerManager p = Some (pluginManager rt c conf)"
      "p_onWorkerIDChange p" "p_redisClient p = c" "p_base p = p_base p0" "p_stopCleanupOnce p = p_stopCleanupOnce p0"
    using init con by (auto simp: InitializeResources_def Let_def split: sum.splits)
  note inv = new_establishes_inv_aux [OF gen h]
  note bits = generator_bits [OF gen h]
  have lay: "gen_layout g" using inv by (simp add: gen_inv_def)
  have "plugin_ready p conf (pluginManager rt c conf) g"
    using bits inv startup_range [OF lay] p
    by (simp add: plugin_ready_def) (simp add: pluginManager_def Let_def)
  with p show ?thesis by blast
qed

section \<open>The environment of a start\<close>

text \<open>The attempt at a specific worker ID, as an attempt of the search.\<close>

definition specific_attempt :: "'r specific_env \<Rightarrow> 'r attempt_env" where
  "specific_attempt e = \<lparr>a_done = False, a_incr = s_setnx e, a_now = s_now e, a_ident = s_ident e,
      a_setnx = s_setnx e, a_sadd = s_sadd e, a_backoffDone = False\<rparr>"

definition all_attempts :: "('r attempt_env \<Rightarrow> bool) \<Rightarrow> 'r start_env \<Rightarrow> bool" where
  "all_attempts P env \<longleftrightarrow> P (specific_attempt (st_specific env)) \<and> (\<forall>k. P (st_attempts env k))"

text \<open>Every attempt reads its clock before the server runs it, ends by \<open>T\<close>, and what it sets is
  kept by the others.\<close>

definition start_ok :: "'r redis \<Rightarrow> codec \<Rightarrow> WorkerIDManager \<Rightarrow> int \<Rightarrow> 'r start_env \<Rightarrow> bool" where
  "start_ok R J m T env \<longleftrightarrow> all_attempts (\<lambda>e. attempt_ok R J m e \<and> c_at (a_sadd e) \<le> T) env"

lemma attempt_ok_cong:
  assumes "w_ttl m' = w_ttl m" and "w_keyPrefix m' = w_keyPrefix m" and "w_datacenterID m' = w_datacenterID m"
  shows "attempt_ok R J m' e = attempt_ok R J m e"
  by (simp add: attempt_ok_def generateInstanceID_def assms)

section \<open>A registration that fails\<close>

lemma registerLoop_failed:
  "registerLoop R J cb env n left i m g r = (Inl err, m', g', r') \<Longrightarrow>
     w_registered m' = w_registered m \<and> g' = g \<and> (w_healthy m \<noteq> 1 \<longrightarrow> w_healthy m' \<noteq> 1)"
proof (induction left arbitrary: i m g r)
  case (Suc left)
  then show ?case
    by (auto simp: Let_def redisResultToInt64_def split: if_splits option.splits prod.splits)
qed auto

lemma RegisterWorkerID_failed:
  "RegisterWorkerID R J cb env maxW m g r = (Inl err, m', g', r') \<Longrightarrow>
     w_registered m' = w_registered m \<and> g' = g \<and> (w_healthy m \<noteq> 1 \<longrightarrow> w_healthy m' \<noteq> 1)"
  using registerLoop_failed [of R J cb env]
  by (fastforce simp: RegisterWorkerID_def Let_def split: if_splits)

lemma registerLoop_maxWorkerID:
  "registerLoop R J cb env n left i m g r = (x, m', g', r') \<Longrightarrow> w_maxWorkerID m' = w_maxWorkerID m"
proof (induction left arbitrary: i m g r)
  case (Suc left)
  then show ?case
    by (auto simp: Let_def registered_as_def setLeaseDeadline_def redisResultToInt64_def
        split: if_splits option.splits prod.splits)
qed auto

lemma RegisterSpecific_failed:
  "RegisterSpecificWorkerID R J e w m r = (Some err, m', r') \<Longrightarrow>
     w_registered m' = w_registered m \<and> (w_healthy m \<noteq> 1 \<longrightarrow> w_healthy m' \<noteq> 1) \<and>
     w_ttl m' = w_ttl m \<and> w_keyPrefix m' = w_keyPrefix m \<and> w_datacenterID m' = w_datacenterID m \<and>
     w_maxWorkerID m' = w_maxWorkerID m"
  by (auto simp: RegisterSpecificWorkerID_def Let_def split: if_splits option.splits prod.splits bool.splits)

section \<open>What a start does\<close>

text \<open>The manager that a start with automatic registration ends with.\<close>

definition started :: "'r redis \<Rightarrow> codec \<Rightarrow> int \<Rightarrow> WorkerIDManager \<Rightarrow> WorkerIDManager \<Rightarrow> 'r \<Rightarrow> bool" where
  "started R J T m m' r' \<longleftrightarrow> w_registered m' \<and> w_healthy m' = 1 \<and> lease_held R J T 0 m' r' \<and>
     (0 < w_ttl m \<longrightarrow> w_leaseDeadline m' \<noteq> 0)"

lemma lease_later: "lease_held R J t slack m r \<Longrightarrow> t \<le> T \<Longrightarrow> lease_held R J T slack m r"
  by (auto simp: lease_held_def)

lemma autoRegister_result:
  assumes R: "redis_server R" and J: "codec_ok J" and new: "\<not> w_registered m" "w_healthy m \<noteq> 1"
    and ok: "\<forall>k. attempt_ok R J m (env k) \<and> c_at (a_sadd (env k)) \<le> T"
    and g: "p_generator p = Some g" and cb: "p_onWorkerIDChange p"
    and run: "autoRegister R J env maxW m p r = (s, p', r')"
  shows "(\<exists>m'. s = StartupOk \<and> p' = p\<lparr>p_workerManager := Some m', p_generator := Some (g\<lparr>g_workerID := w_workerID m'\<rparr>)\<rparr> \<and>
      started R J T m m' r') \<or>
    (\<exists>err m'. s = StartupError err \<and> p' = p\<lparr>p_workerManager := Some m'\<rparr> \<and> \<not> w_registered m' \<and> w_healthy m' \<noteq> 1)"
proof -
  let ?cb = "Some (\<lambda>w. map_option (SetWorkerID w))"
  have cb': "onWorkerIDChange p = ?cb" using cb by (simp add: onWorkerIDChange_def)
  obtain x m' g' r1 where reg: "RegisterWorkerID R J ?cb env maxW m (Some g) r = (x, m', g', r1)" by (rule prod_cases4)
  show ?thesis
  proof (cases x)
    case (Inl err)
    then have f: "\<not> w_registered m' \<and> g' = Some g \<and> w_healthy m' \<noteq> 1"
      using RegisterWorkerID_failed [OF reg [unfolded Inl]] new by simp
    have "p\<lparr>p_workerManager := Some m', p_generator := Some g\<rparr> = p\<lparr>p_workerManager := Some m'\<rparr>" using g by simp
    with f run reg Inl have "s = StartupError err \<and> p' = p\<lparr>p_workerManager := Some m'\<rparr>"
      by (simp add: autoRegister_def cb' g)
    with f show ?thesis by blast
  next
    case (Inr w)
    have "\<forall>k. attempt_ok R J m (env k)" using ok by simp
    from redis_server.RegisterWorkerID_lease [OF R J this new(1) reg [unfolded Inr]] obtain k where
      k: "w_registered m'" "w_workerID m' = w" "w_healthy m' = 1" "w_leaseDeadline m' = wall (a_now (env k)) + w_ttl m"
        "lease_held R J (c_at (a_sadd (env k))) 0 m' r1" "g' = Some (SetWorkerID w g)" by auto
    have "0 \<le> wall (a_now (env k))" "c_at (a_sadd (env k)) \<le> T" using ok by (simp_all add: attempt_ok_def)
    with k lease_later [OF k(5)] have "started R J T m m' r1" by (simp add: started_def)
    moreover have "(SetWorkerID w g)\<lparr>g_workerID := w\<rparr> = g\<lparr>g_workerID := w\<rparr>" by (simp add: SetWorkerID_def)
    ultimately show ?thesis using run reg Inr k by (auto simp: autoRegister_def cb' g)
  qed
qed

lemma startup_result:
  assumes R: "redis_server R" and J: "codec_ok J" and ready: "plugin_ready p conf m g"
    and auto: "AutoRegisterWorkerId conf" "p_redisClient p"
    and ok: "start_ok R J m T env"
    and run: "startupTasksContext R J env p r = (s, p', r')"
  shows "(\<exists>m'. s = StartupOk \<and> p' = p\<lparr>p_workerManager := Some m', p_generator := Some (g\<lparr>g_workerID := w_workerID m'\<rparr>)\<rparr> \<and>
      started R J T m m' r') \<or>
    (\<exists>err m'. s = StartupError err \<and> p' = p\<lparr>p_workerManager := Some m'\<rparr> \<and> \<not> w_registered m' \<and> w_healthy m' \<noteq> 1)"
proof -
  define maxW where "maxW = startupMaxWorkerID (WorkerIdBits conf)"
  define m1 where "m1 = m\<lparr>w_maxWorkerID := maxW\<rparr>"
  have p: "p_conf p = Some conf" "p_workerManager p = Some m" "p_generator p = Some g" "p_onWorkerIDChange p"
    "0 \<le> WorkerIdBits conf" "g_workerID g = WorkerId conf" and m1: "\<not> w_registered m1" "w_healthy m1 \<noteq> 1"
    using ready auto(1) by (simp_all add: plugin_ready_def m1_def)
  have c: "attempt_ok R J m1 e = attempt_ok R J m e" for e
    by (rule attempt_ok_cong) (simp_all add: m1_def)
  have ok1: "attempt_ok R J m1 (specific_attempt (st_specific env))" "c_at (s_sadd (st_specific env)) \<le> T"
    and ok2: "attempt_ok R J m (st_attempts env k) \<and> c_at (a_sadd (st_attempts env k)) \<le> T" for k
    using ok c by (simp_all add: start_ok_def all_attempts_def specific_attempt_def)
  have search: ?thesis if "autoRegister R J (st_attempts env) maxW m2 p r2 = (s, p', r')"
    "\<not> w_registered m2" "w_healthy m2 \<noteq> 1" "w_ttl m2 = w_ttl m" "w_keyPrefix m2 = w_keyPrefix m"
    "w_datacenterID m2 = w_datacenterID m" for m2 r2
  proof -
    have "\<forall>k. attempt_ok R J m2 (st_attempts env k) \<and> c_at (a_sadd (st_attempts env k)) \<le> T"
      using ok2 by (simp add: attempt_ok_cong [OF that(4-6)])
    from autoRegister_result [OF R J that(2,3) this p(3,4) that(1)] that(4) show ?thesis
      by (simp add: started_def)
  qed
  show ?thesis
  proof (cases "WorkerId conf > 0")
    case False
    with run p auto show ?thesis
      by (intro search [of m1 r]) (simp_all add: startupTasksContext_def Let_def maxW_def m1_def plugin_ready_def m1 [unfolded m1_def, simplified])
  next
    case True
    obtain x m2 r2 where sp: "RegisterSpecificWorkerID R J (st_specific env) (WorkerId conf) m1 r = (x, m2, r2)"
      by (rule prod_cases3)
    have body: "(case x of None \<Rightarrow> (StartupOk, p\<lparr>p_workerManager := Some m2\<rparr>, r2)
        | Some err \<Rightarrow> autoRegister R J (st_attempts env) maxW m2 p r2) = (s, p', r')"
      using run p auto True sp by (simp add: startupTasksContext_def Let_def maxW_def m1_def split: option.splits)
    show ?thesis
    proof (cases x)
      case (Some err)
      from RegisterSpecific_failed [OF sp [unfolded Some]] m1 body Some show ?thesis
        by (intro search [of m2 r2]) (simp_all add: m1_def)
    next
      case None
      from redis_server.RegisterSpecificWorkerID_lease [OF R J m1(1) ok1(1) [unfolded specific_attempt_def]
          sp [unfolded None]] ok1
      have "started R J T m m2 r2" "w_workerID m2 = WorkerId conf"
        using lease_later by (auto simp: started_def m1_def attempt_ok_def specific_attempt_def)
      moreover have "p\<lparr>p_workerManager := Some m2\<rparr> =
          p\<lparr>p_workerManager := Some m2, p_generator := Some (g\<lparr>g_workerID := WorkerId conf\<rparr>)\<rparr>"
        using p(3,6) by (cases p; cases g) simp
      ultimately show ?thesis using body None by (intro disjI1 exI [of _ m2]) simp
    qed
  qed
qed


section \<open>A start spares the other instances\<close>

definition start_spares :: "'r redis \<Rightarrow> codec \<Rightarrow> string \<Rightarrow> string \<Rightarrow> int \<Rightarrow> 'r start_env \<Rightarrow> bool" where
  "start_spares R J p inst T env \<longleftrightarrow> all_attempts (spares R J p inst T) env"

context redis_server
begin

lemma RegisterSpecific_keeps:
  assumes run: "RegisterSpecificWorkerID R J e w m r = (x, m', r')"
    and sp: "spares R J (w_keyPrefix m) inst T (specific_attempt e)"
  shows "keeps_mine R J (w_keyPrefix m) inst T r r' \<and> w_keyPrefix m' = w_keyPrefix m \<and>
    w_datacenterID m' = w_datacenterID m"
proof (cases "w < 0 \<or> \<not> w_redisClient m \<or> w_registered m")
  case True
  with run show ?thesis by (auto simp: RegisterSpecificWorkerID_def keeps_mine_refl split: if_splits)
next
  case False
  define m1 where "m1 = m\<lparr>w_instanceID := generateInstanceID m (s_ident e)\<rparr>"
  have m1: "w_keyPrefix m1 = w_keyPrefix m" "w_datacenterID m1 = w_datacenterID m" by (simp_all add: m1_def)
  obtain y r2 where s2: "issue (s_setnx e) (\<lambda>now. SETNX R now (getWorkerKey m1 w)
      (marshal J (newInfo m1 w (s_now e))) (w_ttl m1)) r = (y, r2)" by (rule prod.exhaust)
  have k: "keeps_mine R J (w_keyPrefix m) inst T r r2"
    using sp by (intro keeps_mine_issue [OF s2] setnx_keeps) (simp_all add: spares_def specific_attempt_def)
  obtain ma ga ra where ra: "registered_as R None (specific_attempt e) w m1 () r2 = (ma, ga, ra)" by (rule prod_cases3)
  have k': "keeps_mine R J (w_keyPrefix m) inst T r2 ra"
    using registered_as_keeps [OF ra] sp m1(1) by simp
  show ?thesis
  proof (cases "y = Some True")
    case True
    then have "r' = ra" "w_keyPrefix m' = w_keyPrefix m" "w_datacenterID m' = w_datacenterID m"
      using run False s2 ra m1
      by (auto simp: RegisterSpecificWorkerID_def registered_as_def Let_def m1_def [symmetric]
          specific_attempt_def setLeaseDeadline_def getRegistryKey_def)
    with keeps_mine_trans [OF k k'] show ?thesis by simp
  next
    case False
    have pre: "0 \<le> w" "w_redisClient m" "\<not> w_registered m" using \<open>\<not> (w < 0 \<or> _)\<close> by simp_all
    have run': "(case y of None \<Rightarrow> (Some (SetNXFailed w), m1, r2)
        | Some False \<Rightarrow> (Some (WorkerIDConflictError w (w_datacenterID m1)), m1\<lparr>w_healthy := 0\<rparr>, r2)
        | Some True \<Rightarrow> (x, m', r')) = (x, m', r')"
      using run pre s2 False
      by (simp add: RegisterSpecificWorkerID_def Let_def m1_def [symmetric] split: option.splits bool.splits)
    consider "m' = m1" "r' = r2" | "m' = m1\<lparr>w_healthy := 0\<rparr>" "r' = r2"
    proof (cases y)
      case None
      with run' that(1) show ?thesis by simp
    next
      case (Some b)
      with False run' that(2) show ?thesis by (cases b) simp_all
    qed
    then show ?thesis using k by cases (simp_all add: m1)
  qed
qed

lemma RegisterWorkerID_keeps:
  assumes "RegisterWorkerID R J cb env maxW m g r = (x, m', g', r')"
    and "\<forall>k. spares R J (w_keyPrefix m) inst T (env k)"
  shows "keeps_mine R J (w_keyPrefix m) inst T r r' \<and> w_keyPrefix m' = w_keyPrefix m \<and>
    w_datacenterID m' = w_datacenterID m"
proof -
  consider "r' = r" "w_keyPrefix m' = w_keyPrefix m" "w_datacenterID m' = w_datacenterID m"
    | "registerLoop R J cb env (i64 (maxW + 1)) (nat (i64 (maxW + 1))) 0 (m\<lparr>w_maxWorkerID := maxW\<rparr>) g r = (x, m', g', r')"
    using assms(1) by (auto simp: RegisterWorkerID_def Let_def split: if_splits)
  then show ?thesis
  proof cases
    case 2
    from registerLoop_keeps [OF this] assms(2) show ?thesis by simp
  qed (simp add: keeps_mine_refl)
qed

lemma startup_keeps:
  assumes run: "startupTasksContext R J env p r = (s, p', r')" and m: "p_workerManager p = Some m"
    and sp: "start_spares R J (w_keyPrefix m) inst T env"
  shows "keeps_mine R J (w_keyPrefix m) inst T r r' \<and>
    (\<exists>m'. p_workerManager p' = Some m' \<and> w_keyPrefix m' = w_keyPrefix m \<and> w_datacenterID m' = w_datacenterID m)"
proof -
  let ?goal = "\<lambda>r0. keeps_mine R J (w_keyPrefix m) inst T r0 r' \<and>
    (\<exists>m'. p_workerManager p' = Some m' \<and> w_keyPrefix m' = w_keyPrefix m \<and> w_datacenterID m' = w_datacenterID m)"
  have search: "?goal r2"
    if "autoRegister R J (st_attempts env) maxW m2 p r2 = (s, p', r')"
      "w_keyPrefix m2 = w_keyPrefix m" "w_datacenterID m2 = w_datacenterID m" for maxW m2 r2
  proof -
    obtain x m3 g3 r3 where reg: "RegisterWorkerID R J (onWorkerIDChange p) (st_attempts env) maxW m2 (p_generator p) r2 =
        (x, m3, g3, r3)" by (rule prod_cases4)
    have "\<forall>k. spares R J (w_keyPrefix m2) inst T (st_attempts env k)"
      using sp that(2) by (simp add: start_spares_def all_attempts_def)
    from RegisterWorkerID_keeps [OF reg this] reg that show ?thesis
      by (auto simp: autoRegister_def split: sum.splits)
  qed
  show ?thesis
  proof (cases "p_conf p")
    case None
    with run m show ?thesis by (auto simp: startupTasksContext_def keeps_mine_refl)
  next
    case (Some conf)
    define maxW where "maxW = startupMaxWorkerID (WorkerIdBits conf)"
    define m1 where "m1 = m\<lparr>w_maxWorkerID := maxW\<rparr>"
    obtain x m2 r2 where spec: "RegisterSpecificWorkerID R J (st_specific env) (WorkerId conf) m1 r = (x, m2, r2)"
      by (rule prod_cases3)
    have k: "keeps_mine R J (w_keyPrefix m) inst T r r2 \<and> w_keyPrefix m2 = w_keyPrefix m \<and>
        w_datacenterID m2 = w_datacenterID m"
      using RegisterSpecific_keeps [OF spec, of inst T] sp by (simp add: start_spares_def all_attempts_def m1_def)
    consider (idle) "r' = r" "p' = p" | (fixed) "x = None" "p' = p\<lparr>p_workerManager := Some m2\<rparr>" "r' = r2"
      | (fallback) "autoRegister R J (st_attempts env) maxW m2 p r2 = (s, p', r')"
      | (scan) "autoRegister R J (st_attempts env) maxW m1 p r = (s, p', r')"
      using run m Some spec
      by (auto simp: startupTasksContext_def Let_def maxW_def m1_def split: if_splits option.splits)
    then show ?thesis
    proof cases
      case idle
      with m show ?thesis by (simp add: keeps_mine_refl)
    next
      case fixed
      with k show ?thesis by simp
    next
      case fallback
      with search [of maxW m2 r2] k have s: "?goal r2" by blast
      from keeps_mine_trans [OF conjunct1 [OF k] conjunct1 [OF s]] s show ?thesis by blast
    next
      case scan
      with search [of maxW m1 r] show ?thesis by (simp add: m1_def)
    qed
  qed
qed

end

end
