(* ===== verification/Plugin_Demo.thy ===== *)
theory Plugin_Demo
  imports Plugin_Start Worker_Demo
begin

text \<open>
  Two instances of the plugin on the in-memory server, for the witnesses: both are initialised
  with one configuration, the first starts at the beginning, the second a second later.
\<close>

definition demo_conf :: EonId where
  "demo_conf = zero_EonId\<lparr>DatacenterId := 3, AutoRegisterWorkerId := True, RedisKeyPrefix := ''eon'',
     WorkerIdTtl := Some (10 * Second)\<rparr>"

definition demo_rt :: runtime where
  "demo_rt = \<lparr>rt_config = Some (Some demo_conf),
     rt_GetSharedResource = (\<lambda>name. if name = ''redis.client'' then Some ClientResource else None),
     rt_addrs = None, rt_app = None\<rparr>"

text \<open>The base plugin as a status and the events so far.\<close>

definition demo_base :: "(plugin_status \<times> plugin_event list) base_plugin" where
  "demo_base = \<lparr>Status = fst, SetStatus = (\<lambda>s b. (s, snd b)), EmitEvent = (\<lambda>e b. (fst b, snd b @ [e]))\<rparr>"

lemma demo_base_ok: "base_ok demo_base"
  by (simp add: base_ok_def demo_base_def)

type_synonym demo_plugin = "(plugin_status \<times> plugin_event list) PlugSnowflake"

definition demo_p0 :: demo_plugin where
  "demo_p0 = snd (InitializeResources demo_rt demo_host (NewSnowflakePlugin (StatusOther, [])))"

lemma demo_init_ok: "fst (InitializeResources demo_rt demo_host (NewSnowflakePlugin (StatusOther, []))) = None"
  by code_simp

lemma demo_init: "InitializeResources demo_rt demo_host (NewSnowflakePlugin (StatusOther, [])) = (None, demo_p0)"
  using demo_init_ok by (simp add: demo_p0_def prod_eq_iff)

definition demo_pm :: WorkerIDManager where "demo_pm = the (p_workerManager demo_p0)"
definition demo_pg :: Generator where "demo_pg = the (p_generator demo_p0)"

lemma demo_ready: "plugin_ready demo_p0 demo_conf demo_pm demo_pg"
proof -
  have "p_conf demo_p0 = Some demo_conf"
    by (simp add: demo_p0_def InitializeResources_def demo_rt_def loadedConf_def connectRedis_def demo_conf_def
        zero_EonId_def resolveRedisClientResource_def resourceCandidates_def RedisLegacyResourceName_def
        RedisPluginName_const_def Let_def split: sum.splits)
  with initialized_ready [OF demo_init demo_sane] show ?thesis
    by (auto simp: plugin_ready_def demo_pm_def demo_pg_def)
qed

lemma demo_p0_facts: "p_redisClient demo_p0" "AutoRegisterWorkerId demo_conf" "w_ttl demo_pm = 10 * Second"
  "w_keyPrefix demo_pm = ''eon:''" "w_datacenterID demo_pm = 3" "WorkerId demo_conf = 0"
  "WorkerIdBits demo_conf = 0" "g_workerID demo_pg = 0"
  by (code_simp+)

text \<open>The start of the process \<open>pid\<close> at \<open>ms\<close>, with no interference.\<close>

definition demo_start :: "int \<Rightarrow> int \<Rightarrow> mem start_env" where
  "demo_start pid ms = \<lparr>st_specific = \<lparr>s_now = reading (at_ms ms - 1) (ms * Millisecond), s_ident = demo_ident pid,
      s_setnx = arrives (at_ms ms), s_sadd = arrives (at_ms ms)\<rparr>, st_attempts = demo_attempt pid ms\<rparr>"

lemma demo_specific: "specific_attempt (st_specific (demo_start pid ms)) = demo_attempt pid ms 0"
  by (simp add: specific_attempt_def demo_start_def demo_attempt_def)

lemma demo_start_ok:
  assumes "0 \<le> ms" and "ms < 1000000" and "w_ttl m = 10 * Second"
  shows "start_ok R J m (at_ms ms) (demo_start pid ms)"
  using demo_attempt_ok [OF assms]
  by (simp add: start_ok_def all_attempts_def demo_specific) (simp add: demo_start_def demo_attempt_def arrives_def)

lemma demo_start_spares: "start_spares R J p inst (at_ms ms) (demo_start pid ms)"
  by (simp add: start_spares_def all_attempts_def demo_specific)
     (simp add: demo_start_def spares_def demo_attempt_def arrives_def keeps_mine_refl)

text \<open>The two starts.\<close>

definition demo_run1 :: "startup \<times> demo_plugin \<times> mem" where
  "demo_run1 = startupTasksContext mem_redis demo_codec (demo_start 1 0) demo_p0 mem_empty"

definition demo_run2 :: "startup \<times> demo_plugin \<times> mem" where
  "demo_run2 = startupTasksContext mem_redis demo_codec (demo_start 2 1000) demo_p0 (snd (snd demo_run1))"

definition demo_p1 :: demo_plugin where "demo_p1 = fst (snd demo_run1)"
definition demo_p2 :: demo_plugin where "demo_p2 = fst (snd demo_run2)"
definition demo_pm1 :: WorkerIDManager where "demo_pm1 = the (p_workerManager demo_p1)"
definition demo_pm2 :: WorkerIDManager where "demo_pm2 = the (p_workerManager demo_p2)"
definition demo_pg1 :: Generator where "demo_pg1 = the (p_generator demo_p1)"

lemma demo_runs_ok: "fst demo_run1 = StartupOk" "fst demo_run2 = StartupOk"
  by (code_simp+)

lemma demo_pm1_facts: "w_workerID demo_pm1 = 0 \<and> w_leaseDeadline demo_pm1 = at_ms 10000 - 1 \<and>
    w_instanceID demo_pm1 = ''instance-1-3-1-0-5'' \<and> w_keyPrefix demo_pm1 = ''eon:'' \<and> w_datacenterID demo_pm1 = 3"
  by code_simp

lemma demo_pm2_facts: "w_workerID demo_pm2 = 1 \<and> w_instanceID demo_pm2 = ''instance-1-3-2-0-5''"
  by code_simp

lemma demo_started1:
  "p_workerManager demo_p1 = Some demo_pm1" "p_generator demo_p1 = Some demo_pg1" "gen_inv demo_pg1"
  "g_workerID demo_pg1 = w_workerID demo_pm1" "shape demo_pg1 = shape demo_pg"
  "lease_held mem_redis demo_codec (at_ms 0) 0 demo_pm1 (snd (snd demo_run1))"
proof -
  have run: "startupTasksContext mem_redis demo_codec (demo_start 1 0) demo_p0 mem_empty =
      (StartupOk, demo_p1, snd (snd demo_run1))"
    using demo_runs_ok(1) by (simp add: demo_p1_def demo_run1_def [symmetric] prod_eq_iff)
  have ok: "start_ok mem_redis demo_codec demo_pm (at_ms 0) (demo_start 1 0)"
    using demo_start_ok demo_p0_facts(3) by simp
  from startup_result [OF mem.redis_server_axioms demo_codec_ok demo_ready demo_p0_facts(2,1) ok run]
  obtain m' where m': "demo_p1 = demo_p0\<lparr>p_workerManager := Some m',
      p_generator := Some (demo_pg\<lparr>g_workerID := w_workerID m'\<rparr>)\<rparr>"
    "started mem_redis demo_codec (at_ms 0) demo_pm m' (snd (snd demo_run1))" by auto
  have eq: "m' = demo_pm1" "demo_pg1 = demo_pg\<lparr>g_workerID := w_workerID demo_pm1\<rparr>"
    by (simp_all add: demo_pm1_def demo_pg1_def m'(1))
  note p1 = m'(1) [unfolded eq(1)]
  have "started mem_redis demo_codec (at_ms 0) demo_pm demo_pm1 (snd (snd demo_run1))" using m'(2) eq(1) by simp
  then show "p_workerManager demo_p1 = Some demo_pm1" "p_generator demo_p1 = Some demo_pg1"
    "lease_held mem_redis demo_codec (at_ms 0) 0 demo_pm1 (snd (snd demo_run1))"
    "g_workerID demo_pg1 = w_workerID demo_pm1" "shape demo_pg1 = shape demo_pg"
    by (simp_all add: started_def shape_def p1 eq(2))
  have "gen_inv demo_pg" using demo_ready by (simp add: plugin_ready_def)
  moreover have "demo_pg1 = demo_pg\<lparr>g_workerID := g_workerID demo_pg\<rparr>"
    unfolding eq(2) demo_p0_facts(8) using demo_pm1_facts by simp
  ultimately show "gen_inv demo_pg1" by simp
qed

lemma demo_run2_eq: "startupTasksContext mem_redis demo_codec (demo_start 2 1000) demo_p0 (snd (snd demo_run1)) =
    (StartupOk, demo_p2, snd (snd demo_run2))"
  using demo_runs_ok(2) by (simp add: demo_p2_def demo_run2_def [symmetric] prod_eq_iff)

lemma demo_p2_manager: "p_workerManager demo_p2 = Some demo_pm2"
proof -
  have ok: "start_ok mem_redis demo_codec demo_pm (at_ms 1000) (demo_start 2 1000)"
    using demo_start_ok demo_p0_facts(3) by simp
  from startup_result [OF mem.redis_server_axioms demo_codec_ok demo_ready demo_p0_facts(2,1) ok demo_run2_eq]
  obtain m' where m': "demo_p2 = demo_p0\<lparr>p_workerManager := Some m',
      p_generator := Some (demo_pg\<lparr>g_workerID := w_workerID m'\<rparr>)\<rparr>" by auto
  show ?thesis by (simp add: demo_pm2_def m')
qed

text \<open>A call at \<open>ms\<close> that succeeds at once.\<close>

definition demo_iteration :: "int \<Rightarrow> nat \<Rightarrow> iteration" where
  "demo_iteration ms i = \<lparr>it_before = [], it_between = [], it_now = demo_time ms, it_check = demo_time ms,
     it_after = [], it_done = demo_time ms, it_metricsNow = demo_time ms, it_budget = demo_time ms,
     it_until = demo_time ms\<rparr>"

definition demo_call_at :: "int \<Rightarrow> demo_plugin \<Rightarrow> ((plugin_error, int) result option \<times> demo_plugin) option" where
  "demo_call_at ms p = plugin_GenerateID 1 (demo_iteration ms) (demo_time ms) (demo_time ms) p"

lemma demo_calls:
  "map_option fst (demo_call_at 2000 demo_p1) = Some (Some (Inr 379755647992201216))"
  "map_option fst (demo_call_at 2000 demo_p2) = Some (Some (Inr 379755647992205312))"
  by (code_simp+)

lemma demo_calls_eq:
  "\<exists>q. plugin_GenerateID 1 (demo_iteration 2000) (demo_time 2000) (demo_time 2000) demo_p1 =
     Some (Some (Inr 379755647992201216), q)"
  "\<exists>q. plugin_GenerateID 1 (demo_iteration 2000) (demo_time 2000) (demo_time 2000) demo_p2 =
     Some (Some (Inr 379755647992205312), q)"
  using demo_calls by (auto simp: demo_call_at_def)

lemma demo_pg_layout: "g_customEpoch demo_pg = 1609459200000" "dB demo_pg + wB demo_pg + sB demo_pg = 22"
  by (code_simp+)

lemma demo_iteration_ok:
  assumes "0 \<le> ms" and "ms < 1000000000" and "shape g = shape demo_pg"
  shows "\<forall>j < n. keeps_worker (iteration_ops (demo_iteration ms j)) \<and>
    (\<forall>op \<in> set (iteration_ops (demo_iteration ms j)). reading_ok g op)"
proof -
  have "reading_ok demo_pg (Attempt (demo_time ms) (demo_time ms))"
    using assms(1,2)
    by (simp add: reading_ok_def demo_timestamp in_lifetime_def demo_pg_layout clock_sane_def)
       (simp add: demo_time_def)
  then show ?thesis
    using reading_ok_shape [OF assms(3)] by (simp add: iteration_ops_def demo_iteration_def keeps_worker_def)
qed

end
