(* ===== verification/Plugin_Ops.thy ===== *)
theory Plugin_Ops
  imports Plugin_Start
begin

text \<open>
  Runs of the plugin: starts, stops, clean-ups, calls, new configurations and heartbeats in any
  order, without a new initialisation; and what no such run undoes.
\<close>

section \<open>What the callback keeps\<close>

definition cb_keeps :: "('g \<Rightarrow> bool) \<Rightarrow> (int \<Rightarrow> 'g \<Rightarrow> 'g) option \<Rightarrow> bool" where
  "cb_keeps P cb \<longleftrightarrow> (case cb of None \<Rightarrow> True | Some f \<Rightarrow> \<forall>w g. P g \<longrightarrow> P (f w g))"

lemma registered_as_g:
  "registered_as R cb e w m g r = (m', g', r') \<Longrightarrow> cb_keeps P cb \<Longrightarrow> P g \<Longrightarrow> P g'"
  by (auto simp: registered_as_def Let_def cb_keeps_def split: option.splits)

lemma registerLoop_g:
  "registerLoop R J cb env n left i m g r = (x, m', g', r') \<Longrightarrow> cb_keeps P cb \<Longrightarrow> P g \<Longrightarrow> P g'"
proof (induction left arbitrary: i m g r)
  case (Suc left)
  then show ?case
    by (auto simp: Let_def redisResultToInt64_def split: if_splits option.splits prod.splits dest: registered_as_g)
qed simp

lemma RegisterWorkerID_g:
  "RegisterWorkerID R J cb env maxW m g r = (x, m', g', r') \<Longrightarrow> cb_keeps P cb \<Longrightarrow> P g \<Longrightarrow> P g'"
  by (auto simp: RegisterWorkerID_def Let_def split: if_splits dest: registerLoop_g)

lemma attemptRegisterFresh_g:
  "attemptRegisterFresh R J cb shut env maxW left i err m g r = (x, sl, m', g', r') \<Longrightarrow> cb_keeps P cb \<Longrightarrow> P g \<Longrightarrow> P g'"
proof (induction left arbitrary: i err m g r sl)
  case (Suc left)
  define m1 where "m1 = (if shut i then m\<lparr>w_shuttingDown := 1\<rparr> else m)"
  obtain y ma ga ra where reg: "RegisterWorkerID R J cb (env i) maxW m1 g r = (y, ma, ga, ra)" by (rule prod_cases4)
  have ga: "P ga" using RegisterWorkerID_g [OF reg] Suc.prems by blast
  show ?case
  proof (cases y)
    case (Inl e)
    obtain res2 sl2 m2 g2 r2 where rec:
      "attemptRegisterFresh R J cb shut env maxW left (Suc i) (Some e) ma ga ra = (res2, sl2, m2, g2, r2)"
      by (rule prod_cases5)
    consider "g' = g" | "res2 = x" "m2 = m'" "g2 = g'" "r2 = r'"
      using Suc.prems(1) reg rec Inl by (auto simp: Let_def m1_def [symmetric] split: if_splits)
    then show ?thesis
    proof cases
      case 2
      from Suc.IH [OF rec [unfolded 2] Suc.prems(2) ga] show ?thesis .
    qed (use Suc.prems(3) in simp)
  next
    case (Inr w)
    with Suc.prems reg ga show ?thesis by (auto simp: Let_def m1_def [symmetric] split: if_splits)
  qed
qed simp

lemma reacquire_g:
  "reacquireFreshWorkerID R J cb shut env w m g r = (x, m', g', r') \<Longrightarrow> cb_keeps P cb \<Longrightarrow> P g \<Longrightarrow> P g'"
  by (auto simp: reacquireFreshWorkerID_def Let_def split: if_splits prod.splits sum.splits dest: attemptRegisterFresh_g)

lemma tryReRegister_g:
  "tryReRegister R J cb e m g r = (x, m', g', r') \<Longrightarrow> cb_keeps P cb \<Longrightarrow> P g \<Longrightarrow> P g'"
  by (auto simp: tryReRegister_def split: if_splits prod.splits sum.splits dest: reacquire_g)

lemma heartbeatTick_g:
  "heartbeatTick R J cb e e' k m g r = (k', m', g', r') \<Longrightarrow> cb_keeps P cb \<Longrightarrow> P g \<Longrightarrow> P g'"
  by (auto simp: heartbeatTick_def Let_def split: if_splits prod.splits option.splits dest: tryReRegister_g)

section \<open>Runs\<close>

datatype 'r plugin_op =
  PConfigure any_config
| PStart bool "'r start_env"
| PStartup "'r start_env"
| PStop bool string "'r unregister_env"
| PCleanup "'r unregister_env"
| PGenerate nat "nat \<Rightarrow> iteration" time time
| PHeartbeat "'r beat_env" "'r rereg_env" int

fun pstep :: "'b base_plugin \<Rightarrow> 'r redis \<Rightarrow> codec \<Rightarrow> 'r plugin_op \<Rightarrow> 'b PlugSnowflake \<Rightarrow> 'r \<Rightarrow> 'b PlugSnowflake \<times> 'r" where
  "pstep B R J (PConfigure config) p r = (snd (UpdateConfiguration config p), r)"
| "pstep B R J (PStart ctxErr env) p r = snd (StartContext B R J ctxErr env p r)"
| "pstep B R J (PStartup env) p r = snd (StartupTasks R J env p r)"
| "pstep B R J (PStop ctxErr source env) p r = snd (stopWithContext B R J ctxErr source env p r)"
| "pstep B R J (PCleanup env) p r = snd (CleanupTasks R J env p r)"
| "pstep B R J (PGenerate fuel env now startTime) p r =
     ((case plugin_GenerateID fuel env now startTime p of None \<Rightarrow> p | Some (x, p) \<Rightarrow> p), r)"
| "pstep B R J (PHeartbeat e e' k) p r =
     (case p_workerManager p of None \<Rightarrow> (p, r)
      | Some m \<Rightarrow> (case heartbeatTick R J (onWorkerIDChange p) e e' k m (p_generator p) r of
          (k', m, g, r) \<Rightarrow> (p\<lparr>p_workerManager := Some m, p_generator := g\<rparr>, r)))"

fun prun :: "'b base_plugin \<Rightarrow> 'r redis \<Rightarrow> codec \<Rightarrow> 'r plugin_op list \<Rightarrow> 'b PlugSnowflake \<Rightarrow> 'r \<Rightarrow> 'b PlugSnowflake \<times> 'r" where
  "prun B R J [] p r = (p, r)"
| "prun B R J (op # ops) p r = (case pstep B R J op p r of (p, r) \<Rightarrow> prun B R J ops p r)"

section \<open>A generator that was shut down\<close>

definition silent_gen :: "Generator option \<Rightarrow> bool" where
  "silent_gen gen \<longleftrightarrow> (case gen of None \<Rightarrow> True | Some g \<Rightarrow> g_isShuttingDown g \<and> g_isShuttingDownAtomic g \<noteq> 0)"

lemma silent_callback: "cb_keeps silent_gen (onWorkerIDChange p)"
  by (auto simp: cb_keeps_def onWorkerIDChange_def silent_gen_def SetWorkerID_def split: option.splits)

lemma others_silent:
  "g_isShuttingDown g \<Longrightarrow> g_isShuttingDownAtomic g \<noteq> 0 \<Longrightarrow>
     g_isShuttingDown (others ops g) \<and> g_isShuttingDownAtomic (others ops g) \<noteq> 0"
proof (induction ops arbitrary: g)
  case Nil
  then show ?case by (simp add: others_def)
next
  case (Cons op ops)
  obtain x g' where st: "gstep op g = (x, g')" by (rule prod.exhaust)
  then have "g_isShuttingDown g' \<and> g_isShuttingDownAtomic g' \<noteq> 0"
    using Cons.prems
    by (cases op) (auto simp: gstep_def shut_down_attempt SetWorkerID_def Shutdown_def onMetrics_def split: if_splits)
  with Cons.IH [of g'] st show ?case by (simp add: others_def grun_Cons del: grun.simps(2))
qed

lemma GenerateID_silent:
  assumes "g_isShuttingDown g" and "g_isShuttingDownAtomic g \<noteq> 0" and "GenerateID fuel env t i g = Some (x, sl, g')"
  shows "x = Some (Inl GeneratorShuttingDown) \<and> g_isShuttingDown g' \<and> g_isShuttingDownAtomic g' \<noteq> 0"
proof (cases fuel)
  case 0
  with assms(3) show ?thesis by simp
next
  case (Suc n)
  with assms(3) others_silent [OF assms(1,2), of "it_before (env i)"] show ?thesis
    by (auto simp: loopBody_def Let_def onMetrics_def)
qed

lemma plugin_call_silent:
  assumes "silent_gen (p_generator p)" and "plugin_GenerateID fuel env now t p = Some (x, p')"
  shows "(\<forall>y. x \<noteq> Some (Inr y)) \<and> silent_gen (p_generator p')"
  using assms
  by (auto simp: plugin_GenerateID_def gate_def Let_def silent_gen_def
      split: option.splits prod.splits sum.splits if_splits dest: GenerateID_silent)

lemma autoRegister_silent:
  assumes "autoRegister R J env maxW m p r = (s, p', r')" and "silent_gen (p_generator p)"
  shows "silent_gen (p_generator p')"
proof -
  obtain x m' g' r1 where reg: "RegisterWorkerID R J (onWorkerIDChange p) env maxW m (p_generator p) r = (x, m', g', r1)"
    by (rule prod_cases4)
  from RegisterWorkerID_g [OF reg silent_callback assms(2)] assms(1) reg show ?thesis
    by (auto simp: autoRegister_def silent_gen_def split: sum.splits option.splits)
qed

lemma startup_silent:
  assumes "startupTasksContext R J env p r = (s, p', r')" and "silent_gen (p_generator p)"
  shows "silent_gen (p_generator p')"
  using assms autoRegister_silent
  by (fastforce simp: startupTasksContext_def Let_def split: option.splits if_splits prod.splits)

lemma cleanup_silent:
  assumes "cleanupTasksContext R J env p r = (err, p', r')"
    and "silent_gen (p_generator p) \<or>
      \<not> p_stopCleanupOnce p \<and> (case p_generator p of None \<Rightarrow> True | Some g \<Rightarrow> \<not> g_isShuttingDown g)"
  shows "silent_gen (p_generator p')"
  using assms
  by (auto simp: cleanupTasksContext_def doStopCleanupContext_def Let_def silent_gen_def Shutdown_def
      split: option.splits prod.splits if_splits)

lemma onBase_generator [simp]:
  "p_generator (onBase f p) = p_generator p" "p_workerManager (onBase f p) = p_workerManager p"
  "p_stopCleanupOnce (onBase f p) = p_stopCleanupOnce p" "p_conf (onBase f p) = p_conf p"
  "p_redisClient (onBase f p) = p_redisClient p" "p_onWorkerIDChange (onBase f p) = p_onWorkerIDChange p"
  "p_base (onBase f p) = f (p_base p)"
  by (simp_all add: onBase_def)

lemma pstep_silent:
  assumes "silent_gen (p_generator p)" and "pstep B R J op p r = (p', r')"
  shows "silent_gen (p_generator p')"
proof (cases op)
  case (PConfigure c)
  with assms show ?thesis by (auto simp: UpdateConfiguration_def split: any_config.splits)
next
  case (PStart ctxErr env)
  with assms show ?thesis
    by (auto simp: StartContext_def Let_def split: if_splits prod.splits startup.splits option.splits dest: startup_silent)
next
  case (PStartup env)
  with assms show ?thesis
    by (cases "startupTasksContext R J env p r") (auto simp: StartupTasks_def dest: startup_silent)
next
  case (PStop ctxErr source env)
  with assms show ?thesis
    by (auto simp: stopWithContext_def Let_def split: if_splits prod.splits option.splits dest: cleanup_silent)
next
  case (PCleanup env)
  with assms show ?thesis
    by (cases "cleanupTasksContext R J env p r") (auto simp: CleanupTasks_def dest: cleanup_silent)
next
  case (PGenerate fuel env now startTime)
  with assms show ?thesis by (auto split: option.splits prod.splits dest: plugin_call_silent)
next
  case (PHeartbeat e e' k)
  with assms show ?thesis
    by (auto split: option.splits prod.splits dest: heartbeatTick_g [OF _ silent_callback])
qed

lemma prun_silent:
  "silent_gen (p_generator p) \<Longrightarrow> silent_gen (p_generator (fst (prun B R J ops p r)))"
proof (induction ops arbitrary: p r)
  case (Cons op ops)
  obtain p' r' where st: "pstep B R J op p r = (p', r')" by (rule prod.exhaust)
  from Cons.IH [OF pstep_silent [OF Cons.prems st]] st show ?case by simp
qed simp

end
