(* ===== verification/Plugin_Props.thy ===== *)
theory Plugin_Props
  imports Plugin_Demo Plugin_Ops Worker_Props
begin

text \<open>
  The properties of the plugin as a whole: two instances never return the same ID while both
  hold their leases, a start ends registered or with the gate shut, and a stop is final.
\<close>

section \<open>Two instances\<close>

lemma gate_passed:
  assumes "plugin_GenerateID fuel env now startTime p = Some (Some (Inr x), p')"
    and "p_generator p = Some g" and "p_workerManager p = Some m"
  shows "fst (worker_IsHealthy now m)" and "\<exists>sleeps g'. GenerateID fuel env startTime 0 g = Some (Some (Inr x), sleeps, g')"
  using assms
  by (auto simp: plugin_GenerateID_def gate_def Let_def split: prod.splits if_splits option.splits sum.splits)

lemma worker_in_range:
  assumes "gen_inv g" and "0 \<le> w" and "w \<le> g_maxWorkerID g"
  shows "gen_inv (g\<lparr>g_workerID := w\<rparr>)"
  using SetWorkerID_inv [OF assms(1), of w] assms(2,3) by (simp add: SetWorkerID_def)

lemma worker_shape: "shape (g\<lparr>g_workerID := w\<rparr>) = shape g"
  by (simp add: shape_def)

lemma started_ids_differ:
  assumes R: "redis_server R" and J: "codec_ok J"
    and one: "p_generator p1 = Some g1" "gen_inv g1" "g_workerID g1 = w_workerID m1"
      "p_workerManager p1 = Some m1" "lease_held R J t1 slack m1 r" "t1 \<le> T"
    and ready: "plugin_ready p2 conf m2 g2" and auto: "AutoRegisterWorkerId conf" "p_redisClient p2"
    and ttl: "0 < w_ttl m2"
    and start: "startupTasksContext R J env p2 r = (StartupOk, p2', r')" "start_ok R J m2 T env"
      "start_spares R J (w_keyPrefix m1) (w_instanceID m1) T env"
    and same: "w_keyPrefix m2 = w_keyPrefix m1" "w_datacenterID m2 = w_datacenterID m1"
      "dB g2 = dB g1" "wB g2 = wB g1" "sB g2 = sB g1"
    and two: "p_workerManager p2' = Some m2'" "w_instanceID m2' \<noteq> w_instanceID m1"
      "0 \<le> w_workerID m2'" "w_workerID m2' \<le> g_maxWorkerID g2"
    and now: "T \<le> UnixNano now2" "UnixNano now2 \<le> w_leaseDeadline m1 - slack"
    and call1: "plugin_GenerateID fuel1 env1 now1 start1 p1 = Some (Some (Inr x1), q1)"
      "\<forall>j < fuel1. keeps_worker (iteration_ops (env1 j)) \<and> (\<forall>op \<in> set (iteration_ops (env1 j)). reading_ok g1 op)"
    and call2: "plugin_GenerateID fuel2 env2 now2 start2 p2' = Some (Some (Inr x2), q2)"
      "\<forall>j < fuel2. keeps_worker (iteration_ops (env2 j)) \<and> (\<forall>op \<in> set (iteration_ops (env2 j)). reading_ok g2 op)"
  shows "x1 \<noteq> x2"
proof -
  define g2' where "g2' = g2\<lparr>g_workerID := w_workerID m2'\<rparr>"
  have p2: "p_workerManager p2 = Some m2" "gen_inv g2" using ready by (simp_all add: plugin_ready_def)
  from startup_result [OF R J ready auto start(2,1)] two(1)
  have s: "started R J T m2 m2' r'" and g2': "p_generator p2' = Some g2'" by (auto simp: g2'_def)
  have sp: "start_spares R J (w_keyPrefix m2) (w_instanceID m1) T env" using start(3) same(1) by simp
  note k = redis_server.startup_keeps [OF R start(1) p2(1) sp]
  have l1: "lease_held R J T slack m1 r'" using lease_kept [OF one(5) _ one(6)] k same(1) by simp
  have frame: "w_keyPrefix m2' = w_keyPrefix m1" "w_datacenterID m2' = w_datacenterID m1" using k two(1) same by auto
  note g1 = gate_passed [OF call1(1) one(1,4)] and g2 = gate_passed [OF call2(1) g2' two(1)]
  have "UnixNano now2 \<le> w_leaseDeadline m2' - 0"
    using worker_IsHealthy_lease [OF g2(1)] s ttl by (simp add: started_def)
  from leases_disjoint [OF _ l1 now(1) this now(2) two(2) frame] s
  have differ: "w_workerID m2' \<noteq> w_workerID m1" by (simp add: started_def)
  have inv2: "gen_inv g2'" using worker_in_range [OF p2(2) two(3,4)] by (simp add: g2'_def)
  have sh: "shape g2' = shape g2" by (simp add: g2'_def worker_shape)
  have "own_id g1 x1" using g1(2) GenerateID_own [OF one(2), of 0 fuel1 env1] call1(2) by auto
  moreover have "own_id g2' x2"
    using g2(2) GenerateID_own [OF inv2, of 0 fuel2 env2] call2(2) reading_ok_shape [OF sh] by auto
  moreover have "g_workerID g2' = w_workerID m2'" by (simp add: g2'_def)
  ultimately show ?thesis
    using own_ids_differ differ one(3) same(3-5) same_shape(10-12) [OF sh] by (metis prod.inject)
qed

text \<open>C2: Two instances of the plugin never return the same ID. While the first one's lease runs, a
  second instance with the same layout, prefix and datacenter is initialised and started against
  the same Redis, with automatic registration, any interference that leaves the first one's keys
  alone, and by way of its configured worker ID or of the search. Then every ID that the first
  one returns differs from every ID that the second one returns once it has passed its gate at
  an instant at which the first lease still runs, whatever their clocks read, as long as
  neither takes a new worker ID during its call.\<close>

theorem plugins_never_collide:
  assumes "redis_server R" and "codec_ok J"
    and "p_generator p1 = Some g1" and "gen_inv g1" and "g_workerID g1 = w_workerID m1"
    and "p_workerManager p1 = Some m1" and "lease_held R J t1 slack m1 r" and "t1 \<le> T"
    and "InitializeResources rt h p0 = (None, p2)" and "host_sane h"
    and "p_conf p2 = Some conf" and "AutoRegisterWorkerId conf" and "p_redisClient p2"
    and "p_workerManager p2 = Some m2" and "p_generator p2 = Some g2" and "0 < w_ttl m2"
    and "startupTasksContext R J env p2 r = (StartupOk, p2', r')" and "start_ok R J m2 T env"
    and "start_spares R J (w_keyPrefix m1) (w_instanceID m1) T env"
    and "w_keyPrefix m2 = w_keyPrefix m1" and "w_datacenterID m2 = w_datacenterID m1"
    and "dB g2 = dB g1" and "wB g2 = wB g1" and "sB g2 = sB g1"
    and "p_workerManager p2' = Some m2'" and "w_instanceID m2' \<noteq> w_instanceID m1"
    and "0 \<le> w_workerID m2'" and "w_workerID m2' \<le> g_maxWorkerID g2"
    and "T \<le> UnixNano now2" and "UnixNano now2 \<le> w_leaseDeadline m1 - slack"
    and "plugin_GenerateID fuel1 env1 now1 start1 p1 = Some (Some (Inr x1), q1)"
    and "\<forall>j < fuel1. keeps_worker (iteration_ops (env1 j)) \<and> (\<forall>op \<in> set (iteration_ops (env1 j)). reading_ok g1 op)"
    and "plugin_GenerateID fuel2 env2 now2 start2 p2' = Some (Some (Inr x2), q2)"
    and "\<forall>j < fuel2. keeps_worker (iteration_ops (env2 j)) \<and> (\<forall>op \<in> set (iteration_ops (env2 j)). reading_ok g2 op)"
  shows "x1 \<noteq> x2"
proof -
  from initialized_ready [OF assms(9,10)] assms(11,14,15) have ready: "plugin_ready p2 conf m2 g2"
    by (auto simp: plugin_ready_def)
  show ?thesis by (rule started_ids_differ [OF assms(1-8) ready assms(12,13,16-34)])
qed


lemma demo_dims: "p_workerManager demo_p0 = Some demo_pm" "p_generator demo_p0 = Some demo_pg"
  "p_conf demo_p0 = Some demo_conf"
  using demo_ready by (simp_all add: plugin_ready_def)

lemma plugins_never_collide_witness:
  "map_option fst (demo_call_at 2000 demo_p1) \<noteq> map_option fst (demo_call_at 2000 demo_p2)"
proof -
  obtain q1 q2 where calls:
    "plugin_GenerateID 1 (demo_iteration 2000) (demo_time 2000) (demo_time 2000) demo_p1 =
       Some (Some (Inr 379755647992201216), q1)"
    "plugin_GenerateID 1 (demo_iteration 2000) (demo_time 2000) (demo_time 2000) demo_p2 =
       Some (Some (Inr 379755647992205312), q2)" using demo_calls_eq by blast
  note w = same_shape(10-12) [OF demo_started1(5)]
  have max: "g_maxWorkerID demo_pg = 31" by code_simp
  have "(379755647992201216 :: int) \<noteq> 379755647992205312"
  proof (rule plugins_never_collide [OF mem.redis_server_axioms demo_codec_ok demo_started1(2,3,4,1,6) _ demo_init demo_sane
        demo_dims(3) demo_p0_facts(2,1) demo_dims(1,2) _ demo_run2_eq _ demo_start_spares _ _ _ _ _ demo_p2_manager
        _ _ _ _ _ calls(1) _ calls(2)])
    show "start_ok mem_redis demo_codec demo_pm (at_ms 1000) (demo_start 2 1000)"
      using demo_start_ok demo_p0_facts(3) by simp
    show "at_ms 1000 \<le> UnixNano (demo_time 2000)" "UnixNano (demo_time 2000) \<le> w_leaseDeadline demo_pm1 - 0"
      using demo_pm1_facts by (simp_all add: UnixNano_def demo_time_def at_ms_def i64_id)
    show "\<forall>j < 1. keeps_worker (iteration_ops (demo_iteration 2000 j)) \<and>
        (\<forall>op \<in> set (iteration_ops (demo_iteration 2000 j)). reading_ok demo_pg1 op)"
      by (intro demo_iteration_ok) (simp_all add: demo_started1(5))
    show "\<forall>j < 1. keeps_worker (iteration_ops (demo_iteration 2000 j)) \<and>
        (\<forall>op \<in> set (iteration_ops (demo_iteration 2000 j)). reading_ok demo_pg op)"
      by (intro demo_iteration_ok) simp_all
  qed (use demo_pm1_facts demo_pm2_facts demo_p0_facts w max in \<open>simp_all add: at_ms_def\<close>)
  then show ?thesis by (simp add: demo_calls)
qed

section \<open>Starting\<close>

lemma gate_shut:
  assumes "p_workerManager p = Some m" and "p_generator p = Some g" and "w_healthy m \<noteq> 1"
  shows "\<exists>q. plugin_GenerateID fuel env now startTime p = Some (Some (Inl WorkerUnhealthy), q)"
  using assms by (simp add: plugin_GenerateID_def gate_def worker_IsHealthy_def)

text \<open>C5: With automatic registration no ID leaves the plugin before it holds a worker ID. After
  initialisation the gate is shut. A start ends in one of two ways: active, with a registered
  and healthy manager that holds a lease in Redis and a generator that carries the manager's
  worker ID; or failed with the error of the registration, and the gate stays shut.\<close>

theorem start_registers:
  assumes "base_ok B" and "redis_server R" and "codec_ok J"
    and "InitializeResources rt h p0 = (None, p)" and "host_sane h"
    and "p_conf p = Some conf" and "AutoRegisterWorkerId conf" and "p_redisClient p"
    and "p_workerManager p = Some m" and "start_ok R J m T env" and "Status B (p_base p) \<noteq> StatusActive"
    and "StartContext B R J False env p r = (res, p', r')"
  shows "(\<exists>q. plugin_GenerateID fuel its now startTime p = Some (Some (Inl WorkerUnhealthy), q)) \<and>
    ((res = Some None \<and> Status B (p_base p') = StatusActive \<and>
       (\<exists>m' g'. p_workerManager p' = Some m' \<and> p_generator p' = Some g' \<and> w_registered m' \<and> w_healthy m' = 1 \<and>
          lease_held R J T 0 m' r' \<and> g_workerID g' = w_workerID m')) \<or>
     ((\<exists>err. res = Some (Some (StartupFailed err))) \<and> Status B (p_base p') = StatusFailed \<and>
       (\<exists>q. plugin_GenerateID fuel its now startTime p' = Some (Some (Inl WorkerUnhealthy), q))))"
proof -
  obtain g where ready: "plugin_ready p conf m g"
    using initialized_ready [OF assms(4,5)] assms(6,9) by (auto simp: plugin_ready_def)
  then have p: "p_generator p = Some g" "w_healthy m \<noteq> 1" using assms(7) by (simp_all add: plugin_ready_def)
  define p1 where "p1 = onBase (EmitEvent B (lifecycleEvent EventPluginStarting ''StartContext''))
    (onBase (SetStatus B StatusInitializing) p)"
  have ready1: "plugin_ready p1 conf m g" "p_redisClient p1" "p_generator p1 = Some g"
    using ready assms(8) p(1) by (simp_all add: p1_def plugin_ready_def)
  obtain s p2 r2 where st: "startupTasksContext R J env p1 r = (s, p2, r2)" by (rule prod_cases3)
  note res = startup_result [OF assms(2,3) ready1(1) assms(7) ready1(2) assms(10) st]
  have B: "Status B (SetStatus B x b) = x" "Status B (EmitEvent B e b) = Status B b" for x e b
    using assms(1) by (simp_all add: base_ok_def)
  note pre = gate_shut [OF assms(9) p, of fuel its now startTime]
  from res show ?thesis
  proof (elim disjE exE conjE)
    fix m' assume s: "s = StartupOk" and p2: "p2 = p1\<lparr>p_workerManager := Some m', p_generator := Some (g\<lparr>g_workerID := w_workerID m'\<rparr>)\<rparr>"
      and m': "started R J T m m' r2"
    have "plugin_CheckHealth p2 = None" by (simp add: plugin_CheckHealth_def p2)
    then have "res = Some None" "Status B (p_base p') = StatusActive" "p_workerManager p' = Some m'"
      "p_generator p' = Some (g\<lparr>g_workerID := w_workerID m'\<rparr>)" "r' = r2"
      using assms(11,12) s st by (auto simp: StartContext_def Let_def p1_def [symmetric] B p2)
    with pre m' show ?thesis by (simp add: started_def)
  next
    fix err m' assume s: "s = StartupError err" and p2: "p2 = p1\<lparr>p_workerManager := Some m'\<rparr>" and m': "w_healthy m' \<noteq> 1"
    then have "res = Some (Some (StartupFailed err))" "Status B (p_base p') = StatusFailed"
      "p_workerManager p' = Some m'" "p_generator p' = Some g"
      using assms(11,12) st ready1(3) by (auto simp: StartContext_def Let_def p1_def [symmetric] B p2)
    with pre gate_shut [of p' m' g, OF _ _ m'] show ?thesis by simp
  qed
qed


definition demo_startup :: "plugin_error option option \<times> demo_plugin \<times> mem" where
  "demo_startup = StartContext demo_base mem_redis demo_codec False (demo_start 1 0) demo_p0 mem_empty"

lemma demo_startup_facts: "fst demo_startup = Some None" "fst (p_base demo_p0) = StatusOther"
  by (code_simp+)

lemma start_registers_witness:
  "Status demo_base (p_base (fst (snd demo_startup))) = StatusActive \<and>
   (\<exists>m' g'. p_workerManager (fst (snd demo_startup)) = Some m' \<and> p_generator (fst (snd demo_startup)) = Some g' \<and>
      w_registered m' \<and> w_healthy m' = 1 \<and>
      lease_held mem_redis demo_codec (at_ms 0) 0 m' (snd (snd demo_startup)) \<and> g_workerID g' = w_workerID m')"
proof -
  have ok: "start_ok mem_redis demo_codec demo_pm (at_ms 0) (demo_start 1 0)"
    using demo_start_ok demo_p0_facts(3) by simp
  have st: "Status demo_base (p_base demo_p0) \<noteq> StatusActive"
    using demo_startup_facts(2) by (simp add: demo_base_def)
  have run: "StartContext demo_base mem_redis demo_codec False (demo_start 1 0) demo_p0 mem_empty =
      (fst demo_startup, fst (snd demo_startup), snd (snd demo_startup))" by (simp add: demo_startup_def)
  from start_registers [OF demo_base_ok mem.redis_server_axioms demo_codec_ok demo_init demo_sane demo_dims(3)
      demo_p0_facts(2,1) demo_dims(1) ok st run, of 1 "demo_iteration 0" "demo_time 0" "demo_time 0"] demo_startup_facts(1)
  show ?thesis by simp
qed

section \<open>Stopping\<close>

lemma first_cleanup:
  assumes "\<not> p_stopCleanupOnce p" and "p_workerManager p = Some m" and "UnregisterWorkerID R J env m r = (err, m', r1)"
  shows "\<exists>p1. cleanupTasksContext R J env p r = (err, p1, r1) \<and> p_workerManager p1 = Some m' \<and>
    p_generator p1 = map_option Shutdown (p_generator p) \<and> p_base p1 = p_base p \<and> p_stopCleanupOnce p1"
  using assms
  by (cases "p_shutdownOnce p") (simp_all add: cleanupTasksContext_def doStopCleanupContext_def Let_def)

lemma stop_steps:
  assumes "base_ok B" and "Status B (p_base p) = StatusActive" and "\<not> p_stopCleanupOnce p"
    and "stopWithContext B R J False source env p r = (res, p', r')" and "p_workerManager p = Some m"
    and "UnregisterWorkerID R J env m r = (err, m', r1)"
  shows "p_workerManager p' = Some m' \<and> p_generator p' = map_option Shutdown (p_generator p) \<and> r' = r1 \<and>
    res = map_option CleanupFailed err \<and> p_stopCleanupOnce p' \<and>
    Status B (p_base p') = (case err of None \<Rightarrow> StatusTerminated | Some e \<Rightarrow> StatusFailed)"
proof -
  define p0 where "p0 = onBase (EmitEvent B (lifecycleEvent EventPluginStopping source))
    (onBase (SetStatus B StatusStopping) p)"
  have "\<not> p_stopCleanupOnce p0" "p_workerManager p0 = Some m" using assms(3,5) by (simp_all add: p0_def)
  from first_cleanup [OF this assms(6)] obtain p1 where p1: "cleanupTasksContext R J env p0 r = (err, p1, r1)"
    "p_workerManager p1 = Some m'" "p_generator p1 = map_option Shutdown (p_generator p0)" "p_stopCleanupOnce p1" by blast
  have B: "Status B (SetStatus B x b) = x" "Status B (EmitEvent B e b) = Status B b" for x e b
    using assms(1) by (simp_all add: base_ok_def)
  have "p_generator p0 = p_generator p" by (simp add: p0_def)
  with assms(2,4) p1 show ?thesis
    by (cases err) (auto simp: stopWithContext_def Let_def p0_def [symmetric] B)
qed

lemma unregister_error:
  "UnregisterWorkerID R J env m r = (err, m', r') \<Longrightarrow>
     err = (if w_registered m \<and> \<not> w_redisClient m then Some RedisClientNil else None)"
  by (auto simp: UnregisterWorkerID_def Let_def split: option.splits prod.splits if_splits)


definition demo_stop_env :: "int \<Rightarrow> mem unregister_env" where
  "demo_stop_env ms = \<lparr>u_get = arrives (at_ms ms), u_del = arrives (at_ms ms), u_srem = arrives (at_ms ms)\<rparr>"

definition demo_stopped :: "plugin_error option \<times> demo_plugin \<times> mem" where
  "demo_stopped = stopWithContext demo_base mem_redis demo_codec False ''Stop'' (demo_stop_env 2000)
     (fst (snd demo_startup)) (snd (snd demo_startup))"

lemma demo_running: "\<not> p_stopCleanupOnce (fst (snd demo_startup))"
  "map_option w_redisClient (p_workerManager (fst (snd demo_startup))) = Some True"
  "map_option w_registered (p_workerManager (fst (snd demo_startup))) = Some True"
  "map_option g_isShuttingDown (p_generator (fst (snd demo_startup))) = Some False"
  "fst (p_base (fst (snd demo_startup))) = StatusActive"
  by (code_simp+)


text \<open>The clean-up runs once in the life of the object, also when the plugin is initialised anew: a
  plugin that is stopped, initialised, started and stopped again reports success and is
  terminated, but nothing is given back. Its manager stays registered, with its heartbeat
  running and its key in Redis, and its generator goes on.\<close>

lemma startup_once:
  "startupTasksContext R J env p r = (s, p', r') \<Longrightarrow> p_stopCleanupOnce p' = p_stopCleanupOnce p"
  by (auto simp: startupTasksContext_def autoRegister_def Let_def
      split: option.splits if_splits prod.splits sum.splits)

theorem second_stop_leaks:
  assumes "base_ok B" and "p_stopCleanupOnce p0" and "host_sane h" and "InitializeResources rt h p0 = (None, p)"
    and "StartContext B R J False env p r = (Some None, p', r')"
    and "stopWithContext B R J False source env' p' r' = (res, p'', r'')"
  shows "res = None \<and> Status B (p_base p'') = StatusTerminated \<and> r'' = r' \<and>
    p_workerManager p'' = p_workerManager p' \<and> p_generator p'' = p_generator p'"
proof -
  have once: "p_stopCleanupOnce p" using initialized_ready [OF assms(4,3)] assms(2) by blast
  have B: "Status B (SetStatus B x b) = x" "Status B (EmitEvent B e b) = Status B b" for x e b
    using assms(1) by (simp_all add: base_ok_def)
  have "Status B (p_base p') = StatusActive \<and> p_stopCleanupOnce p'"
    using assms(5) once
    by (auto simp: StartContext_def Let_def B split: if_splits prod.splits startup.splits option.splits
        dest: startup_once)
  with assms(6) show ?thesis
    by (cases "p_shutdownOnce p'") (auto simp: stopWithContext_def cleanupTasksContext_def Let_def B onBase_def)
qed


section \<open>Without Redis\<close>

text \<open>A plugin that is configured for automatic registration but finds no Redis client switches it
  off and goes on: its start does nothing, its manager counts as healthy though it holds no
  lease, and the gate hands out a generator with the configured worker ID, 0 by default.
  Nothing keeps two such instances apart.\<close>

theorem fallback_is_unregistered:
  assumes "InitializeResources rt h p0 = (None, p)" and "host_sane h" and "AutoRegisterWorkerId (loadedConf (rt_config rt))"
    and "connectRedis rt (loadedConf (rt_config rt)) (p_redisClient p0) =
      ((loadedConf (rt_config rt))\<lparr>AutoRegisterWorkerId := False\<rparr>, c)"
  shows "\<exists>g m. p_workerManager p = Some m \<and> \<not> w_registered m \<and> fst (gate now p) = Inr g \<and>
    g_workerID g = WorkerId (loadedConf (rt_config rt)) \<and>
    startupTasksContext R J env p r = (StartupOk, p, r)"
proof -
  let ?conf = "(loadedConf (rt_config rt))\<lparr>AutoRegisterWorkerId := False\<rparr>"
  obtain conf m g where ready: "plugin_ready p conf m g" using initialized_ready [OF assms(1,2)] by blast
  moreover have "p_conf p = Some ?conf"
    using assms(1,4) by (auto simp: InitializeResources_def Let_def split: sum.splits)
  ultimately have "conf = ?conf" by (simp add: plugin_ready_def)
  with ready show ?thesis
    by (auto simp: plugin_ready_def gate_def worker_IsHealthy_def Let_def startupTasksContext_def)
qed


section \<open>Running\<close>

text \<open>The plugin's own callback, on the generator it points to.\<close>

definition uses_worker_opt :: "int \<Rightarrow> Generator option \<Rightarrow> bool" where
  "uses_worker_opt w gen \<longleftrightarrow> (case gen of None \<Rightarrow> True | Some g \<Rightarrow> uses_worker w g)"

interpretation plugin_cb: worker_callback uses_worker_opt "\<lambda>w. map_option (SetWorkerID w)"
  by unfold_locales (auto simp: uses_worker_opt_def uses_worker_def SetWorkerID_def split: option.splits)

definition plugin_sync :: "'b PlugSnowflake \<Rightarrow> bool" where
  "plugin_sync p \<longleftrightarrow> p_onWorkerIDChange p \<and>
     (\<exists>m. p_workerManager p = Some m \<and> in_sync uses_worker_opt m (p_generator p))"

text \<open>A heartbeat of the loop, with a count of failures that a run can reach.\<close>

definition heartbeat_op :: "'r plugin_op \<Rightarrow> bool" where
  "heartbeat_op op \<longleftrightarrow> (case op of PHeartbeat e e' k \<Rightarrow> 0 \<le> k \<and> k < 2 ^ 62 | _ \<Rightarrow> False)"

lemma heartbeats_sync:
  assumes "plugin_sync p" and "list_all heartbeat_op ops"
  shows "plugin_sync (fst (prun B R J ops p r))"
  using assms
proof (induction ops arbitrary: p r)
  case (Cons op ops)
  obtain e e' k where op: "op = PHeartbeat e e' k" "0 \<le> k" "k < 2 ^ 62"
    using Cons.prems(2) by (cases op) (auto simp: heartbeat_op_def)
  obtain m where m: "p_workerManager p = Some m" "in_sync uses_worker_opt m (p_generator p)"
    and cb: "onWorkerIDChange p = Some (\<lambda>w. map_option (SetWorkerID w))" "p_onWorkerIDChange p"
    using Cons.prems(1) by (auto simp: plugin_sync_def onWorkerIDChange_def)
  obtain k' m' g' r' where tick: "heartbeatTick R J (Some (\<lambda>w. map_option (SetWorkerID w))) e e' k m (p_generator p) r =
      (k', m', g', r')" by (rule prod_cases4)
  from plugin_cb.heartbeatTick_sync [OF tick m(2) op(2,3)]
  have "plugin_sync (p\<lparr>p_workerManager := Some m', p_generator := g'\<rparr>)" using cb(2) by (simp add: plugin_sync_def)
  from Cons.IH [OF this] Cons.prems(2) tick m(1) cb(1) show ?case by (simp add: op)
qed simp

text \<open>C6: While the plugin runs, its gate opens only on a generator that carries the worker ID the
  plugin is registered under. After a start with automatic registration, through any sequence
  of heartbeats, failures, losses of the worker ID and recoveries under another one, and
  whatever Redis answers: if the gate lets a call through, the manager is registered, and the
  generator uses its worker ID, if that ID fits the layout.\<close>

theorem gate_in_sync:
  assumes "redis_server R" and "codec_ok J" and "InitializeResources rt h p0 = (None, p)" and "host_sane h"
    and "p_conf p = Some conf" and "AutoRegisterWorkerId conf" and "p_redisClient p"
    and "p_workerManager p = Some m0" and "start_ok R J m0 T env"
    and "startupTasksContext R J env p r = (StartupOk, p1, r1)"
    and "list_all heartbeat_op ops" and "fst (gate now (fst (prun B R J ops p1 r1))) = Inr g"
  shows "\<exists>m. p_workerManager (fst (prun B R J ops p1 r1)) = Some m \<and> w_registered m \<and>
    p_generator (fst (prun B R J ops p1 r1)) = Some g \<and>
    (0 \<le> w_workerID m \<and> w_workerID m \<le> g_maxWorkerID g \<longrightarrow> g_workerID g = w_workerID m)"
proof -
  obtain g0 where ready: "plugin_ready p conf m0 g0"
    using initialized_ready [OF assms(3,4)] assms(5,8) by (auto simp: plugin_ready_def)
  from startup_result [OF assms(1,2) ready assms(6,7,9,10)] obtain m' where
    p1: "p1 = p\<lparr>p_workerManager := Some m', p_generator := Some (g0\<lparr>g_workerID := w_workerID m'\<rparr>)\<rparr>"
    and m': "started R J T m0 m' r1" by auto
  have "plugin_sync p1"
    using ready m' by (simp add: plugin_sync_def p1 plugin_ready_def started_def in_sync_def uses_worker_opt_def uses_worker_def)
  from heartbeats_sync [OF this assms(11), of B R J r1] obtain m where
    m: "p_workerManager (fst (prun B R J ops p1 r1)) = Some m"
      "in_sync uses_worker_opt m (p_generator (fst (prun B R J ops p1 r1)))" by (auto simp: plugin_sync_def)
  with assms(12) have "p_generator (fst (prun B R J ops p1 r1)) = Some g" "w_healthy m = 1"
    by (auto simp: gate_def worker_IsHealthy_def Let_def split: option.splits if_splits prod.splits)
  with m show ?thesis by (auto simp: in_sync_def uses_worker_opt_def uses_worker_def)
qed

definition demo_beats :: "mem plugin_op list" where
  "demo_beats = map (\<lambda>k. PHeartbeat (demo_beat 20000 1\<lparr>b_call := \<lparr>c_before = id, c_at = at_ms 20000, c_net = Unreached\<rparr>\<rparr>)
     \<lparr>r_beat = demo_beat 20000 1, r_shut = (\<lambda>i. False), r_attempts = (\<lambda>i j. demo_attempt 1 20000 j)\<rparr> k) [0, 1, 2]"

definition demo_lost :: demo_plugin where
  "demo_lost = fst (prun demo_base mem_redis demo_codec demo_beats demo_p1 (snd (snd demo_run1)))"

lemma demo_lost_gate: "is_ok (fst (gate (demo_time 21000) demo_lost))"
  "map_option w_workerID (p_workerManager demo_lost) = Some 1"
  "map_option g_maxWorkerID (p_generator demo_lost) = Some 31"
  by (code_simp+)

lemma gate_in_sync_witness: "\<exists>g. fst (gate (demo_time 21000) demo_lost) = Inr g \<and> g_workerID g = 1"
proof -
  obtain g where g: "fst (gate (demo_time 21000) demo_lost) = Inr g"
    using demo_lost_gate(1) by (cases "fst (gate (demo_time 21000) demo_lost)") (auto simp: is_ok_def)
  have run: "startupTasksContext mem_redis demo_codec (demo_start 1 0) demo_p0 mem_empty =
      (StartupOk, demo_p1, snd (snd demo_run1))"
    using demo_runs_ok(1) by (simp add: demo_p1_def demo_run1_def [symmetric] prod_eq_iff)
  have ok: "start_ok mem_redis demo_codec demo_pm (at_ms 0) (demo_start 1 0)"
    using demo_start_ok demo_p0_facts(3) by simp
  have beats: "list_all heartbeat_op demo_beats" by (simp add: demo_beats_def heartbeat_op_def)
  from gate_in_sync [OF mem.redis_server_axioms demo_codec_ok demo_init demo_sane demo_dims(3) demo_p0_facts(2,1)
      demo_dims(1) ok run beats g [unfolded demo_lost_def]] g demo_lost_gate(2,3)
  show ?thesis by (auto simp: demo_lost_def [symmetric])
qed

end
