(* ===== verification/Plugin_Health.thy ===== *)
theory Plugin_Health
  imports Plugin
begin

text \<open>
  \<open>GetHealth\<close>: the status, its message and the details, in the order in which they are
  entered. The clock's reading for the report and the outcome of the Redis \<open>PING\<close> (\<open>None\<close>: it
  answered; else the text of the error) are arguments.
\<close>

section \<open>The report\<close>

text \<open>The values of the map: texts, numbers, durations (some of them printed by \<open>String\<close>) and
  pointers to them, times (printed by \<open>Format\<close>; empty when the time is zero) and inner maps.\<close>

datatype detail =
  DText string
| DInt int
| DBool bool
| DFloat float64
| DDuration int
| DDurationPtr "int option"
| DTime "time option"
| DMap "(string \<times> detail) list"

record HealthReport =
  hr_Status :: string
  hr_Details :: "(string \<times> detail) list"
  hr_Timestamp :: int
  hr_Message :: string

text \<open>A report in progress.\<close>

record draft =
  dr_status :: string
  dr_message :: string
  dr_details :: "(string \<times> detail) list"

definition put :: "string \<Rightarrow> detail \<Rightarrow> draft \<Rightarrow> draft" where
  "put k d r = r\<lparr>dr_details := dr_details r @ [(k, d)]\<rparr>"

definition put_all :: "(string \<times> detail) list \<Rightarrow> draft \<Rightarrow> draft" where
  "put_all ds r = r\<lparr>dr_details := dr_details r @ ds\<rparr>"

section \<open>Its parts\<close>

definition healthGenerator :: "Generator option \<Rightarrow> draft \<Rightarrow> draft" where
  "healthGenerator gen r =
     (case gen of
        None \<Rightarrow> put ''generator_status'' (DText ''not_initialized'')
          (r\<lparr>dr_status := ''unhealthy'', dr_message := ''Eon-ID generator not initialized''\<rparr>)
      | Some g \<Rightarrow>
          (let r = put_all [(''generator_status'', DText ''initialized''), (''worker_id'', DInt (g_workerID g)),
                 (''datacenter_id'', DInt (g_datacenterID g)), (''custom_epoch'', DInt (g_customEpoch g)),
                 (''generated_count'', DInt (g_generatedCount g)),
                 (''clock_backward_count'', DInt (g_clockBackwardCount g)),
                 (''is_shutting_down'', DBool (g_isShuttingDown g))] r
           in if g_clockBackwardCount g > 0
              then r\<lparr>dr_status := ''degraded'', dr_message := ''Clock backward events detected''\<rparr> else r))"

definition healthManager :: "WorkerIDManager option \<Rightarrow> draft \<Rightarrow> draft" where
  "healthManager wm r =
     (case wm of
        None \<Rightarrow> put ''worker_manager_status'' (DText ''not_configured'') r
      | Some m \<Rightarrow> put_all [(''worker_manager_status'', DText ''active''),
            (''worker_manager_worker_id'', DInt (w_workerID m)),
            (''worker_manager_datacenter_id'', DInt (w_datacenterID m)),
            (''worker_manager_key_prefix'', DText (w_keyPrefix m)),
            (''worker_manager_ttl'', DDuration (w_ttl m)),
            (''worker_manager_heartbeat_interval'', DDuration (w_heartbeatInterval m))] r)"

definition configurationDetails :: "EonId \<Rightarrow> (string \<times> detail) list" where
  "configurationDetails c =
     [(''datacenter_id'', DInt (DatacenterId c)), (''worker_id'', DInt (WorkerId c)),
      (''custom_epoch'', DInt (pb_CustomEpoch c)), (''auto_register_worker_id'', DBool (AutoRegisterWorkerId c)),
      (''redis_plugin_name'', DText (RedisPluginName c)), (''redis_key_prefix'', DText (RedisKeyPrefix c)),
      (''worker_id_ttl'', DDurationPtr (WorkerIdTtl c)), (''heartbeat_interval'', DDurationPtr (HeartbeatInterval c)),
      (''enable_metrics'', DBool (pb_EnableMetrics c)),
      (''clock_drift_protection'', DBool (pb_EnableClockDriftProtection c)),
      (''sequence_cache'', DBool (pb_EnableSequenceCache c)), (''max_clock_drift'', DDurationPtr (pb_MaxClockDrift c)),
      (''clock_check_interval'', DDurationPtr (ClockCheckInterval c)),
      (''clock_drift_action'', DText (pb_ClockDriftAction c)),
      (''sequence_cache_size'', DInt (pb_SequenceCacheSize c)), (''redis_db'', DInt (RedisDb c)),
      (''worker_id_bits'', DInt (WorkerIdBits c)), (''sequence_bits'', DInt (pb_SequenceBits c))]"

definition healthConf :: "EonId option \<Rightarrow> draft \<Rightarrow> draft" where
  "healthConf conf r = (case conf of None \<Rightarrow> r | Some c \<Rightarrow> put ''configuration'' (DMap (configurationDetails c)) r)"

definition healthRedis :: "bool \<Rightarrow> string option \<Rightarrow> draft \<Rightarrow> draft" where
  "healthRedis redisClient ping r =
     (if redisClient then
        (case ping of
           Some err \<Rightarrow>
             (let r = (if dr_status r = ''healthy'' then r\<lparr>dr_status := ''degraded''\<rparr> else r);
                  r = r\<lparr>dr_message := ''Redis connection issues detected''\<rparr>
              in put_all [(''redis_status'', DText ''unhealthy''), (''redis_error'', DText err)] r)
         | None \<Rightarrow> put ''redis_status'' (DText ''healthy'') r)
      else put ''redis_status'' (DText ''not_configured'') r)"

definition metricsDetails :: "Metrics \<Rightarrow> (string \<times> detail) list" where
  "metricsDetails snap =
     [(''ids_generated'', DInt (IDsGenerated snap)), (''clock_drift_events'', DInt (ClockDriftEvents snap)),
      (''worker_id_conflicts'', DInt (WorkerIDConflicts snap)),
      (''sequence_overflows'', DInt (SequenceOverflows snap)),
      (''generation_errors'', DInt (GenerationErrors snap)), (''redis_errors'', DInt (RedisErrors snap)),
      (''timeout_errors'', DInt (TimeoutErrors snap)), (''validation_errors'', DInt (ValidationErrors snap)),
      (''id_generation_rate'', DFloat (IDGenerationRate snap)),
      (''peak_generation_rate'', DFloat (PeakGenerationRate snap)),
      (''uptime_duration'', DDuration (UptimeDuration snap)),
      (''last_generation_time'', DTime (if time_IsZero (LastGenerationTime snap) then None
                                        else Some (LastGenerationTime snap)))]"

definition healthMetrics :: "Generator option \<Rightarrow> draft \<Rightarrow> draft" where
  "healthMetrics gen r =
     (case gen of None \<Rightarrow> r
      | Some g \<Rightarrow>
        (case GetMetrics g of None \<Rightarrow> r
         | Some genMetrics \<Rightarrow>
           (let snap = GetSnapshot genMetrics;
                r = put ''metrics'' (DMap (metricsDetails snap)) r;
                totalOperations = i64 (IDsGenerated snap + GenerationErrors snap)
            in if totalOperations > 0 then
                 (let errorRate = float_div (float_of_int (GenerationErrors snap)) (float_of_int totalOperations);
                      r = put ''error_rate'' (DFloat errorRate) r
                  in if errorRate > fround (1 / 10)
                     then r\<lparr>dr_status := ''degraded'', dr_message := ''High error rate detected''\<rparr> else r)
               else r)))"

definition GetHealth :: "string option \<Rightarrow> time \<Rightarrow> 'b PlugSnowflake \<Rightarrow> HealthReport" where
  "GetHealth ping now p =
     (let r = \<lparr>dr_status = ''healthy'', dr_message = ''Eon-ID generator is operating normally'', dr_details = []\<rparr>;
          r = healthGenerator (p_generator p) r;
          r = healthManager (p_workerManager p) r;
          r = healthConf (p_conf p) r;
          r = healthRedis (p_redisClient p) ping r;
          r = healthMetrics (p_generator p) r
      in \<lparr>hr_Status = dr_status r, hr_Details = dr_details r, hr_Timestamp = time_Unix_seconds now,
          hr_Message = dr_message r\<rparr>)"

section \<open>What the status says\<close>

text \<open>The rate of errors is above a tenth, as the code computes it.\<close>

definition many_errors :: "Generator \<Rightarrow> bool" where
  "many_errors g \<longleftrightarrow> (case g_metrics g of None \<Rightarrow> False
     | Some s \<Rightarrow> 0 < i64 (IDsGenerated s + GenerationErrors s) \<and>
         float_div (float_of_int (GenerationErrors s)) (float_of_int (i64 (IDsGenerated s + GenerationErrors s))) > fround (1 / 10))"

lemma draft_sel [simp]:
  "dr_status (put k d r) = dr_status r" "dr_message (put k d r) = dr_message r"
  "dr_status (put_all ds r) = dr_status r" "dr_message (put_all ds r) = dr_message r"
  "dr_status (healthManager wm r) = dr_status r" "dr_status (healthConf c r) = dr_status r"
  by (simp_all add: put_def put_all_def healthManager_def healthConf_def split: option.splits)

lemma metrics_status:
  "dr_status (healthMetrics (Some g) r) = (if many_errors g then ''degraded'' else dr_status r)"
  by (auto simp: healthMetrics_def many_errors_def GetMetrics_def GetSnapshot_def zero_Metrics_def Let_def
      split: option.splits)

lemma redis_status:
  "dr_status (healthRedis c ping r) =
     (if c \<and> ping \<noteq> None \<and> dr_status r = ''healthy'' then ''degraded'' else dr_status r)"
  by (auto simp: healthRedis_def Let_def split: option.splits)

definition entry :: "string \<Rightarrow> draft \<Rightarrow> detail option" where
  "entry k r = map_of (dr_details r) k"

lemma entry_put:
  "entry k (put k' d r) = (case entry k r of None \<Rightarrow> if k = k' then Some d else None | Some x \<Rightarrow> Some x)"
  "entry k (put_all ds r) = (case entry k r of None \<Rightarrow> map_of ds k | Some x \<Rightarrow> Some x)"
  "entry k (r\<lparr>dr_status := a\<rparr>) = entry k r" "entry k (r\<lparr>dr_message := a\<rparr>) = entry k r"
  by (auto simp: entry_def put_def put_all_def map_add_def split: option.splits)

lemma manager_entry:
  assumes "entry ''worker_manager_status'' r = Some x"
  shows "entry ''worker_manager_status'' (healthConf c r) = Some x"
    and "entry ''worker_manager_status'' (healthRedis b ping r) = Some x"
    and "entry ''worker_manager_status'' (healthMetrics gen r) = Some x"
  using assms
  by (auto simp: healthConf_def healthRedis_def healthMetrics_def entry_put Let_def split: option.splits)

lemma manager_entered:
  assumes "entry ''worker_manager_status'' r = None"
  shows "entry ''worker_manager_status'' (healthManager wm (healthGenerator gen r)) =
    Some (DText (if wm = None then ''not_configured'' else ''active''))"
  using assms by (cases gen) (auto simp: healthManager_def healthGenerator_def entry_put Let_def split: option.splits)

text \<open>C39: The health report follows the generator and Redis, not the lease: its status is unhealthy
  exactly without a generator, else degraded exactly if the clock has gone backwards, Redis does
  not answer or more than a tenth of the operations failed, else healthy. The state of the
  worker ID manager plays no part: a plugin whose lease has run out, and whose gate therefore
  refuses every call, is reported as before, with the manager as active.\<close>

theorem health_status:
  "hr_Status (GetHealth ping now p) =
     (case p_generator p of
        None \<Rightarrow> ''unhealthy''
      | Some g \<Rightarrow> if g_clockBackwardCount g > 0 \<or> (p_redisClient p \<and> ping \<noteq> None) \<or> many_errors g
                  then ''degraded'' else ''healthy'') \<and>
   hr_Status (GetHealth ping now (p\<lparr>p_workerManager := wm\<rparr>)) = hr_Status (GetHealth ping now p) \<and>
   map_of (hr_Details (GetHealth ping now p)) ''worker_manager_status'' =
     Some (DText (if p_workerManager p = None then ''not_configured'' else ''active''))"
proof (intro conjI)
  have empty: "entry k \<lparr>dr_status = a, dr_message = b, dr_details = []\<rparr> = None" for k a b
    by (simp add: entry_def)
  show "hr_Status (GetHealth ping now p) =
     (case p_generator p of
        None \<Rightarrow> ''unhealthy''
      | Some g \<Rightarrow> if g_clockBackwardCount g > 0 \<or> (p_redisClient p \<and> ping \<noteq> None) \<or> many_errors g
                  then ''degraded'' else ''healthy'')"
    by (cases "p_generator p")
      (auto simp: GetHealth_def Let_def redis_status metrics_status healthGenerator_def healthMetrics_def [of None])
  show "hr_Status (GetHealth ping now (p\<lparr>p_workerManager := wm\<rparr>)) = hr_Status (GetHealth ping now p)"
    by (cases "p_generator p")
      (auto simp: GetHealth_def Let_def redis_status metrics_status healthGenerator_def healthMetrics_def [of None])
  show "map_of (hr_Details (GetHealth ping now p)) ''worker_manager_status'' =
     Some (DText (if p_workerManager p = None then ''not_configured'' else ''active''))"
    using manager_entry(3) [OF manager_entry(2) [OF manager_entry(1) [OF manager_entered [OF empty]]]]
    by (simp add: GetHealth_def Let_def entry_def)
qed

end
