(* ===== verification/Redis_Integration.thy ===== *)
theory Redis_Integration
  imports Plugin Worker_Exclusion
begin

text \<open>
  \<open>redis_integration.go\<close>: the configuration of the Redis integration, the search for a client
  in the runtime's shared resources, and \<open>RedisSnowflakePlugin\<close>, the plugin for stand-alone
  processes; \<open>helper.go\<close>: the look-up of the plugin in the running application.
\<close>

section \<open>Configuration\<close>

record RedisIntegrationConfig =
  ri_RedisPluginName :: string
  ri_Database :: int
  ri_KeyPrefix :: string

datatype integration_error =
  PluginNameEmpty
| PluginNameTooLong string
| PluginNameInvalid string
| DatabaseRange int
| KeyPrefixEmpty
| KeyPrefixTooLong string
| KeyPrefixWhitespace string
| KeyPrefixPattern string
| RedisNotFound string
| ConnectionTestFailed
| AutoRegisterFailed worker_error
| ManagerNotInitialized
| ManagerError worker_error

definition ContainsAny :: "string \<Rightarrow> string \<Rightarrow> bool" where
  "ContainsAny s chars \<longleftrightarrow> list_ex (\<lambda>c. c \<in> set chars) s"

definition whitespace :: string where
  "whitespace = [CHR '' '', CHR 0x09, CHR 0x0A, CHR 0x0D]"

definition ValidateIntegration :: "RedisIntegrationConfig \<Rightarrow> integration_error option" where
  "ValidateIntegration c =
     reject_if (ri_RedisPluginName c = []) PluginNameEmpty
     (reject_if (length (ri_RedisPluginName c) > 100) (PluginNameTooLong (ri_RedisPluginName c))
     (reject_if (ContainsAny (ri_RedisPluginName c) (whitespace @ ''/'' @ [CHR 0x5C])) (PluginNameInvalid (ri_RedisPluginName c))
     (reject_if (ri_Database c < 0 \<or> ri_Database c > 15) (DatabaseRange (ri_Database c))
     (reject_if (ri_KeyPrefix c = []) KeyPrefixEmpty
     (reject_if (length (ri_KeyPrefix c) > 50) (KeyPrefixTooLong (ri_KeyPrefix c))
     (reject_if (ContainsAny (ri_KeyPrefix c) whitespace) (KeyPrefixWhitespace (ri_KeyPrefix c))
     (reject_if (ContainsAny (ri_KeyPrefix c) ''*'' \<or> ContainsAny (ri_KeyPrefix c) ''?'') (KeyPrefixPattern (ri_KeyPrefix c))
      None)))))))"

definition DefaultRedisIntegrationConfig :: RedisIntegrationConfig where
  "DefaultRedisIntegrationConfig =
     \<lparr>ri_RedisPluginName = RedisPluginName_const, ri_Database = 0, ri_KeyPrefix = DefaultRedisKeyPrefix\<rparr>"

section \<open>The client\<close>

text \<open>\<open>tryGetFromGlobalRegistry\<close>: the look-up of shared resources, if application, plugin manager
  and runtime are there; whether a client was found. A provider that fails and resources of
  other types are passed over.\<close>

fun registryLoop :: "(string \<Rightarrow> resource option) \<Rightarrow> string list \<Rightarrow> string set \<Rightarrow> bool" where
  "registryLoop get [] seen = False"
| "registryLoop get (name # names) seen =
     (if name = [] then registryLoop get names seen
      else if name \<in> seen then registryLoop get names seen
      else
      let seen = insert name seen
      in case get name of
           None \<Rightarrow> registryLoop get names seen
         | Some ClientResource \<Rightarrow> True
         | Some (ProviderResource (Some client)) \<Rightarrow> client
         | Some (ProviderResource None) \<Rightarrow> registryLoop get names seen
         | Some OtherResource \<Rightarrow> registryLoop get names seen)"

definition tryGetFromGlobalRegistry :: "(string \<Rightarrow> resource option) option \<Rightarrow> string \<Rightarrow> bool" where
  "tryGetFromGlobalRegistry app pluginName =
     (case app of None \<Rightarrow> False
      | Some get \<Rightarrow> registryLoop get [pluginName, RedisPluginName_const, RedisLegacyResourceName,
          ''redis.provider'', RedisPluginName_const @ ''.provider''] {})"

definition getRedisClientFromPlugin :: "(string \<Rightarrow> resource option) option \<Rightarrow> string \<Rightarrow> (integration_error, bool) result" where
  "getRedisClientFromPlugin app pluginName =
     (if tryGetFromGlobalRegistry app pluginName then Inr True else Inl (RedisNotFound pluginName))"

record RedisIntegration =
  in_client :: bool
  in_config :: RedisIntegrationConfig

definition NewRedisIntegration :: "(string \<Rightarrow> resource option) option \<Rightarrow> RedisIntegrationConfig option \<Rightarrow>
    (integration_error, RedisIntegration) result" where
  "NewRedisIntegration app config =
     (let config = (case config of None \<Rightarrow> DefaultRedisIntegrationConfig | Some c \<Rightarrow> c)
      in case ValidateIntegration config of Some err \<Rightarrow> Inl err | None \<Rightarrow>
         (case getRedisClientFromPlugin app (ri_RedisPluginName config) of
            Inl err \<Rightarrow> Inl err
          | Inr client \<Rightarrow> Inr \<lparr>in_client = client, in_config = config\<rparr>))"

definition GetClient :: "RedisIntegration \<Rightarrow> bool" where "GetClient ri = in_client ri"

definition CreateWorkerManager :: "RedisIntegration \<Rightarrow> int \<Rightarrow> WorkerManagerConfig option \<Rightarrow> string \<Rightarrow> WorkerIDManager" where
  "CreateWorkerManager ri datacenterID config localIP =
     (let config = (case config of None \<Rightarrow> DefaultWorkerManagerConfig | Some c \<Rightarrow> c);
          config = (if wc_KeyPrefix config = [] then config\<lparr>wc_KeyPrefix := ri_KeyPrefix (in_config ri)\<rparr> else config);
          config = config\<lparr>wc_KeyPrefix := NormalizeKeyPrefix (wc_KeyPrefix config)\<rparr>
      in NewWorkerIDManager (in_client ri) datacenterID (Some config) localIP)"

section \<open>The stand-alone plugin\<close>

text \<open>The embedded plugin has a manager of its own, which nothing sets.\<close>

record 'b RedisSnowflakePlugin =
  rp_plugin :: "'b PlugSnowflake"
  rp_integration :: RedisIntegration
  rp_workerManager :: "WorkerIDManager option"

text \<open>The getters of a message work on nil; a missing duration is 0.\<close>

definition GetWorkerManager :: "'b RedisSnowflakePlugin \<Rightarrow> WorkerIDManager option" where
  "GetWorkerManager rp = rp_workerManager rp"

definition GetRedisIntegration :: "'b RedisSnowflakePlugin \<Rightarrow> RedisIntegration" where
  "GetRedisIntegration rp = rp_integration rp"

definition standaloneManagerConfig :: "EonId \<Rightarrow> WorkerManagerConfig" where
  "standaloneManagerConfig c = \<lparr>wc_KeyPrefix = RedisKeyPrefix c,
     wc_TTL = (case WorkerIdTtl c of None \<Rightarrow> 0 | Some d \<Rightarrow> d),
     wc_HeartbeatInterval = (case HeartbeatInterval c of None \<Rightarrow> 0 | Some d \<Rightarrow> d),
     wc_ServiceName = [], wc_ServiceVersion = []\<rparr>"

definition standaloneMaxWorkerID :: int where
  "standaloneMaxWorkerID = i64 (shl64 1 10 - 1)"

definition wantsWorkerID :: "EonId option \<Rightarrow> bool" where
  "wantsWorkerID config = (case config of None \<Rightarrow> False
     | Some c \<Rightarrow> AutoRegisterWorkerId c \<and> RedisPluginName c \<noteq> [])"

text \<open>\<open>pingFails\<close>: the connection test fails.\<close>

definition NewRedisSnowflakePlugin :: "'r redis \<Rightarrow> codec \<Rightarrow> (string \<Rightarrow> resource option) option \<Rightarrow> bool \<Rightarrow>
    (nat \<Rightarrow> 'r attempt_env) \<Rightarrow> 'b \<Rightarrow> string \<Rightarrow> EonId option \<Rightarrow> RedisIntegrationConfig option \<Rightarrow> 'r \<Rightarrow>
    (integration_error, 'b RedisSnowflakePlugin) result \<times> 'r" where
  "NewRedisSnowflakePlugin R J app pingFails env base localIP config redisConfig r =
     (case NewRedisIntegration app redisConfig of
        Inl err \<Rightarrow> (Inl err, r)
      | Inr ri \<Rightarrow>
          if pingFails then (Inl ConnectionTestFailed, r)
          else
          let p = snd (UpdateConfiguration (AnyEonId config) (NewSnowflakePlugin base))
          in case config of
               None \<Rightarrow> (Inr \<lparr>rp_plugin = p, rp_integration = ri, rp_workerManager = None\<rparr>, r)
             | Some c \<Rightarrow>
                 if wantsWorkerID config then
                   (let m = CreateWorkerManager ri (DatacenterId c) (Some (standaloneManagerConfig c)) localIP
                    in case RegisterWorkerID R J (None :: (int \<Rightarrow> unit \<Rightarrow> unit) option) env standaloneMaxWorkerID m () r of
                         (Inl err, m, u, r) \<Rightarrow> (Inl (AutoRegisterFailed err), r)
                       | (Inr workerID, m, u, r) \<Rightarrow>
                           (Inr \<lparr>rp_plugin = p, rp_integration = ri, rp_workerManager = Some m\<rparr>, r))
                 else (Inr \<lparr>rp_plugin = p, rp_integration = ri, rp_workerManager = None\<rparr>, r))"

definition standalone_Shutdown :: "'r redis \<Rightarrow> codec \<Rightarrow> 'r unregister_env \<Rightarrow> 'b RedisSnowflakePlugin \<Rightarrow> 'r \<Rightarrow>
    integration_error option \<times> 'b RedisSnowflakePlugin \<times> 'r" where
  "standalone_Shutdown R J env rp r =
     (case rp_workerManager rp of
        None \<Rightarrow> (None, rp, r)
      | Some m \<Rightarrow> (case UnregisterWorkerID R J env m r of
          (err, m, r) \<Rightarrow> (map_option ManagerError err, rp\<lparr>rp_workerManager := Some m\<rparr>, r)))"

text \<open>On success the configuration takes the worker ID; without a configuration that panics
  (an inner \<open>None\<close>).\<close>

definition standalone_RegisterWorkerID :: "'r redis \<Rightarrow> codec \<Rightarrow> 'r specific_env \<Rightarrow> int \<Rightarrow> 'b RedisSnowflakePlugin \<Rightarrow> 'r \<Rightarrow>
    integration_error option option \<times> 'b RedisSnowflakePlugin \<times> 'r" where
  "standalone_RegisterWorkerID R J e workerID rp r =
     (case rp_workerManager rp of
        None \<Rightarrow> (Some (Some ManagerNotInitialized), rp, r)
      | Some m \<Rightarrow>
          (case RegisterSpecificWorkerID R J e workerID m r of
             (Some err, m, r) \<Rightarrow> (Some (Some (ManagerError err)), rp\<lparr>rp_workerManager := Some m\<rparr>, r)
           | (None, m, r) \<Rightarrow>
               (let rp = rp\<lparr>rp_workerManager := Some m\<rparr>
                in case p_conf (rp_plugin rp) of
                     None \<Rightarrow> (None, rp, r)
                   | Some c \<Rightarrow> (Some None,
                       rp\<lparr>rp_plugin := (rp_plugin rp)\<lparr>p_conf := Some (c\<lparr>WorkerId := i32 workerID\<rparr>)\<rparr>\<rparr>, r))))"

definition standalone_GetRegisteredWorkers :: "'r redis \<Rightarrow> codec \<Rightarrow> 'r call \<Rightarrow> (nat \<Rightarrow> 'r member_env) \<Rightarrow>
    'b RedisSnowflakePlugin \<Rightarrow> 'r \<Rightarrow> (integration_error, WorkerInfo list) result \<times> 'r" where
  "standalone_GetRegisteredWorkers R J c env rp r =
     (case rp_workerManager rp of
        None \<Rightarrow> (Inl ManagerNotInitialized, r)
      | Some m \<Rightarrow> (case GetRegisteredWorkers R J c env m r of
          (Inl err, r) \<Rightarrow> (Inl (ManagerError err), r)
        | (Inr ws, r) \<Rightarrow> (Inr ws, r)))"

section \<open>The helpers\<close>

text \<open>The application: missing, without a plugin manager, or with the look-up of plugins, which
  finds this plugin, another one, or none.\<close>

datatype 'b found = EonIdPlugin "'b PlugSnowflake" | OtherPlugin

type_synonym 'b lynx = "(string \<Rightarrow> 'b found option) option option"

datatype helper_error = AppNotInitialized | NoPluginManager | PluginNotFound | NotEonId | HelperGeneratorNil
  | PluginFailed plugin_error

definition PluginName :: string where "PluginName = ''eon-id''"

definition GetEonIdPlugin :: "'b lynx \<Rightarrow> (helper_error, 'b PlugSnowflake) result" where
  "GetEonIdPlugin app =
     (case app of None \<Rightarrow> Inl AppNotInitialized
      | Some None \<Rightarrow> Inl NoPluginManager
      | Some (Some get) \<Rightarrow>
          (case get PluginName of
             None \<Rightarrow> Inl PluginNotFound
           | Some OtherPlugin \<Rightarrow> Inl NotEonId
           | Some (EonIdPlugin p) \<Rightarrow> Inr p))"

definition helper_GenerateID :: "nat \<Rightarrow> (nat \<Rightarrow> iteration) \<Rightarrow> time \<Rightarrow> time \<Rightarrow> 'b lynx \<Rightarrow>
    ((helper_error, int) result option \<times> 'b PlugSnowflake option) option" where
  "helper_GenerateID fuel env now startTime app =
     (case GetEonIdPlugin app of
        Inl err \<Rightarrow> Some (Some (Inl err), None)
      | Inr p \<Rightarrow> map_option (\<lambda>(r, p). (map_option (map_sum PluginFailed id) r, Some p))
          (plugin_GenerateID fuel env now startTime p))"

definition helper_GenerateIDWithMetadata :: "nat \<Rightarrow> (nat \<Rightarrow> iteration) \<Rightarrow> time \<Rightarrow> time \<Rightarrow> 'b lynx \<Rightarrow>
    ((helper_error, int \<times> SID) result option \<times> 'b PlugSnowflake option) option" where
  "helper_GenerateIDWithMetadata fuel env now startTime app =
     (case GetEonIdPlugin app of
        Inl err \<Rightarrow> Some (Some (Inl err), None)
      | Inr p \<Rightarrow> map_option (\<lambda>(r, p). (map_option (map_sum PluginFailed id) r, Some p))
          (plugin_GenerateIDWithMetadata fuel env now startTime p))"

definition helper_ParseID :: "int \<Rightarrow> 'b lynx \<Rightarrow> (helper_error, SID) result" where
  "helper_ParseID x app =
     (case GetEonIdPlugin app of Inl err \<Rightarrow> Inl err | Inr p \<Rightarrow> map_sum PluginFailed id (plugin_ParseID x p))"

definition helper_GetGenerator :: "'b lynx \<Rightarrow> (helper_error, Generator) result" where
  "helper_GetGenerator app =
     (case GetEonIdPlugin app of
        Inl err \<Rightarrow> Inl err
      | Inr p \<Rightarrow> (case plugin_GetGenerator p of None \<Rightarrow> Inl HelperGeneratorNil | Some g \<Rightarrow> Inr g))"

definition helper_CheckHealth :: "'b lynx \<Rightarrow> helper_error option" where
  "helper_CheckHealth app =
     (case GetEonIdPlugin app of
        Inl err \<Rightarrow> Some err
      | Inr p \<Rightarrow> map_option PluginFailed (plugin_CheckHealth p))"

section \<open>Lemmas\<close>

lemma registryLoop_finds:
  "registryLoop get names seen \<Longrightarrow>
     \<exists>name. name \<noteq> [] \<and> (get name = Some ClientResource \<or> get name = Some (ProviderResource (Some True)))"
  by (induction get names seen rule: registryLoop.induct)
     (auto simp: Let_def split: if_splits option.splits resource.splits bool.splits)

text \<open>Which configurations validation accepts.\<close>

lemma ValidateIntegration_accepts:
  "ValidateIntegration c = None \<longleftrightarrow>
     ri_RedisPluginName c \<noteq> [] \<and> length (ri_RedisPluginName c) \<le> 100 \<and>
     set (ri_RedisPluginName c) \<inter> (set whitespace \<union> {CHR ''/'', CHR 0x5C}) = {} \<and>
     0 \<le> ri_Database c \<and> ri_Database c \<le> 15 \<and>
     ri_KeyPrefix c \<noteq> [] \<and> length (ri_KeyPrefix c) \<le> 50 \<and>
     set (ri_KeyPrefix c) \<inter> (set whitespace \<union> {CHR ''*'', CHR ''?''}) = {}"
  by (auto simp: ValidateIntegration_def ContainsAny_def list_ex_iff not_less not_le)

lemma default_integration_ok: "ValidateIntegration DefaultRedisIntegrationConfig = None"
  by code_simp

end
