(* ===== verification/Integration_Props.thy ===== *)
theory Integration_Props
  imports Redis_Integration Plugin_Demo
begin

text \<open>
  The stand-alone plugin: what its construction leaves in Redis, and what it can be used for.
\<close>

lemma nil_generator:
  assumes "p_generator p = None"
  shows "plugin_GenerateID fuel its now startTime p = Some (Some (Inl GeneratorNotInitialized), p)"
  using assms by (simp add: plugin_GenerateID_def gate_def)

lemma fresh_manager:
  "\<not> w_registered (CreateWorkerManager ri dc config ip)"
  by (simp add: CreateWorkerManager_def NewWorkerIDManager_def Let_def)

lemma standalone_max: "standaloneMaxWorkerID = 1023"
  by (simp add: standaloneMaxWorkerID_def shl64_def i64_id)

text \<open>C40: The stand-alone plugin, when its construction succeeds with a configuration that asks for
  a worker ID, holds a lease on one: its manager is registered and healthy and Redis holds the
  key. But the plugin it wraps has no generator and never gets one from this construction: every
  call for an ID fails, whether or not the manager is healthy.\<close>

theorem standalone_plugin:
  assumes "redis_server R" and "codec_ok J"
    and "NewRedisIntegration app redisConfig = Inr ri" and "wantsWorkerID (Some c)"
    and "\<forall>k. attempt_ok R J (CreateWorkerManager ri (DatacenterId c) (Some (standaloneManagerConfig c)) ip) (env k)"
    and "NewRedisSnowflakePlugin R J app False env base ip (Some c) redisConfig r = (Inr rp, r')"
  shows "(\<exists>m t. rp_workerManager rp = Some m \<and> w_registered m \<and> w_healthy m = 1 \<and> lease_held R J t 0 m r') \<and>
    plugin_GenerateID fuel its now startTime (rp_plugin rp) = Some (Some (Inl GeneratorNotInitialized), rp_plugin rp)"
proof -
  let ?m = "CreateWorkerManager ri (DatacenterId c) (Some (standaloneManagerConfig c)) ip"
  obtain x m u r1 where reg: "RegisterWorkerID R J (None :: (int \<Rightarrow> unit \<Rightarrow> unit) option) env standaloneMaxWorkerID ?m () r =
      (x, m, u, r1)" by (rule prod_cases4)
  have x: "\<exists>w. x = Inr w \<and> rp_workerManager rp = Some m \<and> r' = r1" and g: "p_generator (rp_plugin rp) = None"
    using assms(3,4,6) reg
    by (auto simp: NewRedisSnowflakePlugin_def UpdateConfiguration_def NewSnowflakePlugin_def Let_def split: sum.splits)
  from x obtain w where w: "x = Inr w" "rp_workerManager rp = Some m" "r' = r1" by blast
  from redis_server.RegisterWorkerID_lease [OF assms(1,2,5) fresh_manager reg [unfolded w(1)]] w nil_generator [OF g]
  show ?thesis by auto
qed

definition demo_standalone_conf :: EonId where
  "demo_standalone_conf = demo_conf\<lparr>RedisPluginName := ''redis.client''\<rparr>"

definition demo_resources :: "string \<Rightarrow> resource option" where
  "demo_resources name = (if name = ''redis.client'' then Some ClientResource else None)"

definition demo_standalone :: "(integration_error, unit RedisSnowflakePlugin) result \<times> mem" where
  "demo_standalone = NewRedisSnowflakePlugin mem_redis demo_codec (Some demo_resources) False (demo_attempt 1 0) ()
     ''10.0.0.1'' (Some demo_standalone_conf) None mem_empty"

lemma demo_standalone_ok: "is_ok (fst demo_standalone)"
  by code_simp

lemma standalone_plugin_witness:
  "\<exists>rp m t. fst demo_standalone = Inr rp \<and> rp_workerManager rp = Some m \<and> w_registered m \<and>
     lease_held mem_redis demo_codec t 0 m (snd demo_standalone) \<and>
     plugin_GenerateID 3 (demo_iteration 0) (demo_time 0) (demo_time 0) (rp_plugin rp) =
       Some (Some (Inl GeneratorNotInitialized), rp_plugin rp)"
proof -
  obtain rp where rp: "fst demo_standalone = Inr rp"
    using demo_standalone_ok by (cases "fst demo_standalone") (auto simp: is_ok_def)
  have run: "NewRedisSnowflakePlugin mem_redis demo_codec (Some demo_resources) False (demo_attempt 1 0) ()
     ''10.0.0.1'' (Some demo_standalone_conf) None mem_empty = (Inr rp, snd demo_standalone)"
    using rp by (simp add: demo_standalone_def [symmetric] prod_eq_iff)
  have "is_ok (NewRedisIntegration (Some demo_resources) None)" by code_simp
  then obtain ri where ri: "NewRedisIntegration (Some demo_resources) None = Inr ri"
    by (cases "NewRedisIntegration (Some demo_resources) None") (auto simp: is_ok_def)
  have "wantsWorkerID (Some demo_standalone_conf)" by code_simp
  moreover have "w_ttl (CreateWorkerManager ri (DatacenterId demo_standalone_conf)
      (Some (standaloneManagerConfig demo_standalone_conf)) ''10.0.0.1'') = 10 * Second"
    by (simp add: CreateWorkerManager_def NewWorkerIDManager_def Let_def standaloneManagerConfig_def
        demo_standalone_conf_def demo_conf_def zero_EonId_def)
  ultimately show ?thesis
    using standalone_plugin [OF mem.redis_server_axioms demo_codec_ok ri _ demo_attempt_ok run] rp by fastforce
qed

end
