(* ===== verification/Worker_Liveness.thy ===== *)
theory Worker_Liveness
  imports Worker_Props
begin

text \<open>
  A worker ID that was lost is replaced: the heartbeat that notices it for the third time
  registers the manager afresh, provided that Redis can be reached and an ID is free.
\<close>

lemma sendHeartbeat_failed:
  assumes "sendHeartbeat R J e m r = (Some err, m', r')"
  shows "m' = m"
  using assms by (auto simp: sendHeartbeat_def split: if_splits prod.splits sum.splits)

lemma beat_cong:
  "w_workerID m' = w_workerID m \<Longrightarrow> w_keyPrefix m' = w_keyPrefix m \<Longrightarrow> w_datacenterID m' = w_datacenterID m \<Longrightarrow>
   w_localIP m' = w_localIP m \<Longrightarrow> w_serviceName m' = w_serviceName m \<Longrightarrow> w_serviceVersion m' = w_serviceVersion m \<Longrightarrow>
   w_registerTime m' = w_registerTime m \<Longrightarrow> w_instanceID m' = w_instanceID m \<Longrightarrow> w_ttl m' = w_ttl m \<Longrightarrow>
   beat R J e m' r = beat R J e m r"
  by (simp add: beat_def beatInfo_def ttlSeconds_def getWorkerKey_def)

text \<open>The state in which the search for a new worker ID starts.\<close>

definition stripped :: "WorkerIDManager \<Rightarrow> WorkerIDManager" where
  "stripped m = stopHeartbeat (m\<lparr>w_healthy := 0, w_leaseDeadline := 0, w_workerID := -1, w_registered := False\<rparr>)"

lemma stripped_sel:
  "w_redisClient (stripped m) = w_redisClient m" "w_shuttingDown (stripped m) = w_shuttingDown m"
  "\<not> w_registered (stripped m)" "w_keyPrefix (stripped m) = w_keyPrefix m" "w_datacenterID (stripped m) = w_datacenterID m"
  "w_maxWorkerID (stripped m) = w_maxWorkerID m" "w_ttl (stripped m) = w_ttl m"
  by (simp_all add: stripped_def stopHeartbeat_def split: option.split)

lemma reacquire_first:
  assumes "0 \<le> w_maxWorkerID m" and "\<not> shut 0" and "w_shuttingDown m \<noteq> 1"
    and "RegisterWorkerID R J cb (env 0) (w_maxWorkerID m) (stripped m) g r = (Inr w, m', g', r')"
  shows "reacquireFreshWorkerID R J cb shut env previous m g r = (None, m', g', r')"
proof -
  have "stopHeartbeat (m\<lparr>w_healthy := 0, w_leaseDeadline := 0, w_workerID := -1, w_registered := False\<rparr>) = stripped m"
    by (simp add: stripped_def)
  then show ?thesis
    using assms stripped_sel [of m] by (simp add: reacquireFreshWorkerID_def Let_def numeral_3_eq_3)
qed

text \<open>C13: A manager whose key has expired or was taken by another instance gets back to work: in
  the heartbeat that fails for the third time, if Redis answers, nobody interferes and any ID from 0 to the
  maximum is free, the manager registers under a free ID, tells it to the generator, holds its key for
  the whole new lease, and is healthy with its count of failures back at 0.\<close>

theorem lost_worker_recovers:
  assumes "redis_server R" and "codec_ok J" and "w_redisClient m" and "w_registered m" and "0 \<le> w_workerID m"
    and "w_shuttingDown m \<noteq> 1" and "0 \<le> w_maxWorkerID m" and "w_maxWorkerID m < 2 ^ 63 - 1" and "2 \<le> k" and "k < 2 ^ 62"
    and "sendHeartbeat R J e m r = (Some err, m1, r1)"
    and "beat R J (r_beat e') m r1 = (Inr code, r2)" and "code = 0 \<or> code = -1"
    and "\<not> r_shut e' 0" and "quiet_envs (r_attempts e' 0)" and "\<And>j. attempt_ok R J m (r_attempts e' 0 j)"
    and "counter_is R (c_at (a_incr (r_attempts e' 0 0))) (getCounterKey m) c r2" and "0 \<le> c"
    and "0 \<le> free" and "free \<le> w_maxWorkerID m"
    and "\<And>j. GET R (c_at (a_setnx (r_attempts e' 0 j))) (getWorkerKey m free) r2 = None"
  shows "\<exists>w m' r' j t. heartbeatTick R J (Some f) e e' k m g r = (0, m', f w g, r') \<and> w_healthy m' = 1 \<and>
    w_registered m' \<and> w_workerID m' = w \<and> 0 \<le> w \<and> w \<le> w_maxWorkerID m \<and>
    GET R (c_at (a_setnx (r_attempts e' 0 j))) (getWorkerKey m w) r2 = None \<and> lease_held R J t 0 m' r'"
proof -
  define ma where "ma = (wprom PromHeartbeatFailures m)\<lparr>w_healthy := 0\<rparr>"
  note frame = wprom_frame [of PromHeartbeatFailures m]
  let ?env = "r_attempts e' 0"
  have m1: "m1 = m" using assms(11) by (rule sendHeartbeat_failed)
  have k: "i64 (k + 1) = k + 1" using assms(9,10) by (simp add: i64_id)
  have ma: "w_redisClient ma" "w_registered ma" "0 \<le> w_workerID ma" "w_shuttingDown ma \<noteq> 1"
    "w_maxWorkerID ma = w_maxWorkerID m" "w_keyPrefix ma = w_keyPrefix m" "w_datacenterID ma = w_datacenterID m" "w_ttl ma = w_ttl m"
    using assms(3-6) by (simp_all add: ma_def wprom_def)
  have key: "getWorkerKey (stripped ma) = getWorkerKey m" "getCounterKey (stripped ma) = getCounterKey m"
    using ma(6,7) stripped_sel(4,5) [of ma] by (simp_all add: getWorkerKey_def getCounterKey_def fun_eq_iff)
  have ok: "\<forall>j. attempt_ok R J (stripped ma) (?env j)"
    using assms(16) ma(6-8) stripped_sel(4,5,7) [of ma] by (simp add: attempt_ok_def generateInstanceID_def)
  have c: "counter_is R (c_at (a_incr (?env 0))) (getCounterKey (stripped ma)) c r2" using assms(17) key(2) by simp
  obtain res m' g' r' where run: "RegisterWorkerID R J (Some f) ?env (w_maxWorkerID ma) (stripped ma) g r2 = (res, m', g', r')"
    by (metis prod_cases4)
  have W: "0 \<le> w_maxWorkerID ma" "w_maxWorkerID ma < 2 ^ 63 - 1" using assms(7,8) ma(5) by simp_all
  have s: "w_redisClient (stripped ma)" "w_shuttingDown (stripped ma) \<noteq> 1" "\<not> w_registered (stripped ma)"
    using ma(1,4) stripped_sel(1-3) [of ma] by simp_all
  from finds_free_aux [OF assms(1,15) c assms(18) W s run]
  obtain j w where w: "res = Inr w" "0 \<le> w" "w \<le> w_maxWorkerID m"
    "GET R (c_at (a_setnx (?env j))) (getWorkerKey m w) r2 = None" "w_registered m'" "w_workerID m' = w" "w_healthy m' = 1"
    using assms(19-21) ma(5) key(1) by auto
  from redis_server.RegisterWorkerID_lease [OF assms(1,2) ok s(3) run [unfolded w(1)]]
  obtain j' where held: "lease_held R J (c_at (a_sadd (?env j'))) 0 m' r'" and g': "g' = f w g" by auto
  have beat: "beat R J (r_beat e') ma r1 = (Inr code, r2)"
    using assms(12) by (subst beat_cong [of ma m]) (simp_all add: ma_def wprom_def)
  have "reacquireFreshWorkerID R J (Some f) (r_shut e') (r_attempts e') (w_workerID ma) ma g r2 = (None, m', g', r')"
    using W(1) assms(14) ma(4) run w(1) by (intro reacquire_first) simp_all
  then have "tryReRegister R J (Some f) e' ma g r1 = (None, m', g', r')"
    using ma(1-3) beat assms(13) by (auto simp: tryReRegister_def)
  then have "heartbeatTick R J (Some f) e e' k m g r = (0, m'\<lparr>w_healthy := 1\<rparr>, f w g, r')"
    using assms(9,11) m1 k g' by (simp add: heartbeatTick_def Let_def ma_def)
  moreover have "m'\<lparr>w_healthy := 1\<rparr> = m'" using w(7) by simp
  ultimately show ?thesis using w held by metis
qed

text \<open>A manager whose Redis lost all data, in the third heartbeat that fails.\<close>

definition demo_lost_beat :: "mem beat_env" where
  "demo_lost_beat = demo_beat 20000 1\<lparr>b_call := lost (at_ms 20000)\<rparr>"

definition demo_again :: "mem rereg_env" where
  "demo_again = \<lparr>r_beat = demo_beat 20000 1, r_shut = (\<lambda>i. False), r_attempts = (\<lambda>i j. demo_attempt 1 20000 j)\<rparr>"

lemma lost_worker_recovers_witness:
  "\<exists>w m' r'. heartbeatTick mem_redis demo_codec (Some SetWorkerID) demo_lost_beat demo_again 2 demo_m1 demo_gen mem_empty =
     (0, m', SetWorkerID w demo_gen, r') \<and> w_healthy m' = 1 \<and> w_workerID m' = w \<and> 0 \<le> w \<and> w \<le> 31"
proof -
  have facts: "w_redisClient demo_m1 \<and> w_shuttingDown demo_m1 \<noteq> 1 \<and> w_maxWorkerID demo_m1 = 31 \<and> w_ttl demo_m1 = 10 * Second"
    by code_simp
  have send: "sendHeartbeat mem_redis demo_codec demo_lost_beat demo_m1 mem_empty = (Some HeartbeatScriptFailed, demo_m1, mem_empty)"
    using facts demo_m1_facts
    by (simp add: sendHeartbeat_def beat_def demo_lost_beat_def demo_beat_def issue_def lost_def)
  have none: "mem_get t key mem_empty = None" for t key by (simp add: mem_get_def mem_empty_def)
  have beat: "beat mem_redis demo_codec (r_beat demo_again) demo_m1 mem_empty = (Inr (-1), mem_empty)"
    by (simp add: beat_def demo_again_def demo_beat_def issue_def arrives_def LuaScriptHeartbeat_def none redisResultToInt64_def)
  have shut: "\<not> r_shut demo_again 0" and att: "r_attempts demo_again 0 = demo_attempt 1 20000"
    by (simp_all add: demo_again_def fun_eq_iff)
  have ok: "attempt_ok mem_redis demo_codec demo_m1 (r_attempts demo_again 0 j)" for j
    using demo_attempt_ok [of 20000 demo_m1] facts att by simp
  have "\<exists>w m' r' j t. heartbeatTick mem_redis demo_codec (Some SetWorkerID) demo_lost_beat demo_again 2 demo_m1 demo_gen mem_empty =
      (0, m', SetWorkerID w demo_gen, r') \<and> w_healthy m' = 1 \<and> w_registered m' \<and> w_workerID m' = w \<and> 0 \<le> w \<and>
      w \<le> w_maxWorkerID demo_m1 \<and>
      GET mem_redis (c_at (a_setnx (r_attempts demo_again 0 j))) (getWorkerKey demo_m1 w) mem_empty = None \<and>
      lease_held mem_redis demo_codec t 0 m' r'"
    by (rule lost_worker_recovers [OF mem.redis_server_axioms demo_codec_ok _ _ _ _ _ _ _ _ send beat _ shut _ ok,
          where c = 0 and free = 0])
      (use facts demo_m1_facts demo_quiet att in \<open>simp_all add: counter_is_def none\<close>)
  with facts show ?thesis by metis
qed

end
