(* ===== verification/Generator_Counts.thy ===== *)
theory Generator_Counts
  imports Generate_Loop
begin

text \<open>
  What the Prometheus counters count: the calls that one \<open>GenerateID\<close> makes on the collectors of
  \<open>prom_metrics.go\<close>, whatever the other callers do meanwhile.
\<close>

definition calls :: "prom_call \<Rightarrow> Generator \<Rightarrow> nat" where
  "calls c g = count_list (g_promCalls g) c"

text \<open>The two counters of whole calls are left alone by attempts.\<close>

definition outcome_calls :: "Generator \<Rightarrow> nat \<times> nat" where
  "outcome_calls g = (calls PromIDsGenerated g, calls PromGenerationErrors g)"

lemma calls_append [simp]: "calls c (prom d g) = calls c g + (if d = c then 1 else 0)"
  by (simp add: calls_def prom_def)

lemma calls_frame [simp]:
  "calls c (onMetrics f g) = calls c g" "calls c (g\<lparr>g_sequence := q\<rparr>) = calls c g"
  "calls c (g\<lparr>g_cacheIndex := i\<rparr>) = calls c g" "calls c (g\<lparr>g_cacheValidCount := i\<rparr>) = calls c g"
  "calls c (g\<lparr>g_sequenceCache := s\<rparr>) = calls c g" "calls c (g\<lparr>g_lastTimestamp := i\<rparr>) = calls c g"
  "calls c (g\<lparr>g_lastClockCheck := t\<rparr>) = calls c g" "calls c (g\<lparr>g_generatedCount := i\<rparr>) = calls c g"
  "calls c (g\<lparr>g_clockBackwardCount := i\<rparr>) = calls c g" "calls c (g\<lparr>g_workerID := i\<rparr>) = calls c g"
  "calls c (g\<lparr>g_isShuttingDown := b\<rparr>) = calls c g" "calls c (g\<lparr>g_isShuttingDownAtomic := i\<rparr>) = calls c g"
  by (simp_all add: calls_def onMetrics_def)

lemma refill_calls [simp]: "calls c (refillSequenceCache g) = calls c g"
  by (simp add: refillSequenceCache_def Let_def split: prod.split)

lemma drift_calls: "checkClockDriftNoSleep check ts g = (r, g') \<Longrightarrow> calls c g' = calls c g"
  by (auto simp: checkClockDriftNoSleep_def Let_def split: if_splits)

lemma overflow_calls:
  "handleSequenceOverflow ign g = (r, g') \<Longrightarrow> calls c g' = calls c g + (if c = PromSequenceOverflows then 1 else 0)"
  by (auto simp: handleSequenceOverflow_def Let_def split: if_splits)

lemma backward_calls:
  "handleBackwardClock ts g = (r, g') \<Longrightarrow>
   calls c g' = calls c g + (if c = PromClockDriftEvents \<and> ts < g_lastTimestamp g then 1 else 0)"
  by (auto simp: handleBackwardClock_def Let_def split: if_splits)

lemma increment_calls:
  "incrementSequence ign ts g = (r, g') \<Longrightarrow> c \<noteq> PromSequenceOverflows \<Longrightarrow> calls c g' = calls c g"
  by (auto simp: incrementSequence_def Let_def split: if_splits prod.splits option.splits dest: overflow_calls)

lemma next_calls: "nextSequence ign ts g = (r, g') \<Longrightarrow> c \<noteq> PromSequenceOverflows \<Longrightarrow> calls c g' = calls c g"
  by (auto simp: nextSequence_def Let_def split: if_splits dest: increment_calls)

text \<open>An attempt counts a clock that went back and an overflow, and nothing else.\<close>

lemma attempt_calls:
  assumes "tryGenerateID now check g = (r, g')"
    and "c \<noteq> PromSequenceOverflows" and "c \<noteq> PromClockDriftEvents"
  shows "calls c g' = calls c g"
proof -
  have e: "emitID hit ts h = (x, h') \<Longrightarrow> calls c h' = calls c h" for hit ts h x h'
    by (auto simp: emitID_def Let_def)
  show ?thesis
    using assms
    by (auto simp: tryGenerateID_def Let_def split: if_splits prod.splits option.splits flow.splits
        dest!: drift_calls [where c = c] backward_calls [where c = c] next_calls [where c = c] e)
qed

lemma step_calls: "gstep op g = (r, g') \<Longrightarrow> c \<noteq> PromSequenceOverflows \<Longrightarrow> c \<noteq> PromClockDriftEvents \<Longrightarrow> calls c g' = calls c g"
  by (cases op) (auto simp: gstep_def SetWorkerID_def Shutdown_def split: prod.splits if_splits dest: attempt_calls)

lemma others_calls:
  assumes "c \<noteq> PromSequenceOverflows" and "c \<noteq> PromClockDriftEvents"
  shows "calls c (others ops g) = calls c g"
proof (induction ops arbitrary: g)
  case (Cons op ops)
  obtain r g' where s: "gstep op g = (r, g')" by (rule prod.exhaust)
  with Cons [of g'] step_calls [OF s assms] show ?case by (auto simp: others_def split: prod.split)
qed (simp add: others_def)

definition timed_out :: "(gen_error, int) result option \<Rightarrow> bool" where
  "timed_out r \<longleftrightarrow> (\<exists>d. r = Some (Inl (WaitBudgetExceeded d)))"

definition handed_out :: "(gen_error, int) result option \<Rightarrow> bool" where
  "handed_out r \<longleftrightarrow> (\<exists>x. r = Some (Inr x))"

lemma attempt_no_timeout: "tryGenerateID now check g = (Failed e, g') \<Longrightarrow> e \<noteq> WaitBudgetExceeded d"
  by (auto simp: tryGenerateID_def emitID_def handleBackwardClock_def nextSequence_def incrementSequence_def
      checkClockDriftNoSleep_def driftError_def Let_def split: if_splits prod.splits option.splits flow.splits)

lemma attempt_outcome:
  assumes "tryGenerateID now check g = (r, g')"
  shows "calls PromIDsGenerated g' = calls PromIDsGenerated g \<and> calls PromGenerationErrors g' = calls PromGenerationErrors g \<and>
    (\<forall>d. r \<noteq> Failed (WaitBudgetExceeded d))"
  using attempt_calls [OF assms] attempt_no_timeout assms by blast

lemma loopBody_calls:
  assumes "loopBody startTime it g = (s, g')"
  shows "case s of
      Finish r \<Rightarrow> calls PromIDsGenerated g' = calls PromIDsGenerated g + (if handed_out (Some r) then 1 else 0) \<and>
        calls PromGenerationErrors g' = calls PromGenerationErrors g + (if timed_out (Some r) then 1 else 0)
    | _ \<Rightarrow> outcome_calls g' = outcome_calls g"
  using assms
  by (auto simp: loopBody_def Let_def outcome_calls_def handed_out_def timed_out_def others_calls
      split: if_splits prod.splits attempt.splits dest!: attempt_outcome)

text \<open>A call counts one ID if it returns one, and one error if its time runs out; every other error (a clock
  that drifted, a shutdown) is not counted, although the collector's description says that failures are.\<close>

theorem GenerateID_counts:
  assumes "GenerateID fuel env startTime i g = Some (r, sleeps, g')"
  shows "calls PromIDsGenerated g' = calls PromIDsGenerated g + (if handed_out r then 1 else 0) \<and>
    calls PromGenerationErrors g' = calls PromGenerationErrors g + (if timed_out r then 1 else 0)"
  using assms
proof (induction fuel env startTime i g arbitrary: r sleeps g' rule: GenerateID.induct)
  case (2 fuel env startTime i g)
  obtain s h where s: "loopBody startTime (env i) g = (s, h)" by (rule prod.exhaust)
  note b = loopBody_calls [OF s]
  show ?case
  proof (cases s)
    case (Sleep d)
    with 2(2) s obtain ds where "GenerateID fuel env startTime (Suc i) h = Some (r, ds, g')"
      by (auto split: option.splits prod.splits)
    from 2(1) [OF s [symmetric] Sleep this] b Sleep show ?thesis by (simp add: outcome_calls_def)
  qed (use 2(2) s b in \<open>auto simp: outcome_calls_def handed_out_def timed_out_def\<close>)
qed simp

end
