(* ===== verification/Json_Text.thy ===== *)
theory Json_Text
  imports Redis
begin

text \<open>
  Text as Go's \<open>encoding/json\<close> reads and writes it: UTF-8 (\<open>unicode/utf8\<close>), the quoting of a
  string by \<open>json.Marshal\<close>, which also escapes what HTML would interpret, and the reading of a
  string literal by \<open>json.Unmarshal\<close>. Strings are lists of bytes. What was quoted is read back; bytes that
  are not UTF-8 come back as the replacement character.
\<close>

section \<open>UTF-8\<close>

abbreviation byte :: "char \<Rightarrow> nat" where "byte \<equiv> of_char"

definition RuneError :: nat where "RuneError = 0xFFFD"

definition cont :: "nat \<Rightarrow> bool" where
  "cont b \<longleftrightarrow> 0x80 \<le> b \<and> b \<le> 0xBF"

text \<open>Which second bytes may follow the first: no overlong forms, no surrogates, nothing beyond
  U+10FFFF.\<close>

definition second_ok :: "nat \<Rightarrow> nat \<Rightarrow> bool" where
  "second_ok b0 b1 \<longleftrightarrow> cont b1 \<and> (b0 = 0xE0 \<longrightarrow> 0xA0 \<le> b1) \<and> (b0 = 0xED \<longrightarrow> b1 \<le> 0x9F) \<and>
     (b0 = 0xF0 \<longrightarrow> 0x90 \<le> b1) \<and> (b0 = 0xF4 \<longrightarrow> b1 \<le> 0x8F)"

text \<open>\<open>utf8.DecodeRune\<close>: the first rune and the bytes it takes.\<close>

fun DecodeRune :: "string \<Rightarrow> nat \<times> nat" where
  "DecodeRune [] = (RuneError, 0)"
| "DecodeRune (c0 # s) =
     (let b0 = byte c0
      in if b0 < 0x80 then (b0, 1)
         else if b0 < 0xC2 \<or> 0xF4 < b0 then (RuneError, 1)
         else if b0 < 0xE0 then
           (case s of
              c1 # _ \<Rightarrow> if second_ok b0 (byte c1) then ((b0 mod 32) * 64 + byte c1 mod 64, 2) else (RuneError, 1)
            | _ \<Rightarrow> (RuneError, 1))
         else if b0 < 0xF0 then
           (case s of
              c1 # c2 # _ \<Rightarrow> if second_ok b0 (byte c1) \<and> cont (byte c2)
                then ((b0 mod 16) * 4096 + (byte c1 mod 64) * 64 + byte c2 mod 64, 3) else (RuneError, 1)
            | _ \<Rightarrow> (RuneError, 1))
         else
           (case s of
              c1 # c2 # c3 # _ \<Rightarrow> if second_ok b0 (byte c1) \<and> cont (byte c2) \<and> cont (byte c3)
                then ((b0 mod 8) * 262144 + (byte c1 mod 64) * 4096 + (byte c2 mod 64) * 64 + byte c3 mod 64, 4)
                else (RuneError, 1)
            | _ \<Rightarrow> (RuneError, 1)))"

definition surrogate :: "nat \<Rightarrow> bool" where
  "surrogate r \<longleftrightarrow> 0xD800 \<le> r \<and> r < 0xE000"

text \<open>\<open>utf8.EncodeRune\<close>\<close>

definition EncodeRune :: "nat \<Rightarrow> string" where
  "EncodeRune r0 =
     (let r = (if r0 > 0x10FFFF \<or> surrogate r0 then RuneError else r0)
      in if r < 0x80 then [char_of r]
         else if r < 0x800 then [char_of (0xC0 + r div 64), char_of (0x80 + r mod 64)]
         else if r < 0x10000 then
           [char_of (0xE0 + r div 4096), char_of (0x80 + r div 64 mod 64), char_of (0x80 + r mod 64)]
         else
           [char_of (0xF0 + r div 262144), char_of (0x80 + r div 4096 mod 64), char_of (0x80 + r div 64 mod 64),
            char_of (0x80 + r mod 64)])"

text \<open>A rune was there: not the error with width one.\<close>

definition is_rune :: "string \<Rightarrow> bool" where
  "is_rune s \<longleftrightarrow> s \<noteq> [] \<and> DecodeRune s \<noteq> (RuneError, 1)"

lemma byte_less [simp]: "byte c < 256"
  using nat_of_char_less_256 by simp

lemma char_of_byte [simp]: "char_of (byte c) = c"
  by simp

lemma DecodeRune_width: "s \<noteq> [] \<Longrightarrow> DecodeRune s = (r, n) \<Longrightarrow> 1 \<le> n \<and> n \<le> length s"
  by (cases s) (auto simp: Let_def split: if_splits list.splits)

lemma DecodeRune_ascii: "byte c < 128 \<Longrightarrow> DecodeRune (c # s) = (byte c, 1)"
  by (simp add: Let_def)

lemma char_eqI: "byte c = n \<Longrightarrow> c = char_of n"
  by auto

lemma offset_mod: "x < m \<Longrightarrow> (m * k + x) mod m = x" for x m k :: nat
  by simp

lemma split_mod: "r = q * m + z \<Longrightarrow> z < m \<Longrightarrow> r div m = q \<and> r mod m = z" for r q m z :: nat
  by auto

lemma encode2: "0xC2 \<le> a \<Longrightarrow> a < 0xE0 \<Longrightarrow> cont b \<Longrightarrow>
    (r = (a mod 32) * 64 + b mod 64) \<Longrightarrow> 0x80 \<le> r \<and> r < 0x800 \<and> 0xC0 + r div 64 = a \<and> 0x80 + r mod 64 = b"
  for a b :: nat
proof -
  assume a: "0xC2 \<le> a" "a < 0xE0" and "cont b" and r: "r = (a mod 32) * 64 + b mod 64"
  define x y where "x = a - 0xC0" and "y = b - 0x80"
  have y: "b = 0x80 + y" "y < 64" and x: "a = 0xC0 + x" "2 \<le> x" "x < 32"
    using \<open>cont b\<close> a by (auto simp: x_def y_def cont_def)
  have "r = x * 64 + y" using r x y offset_mod [of x 32 6] offset_mod [of y 64 2] by simp
  then show ?thesis using x y by simp
qed

lemma encode3: "0xE0 \<le> a \<Longrightarrow> a < 0xF0 \<Longrightarrow> second_ok a b \<Longrightarrow> cont c \<Longrightarrow>
    r = (a mod 16) * 4096 + (b mod 64) * 64 + c mod 64 \<Longrightarrow>
    0x800 \<le> r \<and> r < 0x10000 \<and> \<not> surrogate r \<and>
    0xE0 + r div 4096 = a \<and> 0x80 + r div 64 mod 64 = b \<and> 0x80 + r mod 64 = c"
  for a b c :: nat
proof -
  assume a: "0xE0 \<le> a" "a < 0xF0" and ok: "second_ok a b" "cont c"
    and r: "r = (a mod 16) * 4096 + (b mod 64) * 64 + c mod 64"
  define x y z where "x = a - 0xE0" and "y = b - 0x80" and "z = c - 0x80"
  have y: "b = 0x80 + y" "y < 64" and z: "c = 0x80 + z" "z < 64" and x: "a = 0xE0 + x" "x < 16"
    using ok a by (auto simp: x_def y_def z_def second_ok_def cont_def)
  have r': "r = x * 4096 + y * 64 + z" using r x y z offset_mod [of x 16 14] offset_mod [of y 64 2] offset_mod [of z 64 2] by simp
  have e: "x = 0 \<Longrightarrow> 32 \<le> y" "x = 13 \<Longrightarrow> y < 32" using ok x y by (auto simp: second_ok_def)
  have "0x800 \<le> r" using e(1) r' by (cases "x = 0") auto
  moreover have "\<not> surrogate r"
    using e(2) r' y(2) z(2) by (cases "x = 13"; cases "x < 13") (auto simp: surrogate_def)
  moreover have "r div 4096 = x" "r div 64 mod 64 = y" "r mod 64 = z"
  proof -
    have "r div 64 = x * 64 + y" "r mod 64 = z"
      using split_mod [of r "x * 64 + y" 64 z] r' z(2) by (simp_all add: algebra_simps)
    moreover have "r div 4096 = r div 64 div 64" by (simp add: div_mult2_eq [symmetric])
    ultimately show "r div 4096 = x" "r div 64 mod 64 = y" "r mod 64 = z" using y(2) by simp_all
  qed
  ultimately show ?thesis using x y z r' by simp
qed

lemma encode4: "0xF0 \<le> a \<Longrightarrow> a \<le> 0xF4 \<Longrightarrow> second_ok a b \<Longrightarrow> cont c \<Longrightarrow> cont d \<Longrightarrow>
    r = (a mod 8) * 262144 + (b mod 64) * 4096 + (c mod 64) * 64 + d mod 64 \<Longrightarrow>
    0x10000 \<le> r \<and> r \<le> 0x10FFFF \<and>
    0xF0 + r div 262144 = a \<and> 0x80 + r div 4096 mod 64 = b \<and> 0x80 + r div 64 mod 64 = c \<and> 0x80 + r mod 64 = d"
  for a b c d :: nat
proof -
  assume a: "0xF0 \<le> a" "a \<le> 0xF4" and ok: "second_ok a b" "cont c" "cont d"
    and r: "r = (a mod 8) * 262144 + (b mod 64) * 4096 + (c mod 64) * 64 + d mod 64"
  define x y z w where "x = a - 0xF0" and "y = b - 0x80" and "z = c - 0x80" and "w = d - 0x80"
  have y: "b = 0x80 + y" "y < 64" and z: "c = 0x80 + z" "z < 64" and w: "d = 0x80 + w" "w < 64"
    and x: "a = 0xF0 + x" "x < 5"
    using ok a by (auto simp: x_def y_def z_def w_def second_ok_def cont_def)
  have r': "r = x * 262144 + y * 4096 + z * 64 + w" using r x y z w offset_mod [of x 8 30] offset_mod [of y 64 2]
      offset_mod [of z 64 2] offset_mod [of w 64 2] by simp
  have e: "x = 0 \<Longrightarrow> 16 \<le> y" "x = 4 \<Longrightarrow> y < 16" using ok x y by (auto simp: second_ok_def)
  have "0x10000 \<le> r" using e(1) r' by (cases "x = 0") auto
  moreover have "r \<le> 0x10FFFF" using e(2) r' x(2) y(2) z(2) w(2) by (cases "x = 4") auto
  moreover have "r div 262144 = x" "r div 4096 mod 64 = y" "r div 64 mod 64 = z" "r mod 64 = w"
  proof -
    have "r div 64 = (x * 64 + y) * 64 + z" "r mod 64 = w"
      using split_mod [of r "(x * 64 + y) * 64 + z" 64 w] r' w(2) by (simp_all add: algebra_simps)
    moreover from split_mod [OF this(1) z(2)] have "r div 64 div 64 = x * 64 + y" "r div 64 mod 64 = z" by simp_all
    moreover from split_mod [OF this(1) y(2)] have "r div 64 div 64 div 64 = x" "r div 64 div 64 mod 64 = y" by simp_all
    moreover have "r div 4096 = r div 64 div 64" "r div 262144 = r div 64 div 64 div 64"
      by (simp_all add: div_mult2_eq [symmetric])
    ultimately show "r div 262144 = x" "r div 4096 mod 64 = y" "r div 64 mod 64 = z" "r mod 64 = w" by simp_all
  qed
  ultimately show ?thesis using x y z w r' by simp
qed

text \<open>What was decoded is encoded to the same bytes.\<close>

lemma encode_decode:
  assumes "is_rune s" and "DecodeRune s = (r, n)"
  shows "EncodeRune r = take n s" and "r \<le> 0x10FFFF" and "\<not> surrogate r"
proof -
  obtain c0 t where s: "s = c0 # t" using assms(1) by (cases s) (auto simp: is_rune_def)
  consider (one) "byte c0 < 0x80" "r = byte c0" "n = 1"
    | (two) c1 u where "0xC2 \<le> byte c0" "byte c0 < 0xE0" "t = c1 # u" "second_ok (byte c0) (byte c1)"
      "r = (byte c0 mod 32) * 64 + byte c1 mod 64" "n = 2"
    | (three) c1 c2 u where "0xE0 \<le> byte c0" "byte c0 < 0xF0" "t = c1 # c2 # u" "second_ok (byte c0) (byte c1)"
      "cont (byte c2)" "r = (byte c0 mod 16) * 4096 + (byte c1 mod 64) * 64 + byte c2 mod 64" "n = 3"
    | (four) c1 c2 c3 u where "0xF0 \<le> byte c0" "byte c0 \<le> 0xF4" "t = c1 # c2 # c3 # u"
      "second_ok (byte c0) (byte c1)" "cont (byte c2)" "cont (byte c3)"
      "r = (byte c0 mod 8) * 262144 + (byte c1 mod 64) * 4096 + (byte c2 mod 64) * 64 + byte c3 mod 64" "n = 4"
    using assms s by (auto simp: is_rune_def Let_def not_less split: if_splits list.splits)
  then have "EncodeRune r = take n s \<and> r \<le> 0x10FFFF \<and> \<not> surrogate r"
  proof cases
    case one
    then show ?thesis using s by (simp add: EncodeRune_def Let_def surrogate_def)
  next
    case two
    then show ?thesis using s encode2 [of "byte c0" "byte c1" r]
      by (simp add: EncodeRune_def Let_def surrogate_def second_ok_def)
  next
    case three
    then show ?thesis using s encode3 [of "byte c0" "byte c1" "byte c2" r] by (simp add: EncodeRune_def Let_def)
  next
    case four
    then show ?thesis using s encode4 [of "byte c0" "byte c1" "byte c2" "byte c3" r]
      by (simp add: EncodeRune_def Let_def surrogate_def)
  qed
  then show "EncodeRune r = take n s" and "r \<le> 0x10FFFF" and "\<not> surrogate r" by simp_all
qed

section \<open>Quoting\<close>

definition hex_digit :: "nat \<Rightarrow> char" where
  "hex_digit d = (if d < 10 then char_of (48 + d) else char_of (87 + d))"

text \<open>The table \<open>htmlSafeSet\<close> below 128: printing characters but for the quote, the backslash and
  what HTML would interpret.\<close>

definition htmlSafe :: "char \<Rightarrow> bool" where
  "htmlSafe c \<longleftrightarrow> 32 \<le> byte c \<and> c \<notin> {CHR 0x22, CHR ''&'', CHR ''<'', CHR ''>'', CHR 0x5C}"

definition escape :: "char \<Rightarrow> string" where
  "escape c =
     (if c = CHR 0x5C \<or> c = CHR 0x22 then [CHR 0x5C, c]
      else if byte c = 8 then [CHR 0x5C, CHR ''b'']
      else if byte c = 12 then [CHR 0x5C, CHR ''f'']
      else if byte c = 10 then [CHR 0x5C, CHR ''n'']
      else if byte c = 13 then [CHR 0x5C, CHR ''r'']
      else if byte c = 9 then [CHR 0x5C, CHR ''t'']
      else [CHR 0x5C, CHR ''u'', CHR ''0'', CHR ''0'', hex_digit (byte c div 16), hex_digit (byte c mod 16)])"

text \<open>\<open>appendString\<close> of \<open>encoding/json\<close> with HTML escaping, between the quotes.\<close>

function quoteBody :: "string \<Rightarrow> string" where
  "quoteBody [] = []"
| "quoteBody (c # s) =
     (if byte c < 128 then (if htmlSafe c then [c] else escape c) @ quoteBody s
      else
      let (r, n) = DecodeRune (c # s)
      in if r = RuneError \<and> n = 1 then CHR 0x5C # ''ufffd'' @ quoteBody s
         else if r = 0x2028 \<or> r = 0x2029 then CHR 0x5C # ''u202'' @ hex_digit (r mod 16) # quoteBody (drop (n - 1) s)
         else take n (c # s) @ quoteBody (drop (n - 1) s))"
  by pat_completeness auto
termination by (relation "measure length") (auto simp: less_Suc_eq_le)

definition quote :: "string \<Rightarrow> string" where
  "quote s = CHR 0x22 # quoteBody s @ [CHR 0x22]"

section \<open>Reading a string literal\<close>

definition hex_value :: "char \<Rightarrow> nat option" where
  "hex_value c =
     (let b = byte c
      in if 48 \<le> b \<and> b \<le> 57 then Some (b - 48)
         else if 97 \<le> b \<and> b \<le> 102 then Some (b - 87)
         else if 65 \<le> b \<and> b \<le> 70 then Some (b - 55) else None)"

text \<open>\<open>getu4\<close>, after the \<open>u\<close>\<close>

fun hex4 :: "string \<Rightarrow> nat option" where
  "hex4 (a # b # c # d # s) =
     (case (hex_value a, hex_value b, hex_value c, hex_value d) of
        (Some a, Some b, Some c, Some d) \<Rightarrow> Some (((a * 16 + b) * 16 + c) * 16 + d)
      | _ \<Rightarrow> None)"
| "hex4 s = None"

definition unescape :: "char \<Rightarrow> string option" where
  "unescape c =
     (if c = CHR 0x22 \<or> c = CHR 0x5C \<or> c = CHR ''/'' then Some [c]
      else if c = CHR ''b'' then Some [char_of (8 :: nat)]
      else if c = CHR ''f'' then Some [char_of (12 :: nat)]
      else if c = CHR ''n'' then Some [char_of (10 :: nat)]
      else if c = CHR ''r'' then Some [char_of (13 :: nat)]
      else if c = CHR ''t'' then Some [char_of (9 :: nat)]
      else None)"

text \<open>The second half of a surrogate pair, with its escape: \<open>utf16.DecodeRune\<close>.\<close>

definition pair_rune :: "nat \<Rightarrow> string \<Rightarrow> nat option" where
  "pair_rune r1 s =
     (case s of
        x # y # s' \<Rightarrow>
          if x = CHR 0x5C \<and> y = CHR ''u'' then
            (case hex4 s' of
               Some r2 \<Rightarrow> if 0xD800 \<le> r1 \<and> r1 < 0xDC00 \<and> 0xDC00 \<le> r2 \<and> r2 < 0xE000
                 then Some ((r1 - 0xD800) * 1024 + (r2 - 0xDC00) + 0x10000) else None
             | None \<Rightarrow> None)
          else None
      | _ \<Rightarrow> None)"

definition pushed :: "string \<Rightarrow> (string \<times> string) option \<Rightarrow> (string \<times> string) option" where
  "pushed x res = map_option (\<lambda>(t, rest). (x @ t, rest)) res"

text \<open>The literal after its opening quote, with what follows its closing quote: the scanner's
  conditions and \<open>unquote\<close> in one pass.\<close>

function stringLit :: "string \<Rightarrow> (string \<times> string) option" where
  "stringLit [] = None"
| "stringLit (c # s) =
     (if c = CHR 0x22 then Some ([], s)
      else if c = CHR 0x5C then
        (case s of
           [] \<Rightarrow> None
         | e # s1 \<Rightarrow>
             if e = CHR ''u'' then
               (case hex4 s1 of
                  None \<Rightarrow> None
                | Some r \<Rightarrow>
                    if surrogate r then
                      (case pair_rune r (drop 4 s1) of
                         Some dec \<Rightarrow> pushed (EncodeRune dec) (stringLit (drop 10 s1))
                       | None \<Rightarrow> pushed (EncodeRune RuneError) (stringLit (drop 4 s1)))
                    else pushed (EncodeRune r) (stringLit (drop 4 s1)))
             else
               (case unescape e of
                  None \<Rightarrow> None
                | Some x \<Rightarrow> pushed x (stringLit s1)))
      else if byte c < 32 then None
      else if byte c < 128 then pushed [c] (stringLit s)
      else case DecodeRune (c # s) of (r, n) \<Rightarrow> pushed (EncodeRune r) (stringLit (drop (n - 1) s)))"
  by pat_completeness auto
termination by (relation "measure length") (auto simp: less_Suc_eq_le)

section \<open>What was quoted is read back\<close>

text \<open>Well-formed UTF-8, and a string with the replacement character for every other byte.\<close>

function valid_utf8 :: "string \<Rightarrow> bool" where
  "valid_utf8 [] = True"
| "valid_utf8 (c # s) = (is_rune (c # s) \<and> valid_utf8 (drop (snd (DecodeRune (c # s)) - 1) s))"
  by pat_completeness auto
termination by (relation "measure length") (auto simp: less_Suc_eq_le)

function sanitize :: "string \<Rightarrow> string" where
  "sanitize [] = []"
| "sanitize (c # s) =
     (let n = snd (DecodeRune (c # s))
      in if is_rune (c # s) then take n (c # s) @ sanitize (drop (n - 1) s)
         else EncodeRune RuneError @ sanitize s)"
  by pat_completeness auto
termination by (relation "measure length") (auto simp: less_Suc_eq_le)

lemma take_drop_Cons: "1 \<le> n \<Longrightarrow> take n (c # s) @ drop (n - 1) s = c # s"
  by (cases n) simp_all

lemma sanitize_valid: "valid_utf8 s \<Longrightarrow> sanitize s = s"
proof (induction s rule: valid_utf8.induct)
  case (2 c s)
  obtain r n where d: "DecodeRune (c # s) = (r, n)" by (rule prod.exhaust)
  with 2 DecodeRune_width [OF _ d] show ?case
    using take_drop_Cons [of n c s] by (simp add: Let_def del: take_Suc_Cons DecodeRune.simps)
qed simp

lemma ascii_is_rune: "byte c < 128 \<Longrightarrow> is_rune (c # s)"
  by (simp add: is_rune_def RuneError_def DecodeRune_ascii del: DecodeRune.simps)

lemma valid_utf8_ascii: "list_all (\<lambda>c. byte c < 128) s \<Longrightarrow> valid_utf8 s"
proof (induction s)
  case (Cons c s)
  then show ?case by (simp add: ascii_is_rune DecodeRune_ascii del: DecodeRune.simps)
qed simp

lemma DecodeRune_prefix:
  assumes "is_rune s" and "DecodeRune s = (r, n)"
  shows "DecodeRune (take n s @ t) = (r, n)"
proof -
  obtain c0 u where s: "s = c0 # u" using assms(1) by (cases s) (auto simp: is_rune_def)
  show ?thesis
    using assms unfolding s
    by (auto simp: is_rune_def Let_def split: if_splits list.splits)
qed

text \<open>Hexadecimal digits.\<close>

lemma hex_value_digit: "d < 16 \<Longrightarrow> hex_value (hex_digit d) = Some d"
  by (auto simp: hex_value_def hex_digit_def Let_def)

lemma pushed_simp [simp]: "pushed x (Some (t, rest)) = Some (x @ t, rest)"
  by (simp add: pushed_def)

lemma EncodeRune_ascii: "byte c < 128 \<Longrightarrow> EncodeRune (byte c) = [c]"
  by (simp add: EncodeRune_def Let_def surrogate_def)

lemma stringLit_rune:
  assumes "is_rune (c # s)" and "128 \<le> byte c" and d: "DecodeRune (c # s) = (r, n)"
  shows "stringLit (take n (c # s) @ t) = pushed (take n (c # s)) (stringLit t)"
proof -
  from DecodeRune_width [OF _ d] obtain k where n: "n = Suc k" "k \<le> length s" by (cases n) auto
  have "DecodeRune (c # take k s @ t) = (r, n)" using DecodeRune_prefix [OF assms(1) d, of t] n by simp
  moreover have "c \<noteq> CHR 0x22" "c \<noteq> CHR 0x5C" using assms(2) by auto
  ultimately show ?thesis
    using assms(2) n encode_decode(1) [OF assms(1) d] by (simp del: DecodeRune.simps)
qed

lemma stringLit_u:
  assumes "hex_value a = Some i" and "hex_value b = Some j" and "hex_value c = Some k" and "hex_value d = Some l"
    and "r = ((i * 16 + j) * 16 + k) * 16 + l" and "\<not> surrogate r"
  shows "stringLit (CHR 0x5C # CHR ''u'' # a # b # c # d # t) = pushed (EncodeRune r) (stringLit t)"
  using assms by (simp add: numeral_eq_Suc)

lemma hex_values: "hex_value (CHR ''f'') = Some 15" "hex_value (CHR ''d'') = Some 13" "hex_value (CHR ''2'') = Some 2"
  "hex_value (CHR ''0'') = Some 0"
  by (simp_all add: hex_value_def Let_def)

lemma stringLit_escape:
  assumes "byte c < 128" and "\<not> htmlSafe c"
  shows "stringLit (escape c @ t) = pushed [c] (stringLit t)"
proof -
  consider "c = CHR 0x5C \<or> c = CHR 0x22"
    | "c \<noteq> CHR 0x5C" "c \<noteq> CHR 0x22" "byte c \<in> {8, 9, 10, 12, 13}"
    | "c \<noteq> CHR 0x5C" "c \<noteq> CHR 0x22" "byte c \<notin> {8, 9, 10, 12, 13}" by blast
  then show ?thesis
  proof cases
    case 1
    then show ?thesis by (auto simp: escape_def unescape_def)
  next
    case 2
    then show ?thesis by (auto simp: escape_def unescape_def dest!: char_eqI)
  next
    case 3
    have e: "escape c = [CHR 0x5C, CHR ''u'', CHR ''0'', CHR ''0'', hex_digit (byte c div 16), hex_digit (byte c mod 16)]"
      using 3 by (simp add: escape_def)
    have "stringLit (CHR 0x5C # CHR ''u'' # CHR ''0'' # CHR ''0'' # hex_digit (byte c div 16) # hex_digit (byte c mod 16) # t) =
        pushed (EncodeRune (byte c)) (stringLit t)"
      by (rule stringLit_u [OF hex_values(4,4) hex_value_digit hex_value_digit])
        (use assms(1) in \<open>simp_all add: less_mult_imp_div_less surrogate_def\<close>)
    then show ?thesis using EncodeRune_ascii [OF assms(1)] by (simp only: e append.simps)
  qed
qed

lemma stringLit_quoteBody: "stringLit (quoteBody s @ CHR 0x22 # rest) = Some (sanitize s, rest)"
proof (induction s rule: quoteBody.induct)
  case (2 c s)
  obtain r n where d: "DecodeRune (c # s) = (r, n)" by (rule prod.exhaust)
  note simps = quoteBody.simps(2) sanitize.simps(2)
  consider "byte c < 128" "htmlSafe c" | "byte c < 128" "\<not> htmlSafe c" | "128 \<le> byte c" "\<not> is_rune (c # s)"
    | "128 \<le> byte c" "is_rune (c # s)" "r = 0x2028 \<or> r = 0x2029"
    | "128 \<le> byte c" "is_rune (c # s)" "r \<noteq> 0x2028" "r \<noteq> 0x2029" by linarith
  then show ?case
  proof cases
    case 1
    have "stringLit (c # quoteBody s @ CHR 0x22 # rest) = pushed [c] (stringLit (quoteBody s @ CHR 0x22 # rest))"
      using 1 by (auto simp: htmlSafe_def)
    then show ?thesis
      using 1 "2.IH"(1) ascii_is_rune [of c s] by (simp add: DecodeRune_ascii Let_def del: DecodeRune.simps)
  next
    case 2
    then show ?thesis
      using "2.IH"(1) stringLit_escape [OF 2] ascii_is_rune [of c s]
      by (simp add: DecodeRune_ascii Let_def del: DecodeRune.simps stringLit.simps)
  next
    case 3
    then have e: "r = RuneError" "n = 1" using d by (simp_all add: is_rune_def)
    have "stringLit (CHR 0x5C # CHR ''u'' # CHR ''f'' # CHR ''f'' # CHR ''f'' # CHR ''d'' # t) =
        pushed (EncodeRune RuneError) (stringLit t)" for t
      by (rule stringLit_u [OF hex_values(1,1,1,2)]) (simp_all add: RuneError_def surrogate_def)
    then show ?thesis
      using 3 d e "2.IH"(2) [OF _ d [symmetric]] by (simp add: Let_def del: DecodeRune.simps stringLit.simps)
  next
    case 4
    let ?t = "quoteBody (drop (n - 1) s) @ CHR 0x22 # rest"
    have m: "r mod 16 < 16" "r = ((2 * 16 + 0) * 16 + 2) * 16 + r mod 16" "\<not> surrogate r" "r \<noteq> RuneError"
      using 4(3) by (auto simp: surrogate_def RuneError_def)
    have "stringLit (CHR 0x5C # CHR ''u'' # CHR ''2'' # CHR ''0'' # CHR ''2'' # hex_digit (r mod 16) # ?t) =
        pushed (EncodeRune r) (stringLit ?t)"
      by (rule stringLit_u [OF hex_values(3,4,3) hex_value_digit [OF m(1)] m(2,3)])
    then show ?thesis
      using 4 d m(4) "2.IH"(3) [OF _ d [symmetric]] encode_decode(1) [OF 4(2) d]
      by (simp add: Let_def del: DecodeRune.simps stringLit.simps take_Suc_Cons)
  next
    case 5
    then have "\<not> (r = RuneError \<and> n = 1)" using d by (simp add: is_rune_def)
    then show ?thesis
      using 5 d "2.IH"(4) [OF _ d [symmetric]] stringLit_rune [OF 5(2,1) d]
      by (auto simp add: Let_def simp del: DecodeRune.simps stringLit.simps take_Suc_Cons)
  qed
qed simp

text \<open>The literal that \<open>json.Marshal\<close> writes, read after its first quote.\<close>

lemma read_quote: "stringLit (tl (quote s) @ rest) = Some (sanitize s, rest)"
  using stringLit_quoteBody [of s rest] by (simp add: quote_def)

end
