(* ===== verification/Json_Value.thy ===== *)
theory Json_Value
  imports Json_Text
begin

text \<open>
  JSON values as \<open>json.Unmarshal\<close> accepts them: the grammar of its scanner, with at most 10000
  arrays and objects inside each other. Numbers stay as they are written until a field says
  what they are to be.
\<close>

datatype json =
  JNull | JBool bool | JNumber string | JString string | JArray "json list" | JObject "(string \<times> json) list"

fun skip_ws :: "string \<Rightarrow> string" where
  "skip_ws [] = []"
| "skip_ws (c # s) = (if byte c \<in> {9, 10, 13, 32} then skip_ws s else c # s)"

definition is_digit :: "char \<Rightarrow> bool" where
  "is_digit c \<longleftrightarrow> 48 \<le> byte c \<and> byte c \<le> 57"

section \<open>Numbers\<close>

text \<open>\<open>-? (0 | [1-9][0-9]*) (. [0-9]+)? ([eE] [+-]? [0-9]+)?\<close>: the literal and the rest.\<close>

definition digits1 :: "string \<Rightarrow> (string \<times> string) option" where
  "digits1 s = (let d = takeWhile is_digit s in if d = [] then None else Some (d, dropWhile is_digit s))"

definition int_part :: "string \<Rightarrow> (string \<times> string) option" where
  "int_part s = (case s of
     [] \<Rightarrow> None
   | c # t \<Rightarrow> if c = CHR ''0'' then Some ([c], t) else digits1 s)"

definition frac_part :: "string \<Rightarrow> (string \<times> string) option" where
  "frac_part s = (case s of
     [] \<Rightarrow> Some ([], [])
   | c # t \<Rightarrow> if c = CHR ''.'' then map_option (\<lambda>(d, r). (c # d, r)) (digits1 t) else Some ([], s))"

definition exp_part :: "string \<Rightarrow> (string \<times> string) option" where
  "exp_part s = (case s of
     [] \<Rightarrow> Some ([], [])
   | c # t \<Rightarrow>
       if c = CHR ''e'' \<or> c = CHR ''E'' then
         (case t of
            [] \<Rightarrow> None
          | x # u \<Rightarrow> if x = CHR ''+'' \<or> x = CHR ''-'' then map_option (\<lambda>(d, r). (c # x # d, r)) (digits1 u)
                     else map_option (\<lambda>(d, r). (c # d, r)) (digits1 t))
       else Some ([], s))"

definition number :: "string \<Rightarrow> (string \<times> string) option" where
  "number s =
     (let (sign, s) = (case s of c # t \<Rightarrow> if c = CHR ''-'' then ([c], t) else ([], s) | [] \<Rightarrow> ([], []))
      in case int_part s of None \<Rightarrow> None
       | Some (i, s) \<Rightarrow>
      (case frac_part s of None \<Rightarrow> None
       | Some (f, s) \<Rightarrow>
      (case exp_part s of None \<Rightarrow> None
       | Some (e, s) \<Rightarrow> Some (sign @ i @ f @ e, s))))"

section \<open>Values\<close>

definition maxNestingDepth :: nat where "maxNestingDepth = 10000"

definition literal :: "string \<Rightarrow> json \<Rightarrow> string \<Rightarrow> (json \<times> string) option" where
  "literal w v s = (if take (length w) s = w then Some (v, drop (length w) s) else None)"

text \<open>A value, the members of an object after its brace, the elements of an array after its
  bracket, inside \<open>d\<close> others; on twice as much fuel as there is text.\<close>

fun jvalue :: "nat \<Rightarrow> nat \<Rightarrow> string \<Rightarrow> (json \<times> string) option"
  and jmembers :: "nat \<Rightarrow> nat \<Rightarrow> string \<Rightarrow> ((string \<times> json) list \<times> string) option"
  and jelements :: "nat \<Rightarrow> nat \<Rightarrow> string \<Rightarrow> (json list \<times> string) option" where
  "jvalue 0 d s = None"
| "jvalue (Suc f) d s =
     (case s of
        [] \<Rightarrow> None
      | c # t \<Rightarrow>
          if c = CHR 0x22 then map_option (\<lambda>(x, r). (JString x, r)) (stringLit t)
          else if c = CHR 0x7B then
            (if d \<ge> maxNestingDepth then None
             else case skip_ws t of
                    [] \<Rightarrow> None
                  | x # u \<Rightarrow> if x = CHR 0x7D then Some (JObject [], u)
                             else map_option (\<lambda>(ms, r). (JObject ms, r)) (jmembers f (Suc d) (x # u)))
          else if c = CHR 0x5B then
            (if d \<ge> maxNestingDepth then None
             else case skip_ws t of
                    [] \<Rightarrow> None
                  | x # u \<Rightarrow> if x = CHR 0x5D then Some (JArray [], u)
                             else map_option (\<lambda>(vs, r). (JArray vs, r)) (jelements f (Suc d) (x # u)))
          else if c = CHR ''n'' then literal ''null'' JNull s
          else if c = CHR ''t'' then literal ''true'' (JBool True) s
          else if c = CHR ''f'' then literal ''false'' (JBool False) s
          else map_option (\<lambda>(n, r). (JNumber n, r)) (number s))"
| "jmembers 0 d s = None"
| "jmembers (Suc f) d s =
     (case s of
        [] \<Rightarrow> None
      | c # t \<Rightarrow>
          if c \<noteq> CHR 0x22 then None
          else case stringLit t of None \<Rightarrow> None
             | Some (k, r) \<Rightarrow>
          (case skip_ws r of [] \<Rightarrow> None
             | c # r \<Rightarrow>
          if c \<noteq> CHR '':'' then None
          else case jvalue f d (skip_ws r) of None \<Rightarrow> None
             | Some (v, r) \<Rightarrow>
          (case skip_ws r of [] \<Rightarrow> None
             | c # r \<Rightarrow>
          if c = CHR '','' then map_option (\<lambda>(ms, r). ((k, v) # ms, r)) (jmembers f d (skip_ws r))
          else if c = CHR 0x7D then Some ([(k, v)], r) else None)))"
| "jelements 0 d s = None"
| "jelements (Suc f) d s =
     (case jvalue f d s of None \<Rightarrow> None
      | Some (v, r) \<Rightarrow>
      (case skip_ws r of [] \<Rightarrow> None
       | c # r \<Rightarrow>
          if c = CHR '','' then map_option (\<lambda>(vs, r). (v # vs, r)) (jelements f d (skip_ws r))
          else if c = CHR 0x5D then Some ([v], r) else None))"

definition parse_json :: "string \<Rightarrow> json option" where
  "parse_json s =
     (case jvalue (Suc (2 * length s)) 0 (skip_ws s) of
        None \<Rightarrow> None
      | Some (v, r) \<Rightarrow> if skip_ws r = [] then Some v else None)"

section \<open>The fuel is enough\<close>

text \<open>Every part of a text that is read is followed by less text than there was.\<close>

lemma skip_ws_length: "length (skip_ws s) \<le> length s"
  by (induction s) auto

lemma pushed_SomeD: "pushed z (stringLit t) = Some (x, r) \<Longrightarrow> length t \<le> n \<Longrightarrow>
    \<exists>u y. stringLit u = Some (y, r) \<and> length u \<le> n"
  by (auto simp: pushed_def)

lemma stringLit_step:
  assumes "stringLit (c # s) = Some (x, r)"
  shows "r = s \<or> (\<exists>u y. stringLit u = Some (y, r) \<and> length u \<le> length s)"
  using assms unfolding stringLit.simps(2)
  by (auto simp del: DecodeRune.simps hex4.simps stringLit.simps split: if_splits option.splits prod.splits list.splits
      dest!: pushed_SomeD [where n = "length s"])

lemma stringLit_length: "stringLit s = Some (x, r) \<Longrightarrow> length r < length s"
proof (induction s arbitrary: x r rule: length_induct)
  case (1 s)
  then show ?case
  proof (cases s)
    case (Cons c t)
    then have "r = t \<or> (\<exists>u y. stringLit u = Some (y, r) \<and> length u \<le> length t)"
      using stringLit_step "1.prems" by metis
    then show ?thesis
    proof (elim disjE exE conjE)
      fix u y
      assume u: "stringLit u = Some (y, r)" "length u \<le> length t"
      then have "length r < length u" using "1.IH" Cons by simp
      with u Cons show ?thesis by simp
    qed (simp add: Cons)
  qed simp
qed

lemma number_length: "number s = Some (x, r) \<Longrightarrow> length r < length s"
proof -
  have d: "length r < length s" if "digits1 s = Some (x, r)" for s x r
  proof -
    have "takeWhile is_digit s \<noteq> []" "r = dropWhile is_digit s" using that by (auto simp: digits1_def Let_def split: if_splits)
    then show ?thesis using takeWhile_dropWhile_id [of is_digit s]
      by (metis append_eq_append_conv2 length_append length_greater_0_conv less_add_same_cancel2)
  qed
  have i: "length r < length s" if "int_part s = Some (x, r)" for s x r
    using that d by (fastforce simp: int_part_def split: list.splits if_splits)
  have f: "length r \<le> length s" if "frac_part s = Some (x, r)" for s x r
    using that d by (fastforce simp: frac_part_def split: list.splits if_splits)
  have e: "length r \<le> length s" if "exp_part s = Some (x, r)" for s x r
    using that d by (fastforce simp: exp_part_def split: list.splits if_splits)
  assume n: "number s = Some (x, r)"
  let ?s = "case s of c # t \<Rightarrow> if c = CHR ''-'' then t else s | [] \<Rightarrow> []"
  have "\<exists>i1 s2 f1 s3 e1. int_part ?s = Some (i1, s2) \<and> frac_part s2 = Some (f1, s3) \<and> exp_part s3 = Some (e1, r)"
    using n by (auto simp: number_def Let_def split: list.splits if_splits option.splits prod.splits)
  moreover have "length ?s \<le> length s" by (simp split: list.split)
  ultimately obtain s1 i1 s2 f1 s3 e1 where p: "length s1 \<le> length s" "int_part s1 = Some (i1, s2)" "frac_part s2 = Some (f1, s3)"
    "exp_part s3 = Some (e1, r)"
    by blast
  from i [OF p(2)] f [OF p(3)] e [OF p(4)] p(1) show ?thesis by simp
qed

lemma literal_length: "literal w v s = Some (x, r) \<Longrightarrow> w \<noteq> [] \<Longrightarrow> length r < length s"
  by (cases "s = []") (auto simp: literal_def split: if_splits)

lemma skip_ws_Cons: "skip_ws s = x # u \<Longrightarrow> length u < length s"
  using skip_ws_length [of s] by simp

lemmas text_lengths = stringLit_length number_length literal_length skip_ws_Cons

text \<open>The three functions, read from the result.\<close>

lemma jvalue_Some:
  assumes "jvalue (Suc f) d s = Some (v, r)"
  shows "(\<forall>g. jvalue (Suc g) d s = Some (v, r)) \<and> length r < length s \<or>
    (\<exists>t x u ms. s = CHR 0x7B # t \<and> d < maxNestingDepth \<and> skip_ws t = x # u \<and> x \<noteq> CHR 0x7D \<and>
      jmembers f (Suc d) (x # u) = Some (ms, r) \<and> v = JObject ms) \<or>
    (\<exists>t x u vs. s = CHR 0x5B # t \<and> d < maxNestingDepth \<and> skip_ws t = x # u \<and> x \<noteq> CHR 0x5D \<and>
      jelements f (Suc d) (x # u) = Some (vs, r) \<and> v = JArray vs)"
proof -
  obtain c t where s: "s = c # t" using assms by (cases s) simp_all
  consider "c = CHR 0x7B" | "c = CHR 0x5B" | "c \<noteq> CHR 0x7B" "c \<noteq> CHR 0x5B" by blast
  then show ?thesis
  proof cases
    case 3
    then have "\<forall>g. jvalue (Suc g) d s = jvalue (Suc f) d s" using s by simp
    moreover have "length r < length s"
      using assms 3 s by (auto split: if_splits dest!: stringLit_length number_length literal_length)
    ultimately show ?thesis using assms by simp
  qed (use assms s in \<open>auto split: if_splits list.splits dest: skip_ws_Cons\<close>)
qed

lemma jmembers_Some:
  assumes "jmembers (Suc f) d s = Some (ms, r)"
  obtains t k r1 r2 v r3 c r4 where "s = CHR 0x22 # t" and "stringLit t = Some (k, r1)" and "skip_ws r1 = CHR '':'' # r2"
    and "jvalue f d (skip_ws r2) = Some (v, r3)" and "skip_ws r3 = c # r4"
    and "c = CHR '','' \<and> (\<exists>ms'. jmembers f d (skip_ws r4) = Some (ms', r) \<and> ms = (k, v) # ms') \<or>
      c = CHR 0x7D \<and> r = r4 \<and> ms = [(k, v)]"
proof -
  obtain t where s: "s = CHR 0x22 # t" using assms by (cases s) (auto split: if_splits)
  obtain k r1 where k: "stringLit t = Some (k, r1)" using assms s by (auto split: option.splits)
  obtain r2 where r2: "skip_ws r1 = CHR '':'' # r2" using assms s k by (auto split: list.splits if_splits)
  obtain v r3 where v: "jvalue f d (skip_ws r2) = Some (v, r3)" using assms s k r2 by (auto split: option.splits)
  obtain c r4 where c: "skip_ws r3 = c # r4" using assms s k r2 v by (auto split: list.splits)
  from assms s k r2 v c that show ?thesis by (auto split: if_splits)
qed

lemma jelements_Some:
  assumes "jelements (Suc f) d s = Some (vs, r)"
  obtains v r3 c r4 where "jvalue f d s = Some (v, r3)" and "skip_ws r3 = c # r4"
    and "c = CHR '','' \<and> (\<exists>vs'. jelements f d (skip_ws r4) = Some (vs', r) \<and> vs = v # vs') \<or>
      c = CHR 0x5D \<and> r = r4 \<and> vs = [v]"
proof -
  obtain v r3 where v: "jvalue f d s = Some (v, r3)" using assms by (auto split: option.splits)
  obtain c r4 where c: "skip_ws r3 = c # r4" using assms v by (auto split: list.splits)
  from assms v c that show ?thesis by (auto split: if_splits)
qed

lemma value_length:
  "jvalue f d s = Some (v, r) \<Longrightarrow> length r < length s"
  "jmembers f d s = Some (ms, r) \<Longrightarrow> length r < length s"
  "jelements f d s = Some (vs, r) \<Longrightarrow> length r < length s"
proof (induction f arbitrary: d s v r ms vs)
  case (Suc f)
  {
    case 1
    from jvalue_Some [OF 1] show ?case
    proof (elim disjE exE conjE)
      fix t x u ms
      assume "s = CHR 0x7B # t" "skip_ws t = x # u" "jmembers f (Suc d) (x # u) = Some (ms, r)"
      then show ?thesis using Suc.IH(2) [of "Suc d" "x # u" ms r] skip_ws_Cons [of t x u] by simp
    next
      fix t x u vs
      assume "s = CHR 0x5B # t" "skip_ws t = x # u" "jelements f (Suc d) (x # u) = Some (vs, r)"
      then show ?thesis using Suc.IH(3) [of "Suc d" "x # u" vs r] skip_ws_Cons [of t x u] by simp
    qed
  next
    case 2
    then show ?case
    proof (cases rule: jmembers_Some)
      case (1 t k r1 r2 v r3 c r4)
      note l = stringLit_length [OF 1(2)] skip_ws_Cons [OF 1(3)] Suc.IH(1) [OF 1(4)] skip_ws_length [of r2]
        skip_ws_Cons [OF 1(5)] skip_ws_length [of r4]
      show ?thesis using 1(1,6) l by (auto dest!: Suc.IH(2))
    qed
  next
    case 3
    then show ?case
    proof (cases rule: jelements_Some)
      case (1 v r3 c r4)
      note l = Suc.IH(1) [OF 1(1)] skip_ws_Cons [OF 1(2)] skip_ws_length [of r4]
      show ?thesis using 1(3) l by (auto dest!: Suc.IH(3))
    qed
  }
qed simp_all

text \<open>More fuel changes nothing.\<close>

lemma value_fuel:
  "jvalue g d s = Some (v, r) \<Longrightarrow> 2 * length s < f \<Longrightarrow> jvalue f d s = Some (v, r)"
  "jmembers g d s = Some (ms, r) \<Longrightarrow> 2 * length s < f \<Longrightarrow> jmembers f d s = Some (ms, r)"
  "jelements g d s = Some (vs, r) \<Longrightarrow> 2 * length s + 1 < f \<Longrightarrow> jelements f d s = Some (vs, r)"
proof (induction g arbitrary: f d s v r ms vs)
  case (Suc g)
  {
    case 1
    then obtain f' where f: "f = Suc f'" by (cases f) simp_all
    from jvalue_Some [OF 1(1)] show ?case
    proof (elim disjE exE conjE)
      fix t x u ms
      assume a: "s = CHR 0x7B # t" "d < maxNestingDepth" "skip_ws t = x # u" "x \<noteq> CHR 0x7D"
        "jmembers g (Suc d) (x # u) = Some (ms, r)" "v = JObject ms"
      have "jmembers f' (Suc d) (x # u) = Some (ms, r)"
        by (rule Suc.IH(2) [OF a(5)]) (use 1(2) f skip_ws_Cons [OF a(3)] a(1) in simp)
      with a f show ?thesis by simp
    next
      fix t x u vs
      assume a: "s = CHR 0x5B # t" "d < maxNestingDepth" "skip_ws t = x # u" "x \<noteq> CHR 0x5D"
        "jelements g (Suc d) (x # u) = Some (vs, r)" "v = JArray vs"
      have "jelements f' (Suc d) (x # u) = Some (vs, r)"
        by (rule Suc.IH(3) [OF a(5)]) (use 1(2) f skip_ws_Cons [OF a(3)] a(1) in simp)
      with a f show ?thesis by simp
    qed (simp add: f)
  next
    case 2
    then obtain f' where f: "f = Suc f'" by (cases f) simp_all
    from 2(1) show ?case
    proof (cases rule: jmembers_Some)
      case (1 t k r1 r2 v r3 c r4)
      note l = stringLit_length [OF 1(2)] skip_ws_Cons [OF 1(3)] skip_ws_length [of r2] value_length(1) [OF 1(4)]
        skip_ws_Cons [OF 1(5)] skip_ws_length [of r4]
      have "jvalue f' d (skip_ws r2) = Some (v, r3)" by (rule Suc.IH(1) [OF 1(4)]) (use 2(2) f 1(1) l in simp)
      moreover have "jmembers f' d (skip_ws r4) = Some (ms', r)" if "jmembers g d (skip_ws r4) = Some (ms', r)" for ms'
        by (rule Suc.IH(2) [OF that]) (use 2(2) f 1(1) l in simp)
      ultimately show ?thesis using 1 f by auto
    qed
  next
    case 3
    then obtain f' where f: "f = Suc f'" by (cases f) simp_all
    from 3(1) show ?case
    proof (cases rule: jelements_Some)
      case (1 v r3 c r4)
      note l = value_length(1) [OF 1(1)] skip_ws_Cons [OF 1(2)] skip_ws_length [of r4]
      have "jvalue f' d s = Some (v, r3)" by (rule Suc.IH(1) [OF 1(1)]) (use 3(2) f in simp)
      moreover have "jelements f' d (skip_ws r4) = Some (vs', r)" if "jelements g d (skip_ws r4) = Some (vs', r)" for vs'
        by (rule Suc.IH(3) [OF that]) (use 3(2) f l in simp)
      ultimately show ?thesis using 1 f by auto
    qed
  }
qed simp_all

lemma parse_json_fuel:
  assumes "jvalue f 0 (skip_ws s) = Some (v, r)" and "skip_ws r = []"
  shows "parse_json s = Some v"
  using value_fuel(1) [OF assms(1), of "Suc (2 * length s)"] skip_ws_length [of s] assms(2)
  by (simp add: parse_json_def)

end
