(* ===== verification/Worker_Json.thy ===== *)
theory Worker_Json
  imports Json_Value Worker_Registry
begin

text \<open>
  What a worker key holds in Redis: \<open>WorkerInfo.String\<close> and \<open>ParseWorkerInfo\<close> with
  \<open>encoding/json\<close>, as the tags of the struct \<open>WorkerInfo\<close> say. Printed and read back is the same;
  the codec that the worker manager is modelled over may be this one.
\<close>

section \<open>Printing\<close>

definition int_field :: "string \<Rightarrow> int \<Rightarrow> string" where
  "int_field name i = quote name @ '':'' @ show_int (i64 i)"

definition text_field :: "string \<Rightarrow> string \<Rightarrow> string" where
  "text_field name s = quote name @ '':'' @ quote s"

text \<open>The numbers are \<open>int64\<close>: \<open>i64\<close> leaves them alone.\<close>

definition WorkerInfo_String :: "WorkerInfo \<Rightarrow> string" where
  "WorkerInfo_String wi =
     ''{'' @ int_field ''worker_id'' (wi_WorkerID wi) @ '','' @ int_field ''datacenter_id'' (wi_DatacenterID wi) @ '','' @
     text_field ''ip'' (wi_IP wi) @ '','' @ text_field ''service_name'' (wi_ServiceName wi) @ '','' @
     text_field ''service_version'' (wi_ServiceVersion wi) @ '','' @ int_field ''register_time'' (wi_RegisterTime wi) @ '','' @
     int_field ''last_heartbeat'' (wi_LastHeartbeat wi) @ '','' @ text_field ''instance_id'' (wi_InstanceID wi) @ ''}''"

section \<open>Reading\<close>

text \<open>Names of fields are compared without regard to case. Beside the letters of ASCII only the
  long s and the Kelvin sign fold to ASCII; no other rune can make a name of the struct.\<close>

definition fold_rune :: "nat \<Rightarrow> nat" where
  "fold_rune r = (if 97 \<le> r \<and> r \<le> 122 then r - 32 else if r = 0x17F then 83 else if r = 0x212A then 75 else r)"

function foldName :: "string \<Rightarrow> string" where
  "foldName [] = []"
| "foldName (c # s) = (case DecodeRune (c # s) of (r, n) \<Rightarrow> EncodeRune (fold_rune r) @ foldName (drop (n - 1) s))"
  by pat_completeness auto
termination by (relation "measure length") (auto simp: less_Suc_eq_le)

text \<open>A member into a field: \<open>null\<close> leaves the field alone, a number must be an \<open>int64\<close>, any other
  value of the wrong type is an error. After the first error \<open>Unmarshal\<close> goes on, but
  \<open>ParseWorkerInfo\<close> returns no information then.\<close>

definition into_int :: "json \<Rightarrow> (int \<Rightarrow> WorkerInfo \<Rightarrow> WorkerInfo) \<Rightarrow> WorkerInfo \<Rightarrow> WorkerInfo option" where
  "into_int v upd wi = (case v of
     JNull \<Rightarrow> Some wi
   | JNumber n \<Rightarrow> map_option (\<lambda>i. upd i wi) (ParseInt n)
   | _ \<Rightarrow> None)"

definition into_text :: "json \<Rightarrow> (string \<Rightarrow> WorkerInfo \<Rightarrow> WorkerInfo) \<Rightarrow> WorkerInfo \<Rightarrow> WorkerInfo option" where
  "into_text v upd wi = (case v of JNull \<Rightarrow> Some wi | JString s \<Rightarrow> Some (upd s wi) | _ \<Rightarrow> None)"

definition set_member :: "string \<times> json \<Rightarrow> WorkerInfo \<Rightarrow> WorkerInfo option" where
  "set_member kv wi =
     (let name = foldName (fst kv); v = snd kv
      in if name = ''WORKER_ID'' then into_int v (\<lambda>i. wi_WorkerID_update (\<lambda>_. i)) wi
         else if name = ''DATACENTER_ID'' then into_int v (\<lambda>i. wi_DatacenterID_update (\<lambda>_. i)) wi
         else if name = ''IP'' then into_text v (\<lambda>s. wi_IP_update (\<lambda>_. s)) wi
         else if name = ''SERVICE_NAME'' then into_text v (\<lambda>s. wi_ServiceName_update (\<lambda>_. s)) wi
         else if name = ''SERVICE_VERSION'' then into_text v (\<lambda>s. wi_ServiceVersion_update (\<lambda>_. s)) wi
         else if name = ''REGISTER_TIME'' then into_int v (\<lambda>i. wi_RegisterTime_update (\<lambda>_. i)) wi
         else if name = ''LAST_HEARTBEAT'' then into_int v (\<lambda>i. wi_LastHeartbeat_update (\<lambda>_. i)) wi
         else if name = ''INSTANCE_ID'' then into_text v (\<lambda>s. wi_InstanceID_update (\<lambda>_. s)) wi
         else Some wi)"

fun set_members :: "(string \<times> json) list \<Rightarrow> WorkerInfo \<Rightarrow> WorkerInfo option" where
  "set_members [] wi = Some wi"
| "set_members (kv # kvs) wi = Option.bind (set_member kv wi) (set_members kvs)"

definition zero_WorkerInfo :: WorkerInfo where
  "zero_WorkerInfo = \<lparr>wi_WorkerID = 0, wi_DatacenterID = 0, wi_IP = [], wi_ServiceName = [], wi_ServiceVersion = [],
     wi_RegisterTime = 0, wi_LastHeartbeat = 0, wi_InstanceID = []\<rparr>"

definition json_ParseWorkerInfo :: "string \<Rightarrow> WorkerInfo option" where
  "json_ParseWorkerInfo s = (case parse_json s of
     Some JNull \<Rightarrow> Some zero_WorkerInfo
   | Some (JObject kvs) \<Rightarrow> set_members kvs zero_WorkerInfo
   | _ \<Rightarrow> None)"

section \<open>The printed text is read back\<close>

lemma takeWhile_digits:
  "\<not> is_digit c \<Longrightarrow> takeWhile is_digit (show_nat n @ c # t) = show_nat n \<and> dropWhile is_digit (show_nat n @ c # t) = c # t"
proof -
  assume c: "\<not> is_digit c"
  have "\<forall>x \<in> set (show_nat n). is_digit x" using show_nat_digits by (fastforce simp: is_digit_def)
  with c show ?thesis by (simp add: takeWhile_append2 dropWhile_append2)
qed

lemma show_nat_zero: "n \<noteq> 0 \<Longrightarrow> hd (show_nat n) \<noteq> CHR ''0''"
proof (induction n rule: show_nat.induct)
  case (1 n)
  show ?case
  proof (cases "n < 10")
    case True
    with 1(2) have "byte (char_of (48 + n)) \<noteq> byte (CHR ''0'')" by simp
    then have "char_of (48 + n) \<noteq> CHR ''0''" by metis
    with True show ?thesis by (subst show_nat.simps) simp
  next
    case False
    with 1 have "hd (show_nat (n div 10)) \<noteq> CHR ''0''" by simp
    with False show ?thesis using show_nat_nonempty by (subst show_nat.simps) simp
  qed
qed

lemma int_part_show:
  assumes "\<not> is_digit c"
  shows "int_part (show_nat n @ c # t) = Some (show_nat n, c # t)"
proof (cases "n = 0")
  case True
  have "char_of (48 :: nat) = CHR ''0''" by code_simp
  with True show ?thesis by (simp add: int_part_def show_nat.simps)
next
  case False
  obtain x u where s: "show_nat n = x # u" using show_nat_nonempty by (cases "show_nat n") auto
  with show_nat_zero [OF False] have "x \<noteq> CHR ''0''" by simp
  then have "int_part (show_nat n @ c # t) = digits1 (show_nat n @ c # t)" using s by (simp add: int_part_def)
  then show ?thesis using takeWhile_digits [OF assms, of n t] show_nat_nonempty by (simp add: digits1_def Let_def)
qed

lemma number_show:
  assumes "c = CHR '','' \<or> c = CHR 0x7D"
  shows "number (show_int i @ c # t) = Some (show_int i, c # t)"
proof -
  have c: "\<not> is_digit c" using assms by (auto simp: is_digit_def)
  have e: "frac_part (c # t) = Some ([], c # t)" "exp_part (c # t) = Some ([], c # t)"
    using assms by (auto simp: frac_part_def exp_part_def)
  show ?thesis
  proof (cases "i < 0")
    case True
    then show ?thesis using int_part_show [OF c] e by (simp add: number_def show_int_def Let_def)
  next
    case False
    obtain x u where s: "show_nat (nat i) = x # u" using show_nat_nonempty by (cases "show_nat (nat i)") auto
    moreover have "x \<noteq> CHR ''-''" using show_nat_no_sign(1) [of "nat i"] s by auto
    ultimately show ?thesis using False int_part_show [OF c, of "nat i" t] e by (simp add: number_def show_int_def Let_def)
  qed
qed

lemma show_int_first:
  obtains x u where "show_int i = x # u" and "x = CHR ''-'' \<or> is_digit x"
proof (cases "show_int i")
  case Nil
  then show ?thesis using show_nat_nonempty by (auto simp: show_int_def split: if_splits)
next
  case (Cons x u)
  then have "x = CHR ''-'' \<or> x \<in> set (show_nat (nat i))"
    using list.set_sel(1) [OF show_nat_nonempty, of "nat i"] by (auto simp: show_int_def split: if_splits)
  then have "x = CHR ''-'' \<or> is_digit x" using show_nat_digits [of x "nat i"] by (auto simp: is_digit_def)
  with Cons that show ?thesis by simp
qed

lemma jvalue_show:
  assumes "c = CHR '','' \<or> c = CHR 0x7D"
  shows "jvalue (Suc f) d (skip_ws (show_int i @ c # t)) = Some (JNumber (show_int i), c # t)"
proof -
  obtain x u where s: "show_int i = x # u" and x: "x = CHR ''-'' \<or> is_digit x" by (rule show_int_first)
  have ne: "x \<noteq> CHR 0x22" "x \<noteq> CHR 0x7B" "x \<noteq> CHR 0x5B" "x \<noteq> CHR ''n''" "x \<noteq> CHR ''t''" "x \<noteq> CHR ''f''"
    "byte x \<notin> {9, 10, 13, 32}"
    using x by (auto simp: is_digit_def)
  then have "skip_ws (show_int i @ c # t) = show_int i @ c # t" unfolding s by simp
  moreover have "jvalue (Suc f) d (show_int i @ c # t) =
      map_option (\<lambda>(n, r). (JNumber n, r)) (number (show_int i @ c # t))"
    using ne unfolding s by simp
  ultimately show ?thesis using number_show [OF assms] by simp
qed

text \<open>One member with what follows it: another member or the end of the object.\<close>

lemma read_int_field:
  assumes k: "sanitize k = k" and v: "f = Suc f'"
  shows "jmembers (Suc f) d (int_field k i @ CHR '','' # u) =
      map_option (\<lambda>(ms, r). ((k, JNumber (show_int (i64 i))) # ms, r)) (jmembers f d (skip_ws u))"
proof -
  let ?rest = "CHR '':'' # show_int (i64 i) @ CHR '','' # u"
  have "stringLit (quoteBody k @ CHR 0x22 # ?rest) = Some (k, ?rest)" using stringLit_quoteBody k by simp
  moreover have "jvalue f d (skip_ws (show_int (i64 i) @ CHR '','' # u)) = Some (JNumber (show_int (i64 i)), CHR '','' # u)"
    using jvalue_show v by simp
  ultimately show ?thesis by (simp add: int_field_def quote_def)
qed

lemma jvalue_quote: "jvalue (Suc f) d (skip_ws (quote s @ t)) = Some (JString (sanitize s), t)"
  using stringLit_quoteBody [of s t] by (simp add: quote_def)

lemma read_text_field:
  assumes k: "sanitize k = k" and v: "f = Suc f'"
  shows "jmembers (Suc f) d (text_field k s @ CHR '','' # u) =
      map_option (\<lambda>(ms, r). ((k, JString (sanitize s)) # ms, r)) (jmembers f d (skip_ws u))"
    and "jmembers (Suc f) d (text_field k s @ CHR 0x7D # u) = Some ([(k, JString (sanitize s))], u)"
proof -
  have "stringLit (quoteBody k @ CHR 0x22 # t) = Some (k, t)" for t using stringLit_quoteBody k by simp
  moreover have "jvalue f d (skip_ws (quote s @ t)) = Some (JString (sanitize s), t)" for t
    using jvalue_quote v by simp
  ultimately show "jmembers (Suc f) d (text_field k s @ CHR '','' # u) =
      map_option (\<lambda>(ms, r). ((k, JString (sanitize s)) # ms, r)) (jmembers f d (skip_ws u))"
    and "jmembers (Suc f) d (text_field k s @ CHR 0x7D # u) = Some ([(k, JString (sanitize s))], u)"
    by (simp_all add: text_field_def quote_def [of k])
qed

lemma skip_field: "skip_ws (int_field k i @ t) = int_field k i @ t" "skip_ws (text_field k s @ t) = text_field k s @ t"
  by (simp_all add: int_field_def text_field_def quote_def)

lemma field_first: "int_field k i @ t = CHR 0x22 # tl (int_field k i) @ t"
  by (simp add: int_field_def quote_def)

lemma plain_names: "sanitize ''worker_id'' = ''worker_id''" "sanitize ''datacenter_id'' = ''datacenter_id''"
  "sanitize ''ip'' = ''ip''" "sanitize ''service_name'' = ''service_name''"
  "sanitize ''service_version'' = ''service_version''" "sanitize ''register_time'' = ''register_time''"
  "sanitize ''last_heartbeat'' = ''last_heartbeat''" "sanitize ''instance_id'' = ''instance_id''"
  by (rule sanitize_valid, rule valid_utf8_ascii, simp)+

lemma foldName_ascii:
  "list_all (\<lambda>c. byte c < 128) s \<Longrightarrow> map byte (foldName s) = map (\<lambda>c. fold_rune (byte c)) s"
proof (induction s)
  case (Cons c s)
  then have c: "byte c < 128" by simp
  then have "fold_rune (byte c) < 128" by (auto simp: fold_rune_def)
  then have "EncodeRune (fold_rune (byte c)) = [char_of (fold_rune (byte c))]" "fold_rune (byte c) < 256"
    by (simp_all add: EncodeRune_def Let_def surrogate_def)
  then show ?case using Cons by (simp add: DecodeRune_ascii [OF c] del: DecodeRune.simps)
qed simp

lemma folded: "list_all (\<lambda>c. byte c < 128) s \<Longrightarrow> map (\<lambda>c. fold_rune (byte c)) s = map byte t \<Longrightarrow> foldName s = t"
  using foldName_ascii [of s] inj_map_eq_map [of byte "foldName s" t] by (simp add: inj_of_char)

lemma folded_names: "foldName ''worker_id'' = ''WORKER_ID''" "foldName ''datacenter_id'' = ''DATACENTER_ID''"
  "foldName ''ip'' = ''IP''" "foldName ''service_name'' = ''SERVICE_NAME''"
  "foldName ''service_version'' = ''SERVICE_VERSION''" "foldName ''register_time'' = ''REGISTER_TIME''"
  "foldName ''last_heartbeat'' = ''LAST_HEARTBEAT''" "foldName ''instance_id'' = ''INSTANCE_ID''"
  by (rule folded; simp add: fold_rune_def)+

definition json_members :: "WorkerInfo \<Rightarrow> (string \<times> json) list" where
  "json_members wi =
     [(''worker_id'', JNumber (show_int (i64 (wi_WorkerID wi)))),
      (''datacenter_id'', JNumber (show_int (i64 (wi_DatacenterID wi)))),
      (''ip'', JString (sanitize (wi_IP wi))), (''service_name'', JString (sanitize (wi_ServiceName wi))),
      (''service_version'', JString (sanitize (wi_ServiceVersion wi))),
      (''register_time'', JNumber (show_int (i64 (wi_RegisterTime wi)))),
      (''last_heartbeat'', JNumber (show_int (i64 (wi_LastHeartbeat wi)))),
      (''instance_id'', JString (sanitize (wi_InstanceID wi)))]"

lemma parse_String: "parse_json (WorkerInfo_String wi) = Some (JObject (json_members wi))"
proof -
  define b where "b = int_field ''worker_id'' (wi_WorkerID wi) @ CHR '','' #
      int_field ''datacenter_id'' (wi_DatacenterID wi) @ CHR '','' # text_field ''ip'' (wi_IP wi) @ CHR '','' #
      text_field ''service_name'' (wi_ServiceName wi) @ CHR '','' # text_field ''service_version'' (wi_ServiceVersion wi) @ CHR '','' #
      int_field ''register_time'' (wi_RegisterTime wi) @ CHR '','' # int_field ''last_heartbeat'' (wi_LastHeartbeat wi) @ CHR '','' #
      text_field ''instance_id'' (wi_InstanceID wi) @ [CHR 0x7D]"
  let ?f = "Suc (Suc (Suc (Suc (Suc (Suc (Suc (Suc (Suc 0))))))))"
  have w: "WorkerInfo_String wi = CHR 0x7B # b" by (simp add: WorkerInfo_String_def b_def)
  obtain t where t: "b = CHR 0x22 # t" using int_field_def quote_def b_def by simp
  have "jmembers ?f 1 b = Some (json_members wi, [])"
    unfolding b_def json_members_def
    by (simp only: read_int_field [OF plain_names(1) refl] read_int_field [OF plain_names(2) refl]
        read_text_field [OF plain_names(3) refl] read_text_field [OF plain_names(4) refl]
        read_text_field [OF plain_names(5) refl] read_int_field [OF plain_names(6) refl]
        read_int_field [OF plain_names(7) refl] read_text_field [OF plain_names(8) refl]
        skip_field option.map prod.case)
  then have "jvalue (Suc ?f) 0 (skip_ws (WorkerInfo_String wi)) = Some (JObject (json_members wi), [])"
    unfolding w t by (simp add: maxNestingDepth_def del: jmembers.simps)
  then show ?thesis by (rule parse_json_fuel) simp
qed

section \<open>The round trip\<close>

text \<open>What comes back: numbers as \<open>int64\<close>, and the replacement character for what is not UTF-8.\<close>

definition clean :: "WorkerInfo \<Rightarrow> WorkerInfo" where
  "clean wi = \<lparr>wi_WorkerID = i64 (wi_WorkerID wi), wi_DatacenterID = i64 (wi_DatacenterID wi),
     wi_IP = sanitize (wi_IP wi), wi_ServiceName = sanitize (wi_ServiceName wi),
     wi_ServiceVersion = sanitize (wi_ServiceVersion wi), wi_RegisterTime = i64 (wi_RegisterTime wi),
     wi_LastHeartbeat = i64 (wi_LastHeartbeat wi), wi_InstanceID = sanitize (wi_InstanceID wi)\<rparr>"

definition info_ok :: "WorkerInfo \<Rightarrow> bool" where
  "info_ok wi \<longleftrightarrow> in_i64 (wi_WorkerID wi) \<and> in_i64 (wi_DatacenterID wi) \<and> in_i64 (wi_RegisterTime wi) \<and>
     in_i64 (wi_LastHeartbeat wi) \<and> valid_utf8 (wi_IP wi) \<and> valid_utf8 (wi_ServiceName wi) \<and>
     valid_utf8 (wi_ServiceVersion wi) \<and> valid_utf8 (wi_InstanceID wi)"

lemma clean_ok: "info_ok wi \<Longrightarrow> clean wi = wi"
  by (simp add: clean_def info_ok_def in_i64_def i64_id sanitize_valid)

lemma ParseInt_i64: "ParseInt (show_int (i64 i)) = Some (i64 i)"
  by (rule ParseInt_show) (rule in_i64_i64)

lemma set_int_fields:
  "set_member (''worker_id'', JNumber (show_int (i64 i))) wi = Some (wi\<lparr>wi_WorkerID := i64 i\<rparr>)"
  "set_member (''datacenter_id'', JNumber (show_int (i64 i))) wi = Some (wi\<lparr>wi_DatacenterID := i64 i\<rparr>)"
  "set_member (''register_time'', JNumber (show_int (i64 i))) wi = Some (wi\<lparr>wi_RegisterTime := i64 i\<rparr>)"
  "set_member (''last_heartbeat'', JNumber (show_int (i64 i))) wi = Some (wi\<lparr>wi_LastHeartbeat := i64 i\<rparr>)"
  by (simp_all add: set_member_def folded_names into_int_def ParseInt_i64 Let_def del: foldName.simps)

lemma set_text_fields:
  "set_member (''ip'', JString x) wi = Some (wi\<lparr>wi_IP := x\<rparr>)"
  "set_member (''service_name'', JString x) wi = Some (wi\<lparr>wi_ServiceName := x\<rparr>)"
  "set_member (''service_version'', JString x) wi = Some (wi\<lparr>wi_ServiceVersion := x\<rparr>)"
  "set_member (''instance_id'', JString x) wi = Some (wi\<lparr>wi_InstanceID := x\<rparr>)"
  by (simp_all add: set_member_def folded_names into_text_def Let_def del: foldName.simps)

lemma ParseWorkerInfo_String: "json_ParseWorkerInfo (WorkerInfo_String wi) = Some (clean wi)"
proof -
  have "set_members (json_members wi) zero_WorkerInfo = Some (clean wi)"
    unfolding json_members_def set_members.simps
    by (simp only: set_int_fields set_text_fields bind.bind_lunit) (simp add: zero_WorkerInfo_def clean_def)
  then show ?thesis by (simp add: json_ParseWorkerInfo_def parse_String)
qed

text \<open>The text is UTF-8 itself, whatever was put into it.\<close>

lemma valid_utf8_append: "valid_utf8 a \<Longrightarrow> valid_utf8 (a @ b) = valid_utf8 b"
proof (induction a rule: valid_utf8.induct)
  case (2 c s)
  obtain r n where d: "DecodeRune (c # s) = (r, n)" by (rule prod.exhaust)
  from 2(2) have rune: "is_rune (c # s)" by simp
  from DecodeRune_width [OF _ d] obtain k where n: "n = Suc k" "k \<le> length s" by (cases n) auto
  have d': "DecodeRune (c # s @ b) = (r, n)"
    using DecodeRune_prefix [OF rune d, of "drop k s @ b"] n by (simp del: DecodeRune.simps add: append_assoc [symmetric])
  moreover have "is_rune (c # s @ b)" using rune d d' by (simp add: is_rune_def del: DecodeRune.simps)
  ultimately show ?case using 2 d n by (simp del: DecodeRune.simps)
qed simp

lemma valid_utf8_rune: "is_rune (c # s) \<Longrightarrow> DecodeRune (c # s) = (r, n) \<Longrightarrow> valid_utf8 (take n (c # s))"
proof -
  assume rune: "is_rune (c # s)" and d: "DecodeRune (c # s) = (r, n)"
  from DecodeRune_width [OF _ d] obtain k where n: "n = Suc k" "k \<le> length s" by (cases n) auto
  have d': "DecodeRune (c # take k s) = (r, n)" using DecodeRune_prefix [OF rune d, of "[]"] n by (simp del: DecodeRune.simps)
  then have "is_rune (c # take k s)" using rune d by (simp add: is_rune_def del: DecodeRune.simps)
  with d' n show ?thesis by (simp del: DecodeRune.simps)
qed

lemma hex_digit_ascii: "d < 16 \<Longrightarrow> byte (hex_digit d) < 128"
  by (simp add: hex_digit_def)

lemma valid_utf8_small: "list_all (\<lambda>c. byte c < 128) a \<Longrightarrow> valid_utf8 (a @ b) = valid_utf8 b"
  by (simp add: valid_utf8_append valid_utf8_ascii)

lemma escape_ascii: "byte c < 128 \<Longrightarrow> list_all (\<lambda>c. byte c < 128) (escape c)"
  by (auto simp: escape_def less_mult_imp_div_less intro!: hex_digit_ascii)

lemma valid_quoteBody: "valid_utf8 (quoteBody s)"
proof (induction s rule: quoteBody.induct)
  case (2 c s)
  obtain r n where d: "DecodeRune (c # s) = (r, n)" by (rule prod.exhaust)
  have u: "valid_utf8 (CHR 0x5C # ''ufffd'' @ t) = valid_utf8 t" for t
    using valid_utf8_small [of "CHR 0x5C # ''ufffd''" t] by simp
  have v: "valid_utf8 (CHR 0x5C # ''u202'' @ hex_digit (r mod 16) # t) = valid_utf8 t" for t
    using valid_utf8_small [of "CHR 0x5C # ''u202'' @ [hex_digit (r mod 16)]" t] hex_digit_ascii [of "r mod 16"] by simp
  show ?case
  proof (cases "byte c < 128")
    case True
    then have "list_all (\<lambda>c. byte c < 128) (if htmlSafe c then [c] else escape c)" by (simp add: escape_ascii)
    from valid_utf8_small [OF this] show ?thesis using 2(1) True by (simp add: Let_def)
  next
    case False
    consider "r = RuneError" "n = 1" | "is_rune (c # s)" "r = 0x2028 \<or> r = 0x2029"
      | "is_rune (c # s)" "\<not> (r = RuneError \<and> n = 1)" "\<not> (r = 0x2028 \<or> r = 0x2029)"
      using d by (auto simp: is_rune_def simp del: DecodeRune.simps)
    then show ?thesis
    proof cases
      case 1
      then show ?thesis
        using 2(2) [OF False d [symmetric]] False d u by (simp add: Let_def del: DecodeRune.simps valid_utf8.simps)
    next
      case 2
      then have "\<not> (r = RuneError \<and> n = 1)" by (auto simp: RuneError_def)
      then show ?thesis
        using 2 "2.IH"(3) [OF False d [symmetric]] False d v
        by (simp only: quoteBody.simps Let_def prod.case if_False if_True simp_thms append.simps)
    next
      case 3
      then show ?thesis
        using "2.IH"(4) [OF False d [symmetric]] False d valid_utf8_append [OF valid_utf8_rune [OF 3(1) d]]
        by (simp only: quoteBody.simps Let_def prod.case if_False simp_thms)
    qed
  qed
qed simp

lemma valid_fields: "valid_utf8 (text_field k s @ t) = valid_utf8 t" "valid_utf8 (int_field k i @ t) = valid_utf8 t"
proof -
  have q: "valid_utf8 (quote s @ t) = valid_utf8 t" for s t
  proof -
    have "valid_utf8 (quoteBody s @ [CHR 0x22] @ t) = valid_utf8 t"
      using valid_utf8_append [OF valid_quoteBody] valid_utf8_small [of "[CHR 0x22]" t] by simp
    then show ?thesis using valid_utf8_small [of "[CHR 0x22]" "quoteBody s @ [CHR 0x22] @ t"] by (simp add: quote_def)
  qed
  have n: "valid_utf8 (show_int i @ t) = valid_utf8 t" for i t
    using show_int_ascii [of i] by (intro valid_utf8_small) (simp add: ascii_def)
  have c: "valid_utf8 (CHR '':'' # t) = valid_utf8 t" for t using valid_utf8_small [of "'':''" t] by simp
  show "valid_utf8 (text_field k s @ t) = valid_utf8 t" "valid_utf8 (int_field k i @ t) = valid_utf8 t"
    by (simp_all add: text_field_def int_field_def q n c del: valid_utf8.simps)
qed

lemma valid_String: "valid_utf8 (WorkerInfo_String wi)"
proof -
  have "valid_utf8 (CHR '','' # t) = valid_utf8 t" "valid_utf8 (CHR 0x7B # t) = valid_utf8 t" "valid_utf8 ''}''" for t
    using valid_utf8_small [of "'',''" t] valid_utf8_small [of "''{''" t] valid_utf8_small [of "''}''" "[]"] by simp_all
  then show ?thesis by (simp add: WorkerInfo_String_def valid_fields del: valid_utf8.simps)
qed

section \<open>The codec of the worker manager\<close>

text \<open>\<open>cjson\<close> is not under src/. What is relied on is its documented behaviour on a flat object with
  distinct keys, as RFC 8259 gives it a meaning: a table with the members of the object.\<close>

definition flat :: "(string \<times> json) list \<Rightarrow> bool" where
  "flat kvs \<longleftrightarrow> list_all (\<lambda>(k, v). (\<exists>x. v = JNumber x) \<or> (\<exists>x. v = JString x)) kvs"

definition instance_of :: "(string \<times> json) list \<Rightarrow> string option" where
  "instance_of kvs = (case map_of kvs ''instance_id'' of Some (JString x) \<Rightarrow> Some x | _ \<Rightarrow> None)"

definition cjson_ok :: "(string \<Rightarrow> lua_json) \<Rightarrow> bool" where
  "cjson_ok D \<longleftrightarrow> (\<forall>s kvs. valid_utf8 s \<and> parse_json s = Some (JObject kvs) \<and> distinct (map fst kvs) \<and> flat kvs \<longrightarrow>
     D s = LuaTable (instance_of kvs))"

definition json_codec :: "(string \<Rightarrow> lua_json) \<Rightarrow> codec" where
  "json_codec D = \<lparr>marshal = WorkerInfo_String, ParseWorkerInfo = json_ParseWorkerInfo, cjson_decode = D\<rparr>"

lemma cjson_String:
  assumes "cjson_ok D"
  shows "D (WorkerInfo_String wi) = LuaTable (Some (sanitize (wi_InstanceID wi)))"
proof -
  have "distinct (map fst (json_members wi))" "flat (json_members wi)"
    "instance_of (json_members wi) = Some (sanitize (wi_InstanceID wi))"
    by (simp_all add: json_members_def flat_def instance_of_def)
  with assms show ?thesis
    unfolding cjson_ok_def using valid_String parse_String by metis
qed

text \<open>Every theorem that assumes a codec holds of \<open>encoding/json\<close> and any such \<open>cjson\<close>.\<close>

theorem json_codec_ok: "cjson_ok D \<Longrightarrow> codec_ok (json_codec D)"
  using sanitize_valid [OF valid_utf8_ascii]
  by (simp add: codec_ok_def json_codec_def cjson_String ParseWorkerInfo_String clean_def ascii_def)

text \<open>C16: A worker's information survives the way through Redis: whatever well-formed UTF-8 its texts are made of
  (quotes, backslashes, line breaks, what HTML interprets, any script) and whatever 64-bit integers its
  numbers are, \<open>ParseWorkerInfo\<close> reads back exactly what \<open>String\<close> wrote; the text written is UTF-8, and a
  \<open>cjson\<close> that keeps to RFC 8259 finds the instance ID in it, which is what the heartbeat script
  compares.\<close>

theorem worker_info_roundtrip:
  assumes "info_ok wi" and "cjson_ok D"
  shows "json_ParseWorkerInfo (WorkerInfo_String wi) = Some wi \<and> valid_utf8 (WorkerInfo_String wi) \<and>
    D (WorkerInfo_String wi) = LuaTable (Some (wi_InstanceID wi))"
proof -
  have "sanitize (wi_InstanceID wi) = wi_InstanceID wi" using assms(1) by (simp add: info_ok_def sanitize_valid)
  then show ?thesis
    using ParseWorkerInfo_String clean_ok [OF assms(1)] valid_String cjson_String [OF assms(2)] by simp
qed

text \<open>An instance whose service is named with a quote, a backslash, an umlaut and a line separator.\<close>

definition demo_cjson :: "string \<Rightarrow> lua_json" where
  "demo_cjson s = (case parse_json s of Some (JObject kvs) \<Rightarrow> LuaTable (instance_of kvs) | _ \<Rightarrow> LuaUndecodable)"

definition demo_info :: WorkerInfo where
  "demo_info = \<lparr>wi_WorkerID = 7, wi_DatacenterID = 3, wi_IP = ''10.0.0.1'',
     wi_ServiceName = [CHR 0x22, CHR 0x5C, CHR 0xC3, CHR 0xA4, CHR 0xE2, CHR 0x80, CHR 0xA8],
     wi_ServiceVersion = ''<1>'', wi_RegisterTime = 1700000000, wi_LastHeartbeat = -1, wi_InstanceID = ''instance-1-3-1-0-5''\<rparr>"

theorem worker_info_roundtrip_witness:
  "info_ok demo_info \<and> cjson_ok demo_cjson \<and> json_ParseWorkerInfo (WorkerInfo_String demo_info) = Some demo_info \<and>
   demo_cjson (WorkerInfo_String demo_info) = LuaTable (Some ''instance-1-3-1-0-5'')"
proof -
  have "cjson_ok demo_cjson" by (simp add: cjson_ok_def demo_cjson_def)
  moreover have "info_ok demo_info"
    by (simp add: info_ok_def demo_info_def in_i64_def valid_utf8_ascii)
      (simp add: is_rune_def RuneError_def second_ok_def cont_def)
  moreover have "wi_InstanceID demo_info = ''instance-1-3-1-0-5''" by (simp add: demo_info_def)
  ultimately show ?thesis using worker_info_roundtrip [of demo_info demo_cjson] by metis
qed

end
