(* ===== verification/Plugin_Meta.thy ===== *)
theory Plugin_Meta
  imports Redis_Integration
begin

text \<open>
  The plugin as the framework sees it (\<open>plugin_meta.go\<close>, \<open>plug.go\<close>, the metadata methods of
  \<open>types.go\<close> and \<open>lifecycle_context.go\<close>), and the contexts under which it registers and cleans up.
\<close>

section \<open>Metadata and registration\<close>

definition PluginVersion :: string where "PluginVersion = ''v1.6.3''"
definition PluginDescription :: string where
  "PluginDescription = ''Eon-ID generator plugin with clock drift protection and Redis-based worker ID management''"
definition ConfPrefix :: string where "ConfPrefix = ''lynx.eon-id''"

text \<open>The arguments of \<open>plugins.NewBasePlugin\<close>, which is an argument here.\<close>

record base_args =
  ba_id :: string
  ba_name :: string
  ba_description :: string
  ba_version :: string
  ba_confPrefix :: string
  ba_weight :: int

definition pluginBaseArgs :: base_args where
  "pluginBaseArgs = \<lparr>ba_id = PluginName, ba_name = PluginName, ba_description = PluginDescription,
     ba_version = PluginVersion, ba_confPrefix = ConfPrefix, ba_weight = 100\<rparr>"

definition newPlugin :: "(base_args \<Rightarrow> 'b) \<Rightarrow> 'b PlugSnowflake" where
  "newPlugin NewBasePlugin = NewSnowflakePlugin (NewBasePlugin pluginBaseArgs)"

definition NewSnowflakeGenerator :: "(base_args \<Rightarrow> 'b) \<Rightarrow> 'b PlugSnowflake" where
  "NewSnowflakeGenerator NewBasePlugin = newPlugin NewBasePlugin"

definition plugin_ID :: "'b PlugSnowflake \<Rightarrow> string" where "plugin_ID p = PluginName"

definition plugin_Description :: "'b PlugSnowflake \<Rightarrow> string" where
  "plugin_Description p = ''Eon-ID generator plugin for distributed unique ID generation''"

definition plugin_Weight :: "'b PlugSnowflake \<Rightarrow> int" where "plugin_Weight p = 100"

text \<open>The protocol flags of the base plugin, of which only the one for contexts is changed here.\<close>

record 'x protocol =
  ContextLifecycle :: bool
  otherFlags :: 'x

definition PluginProtocol :: "('b \<Rightarrow> 'x protocol) \<Rightarrow> 'b PlugSnowflake \<Rightarrow> 'x protocol" where
  "PluginProtocol baseProtocol p = (baseProtocol (p_base p))\<lparr>ContextLifecycle := True\<rparr>"

definition IsContextAware :: "'b PlugSnowflake \<Rightarrow> bool" where "IsContextAware p = True"

text \<open>The clean-up whose error is dropped; no code calls it any more.\<close>

definition doStopCleanup :: "'r redis \<Rightarrow> codec \<Rightarrow> 'r unregister_env \<Rightarrow> 'b PlugSnowflake \<Rightarrow> 'r \<Rightarrow> 'b PlugSnowflake \<times> 'r" where
  "doStopCleanup R J env p r = snd (doStopCleanupContext R J env p r)"

text \<open>\<open>init\<close> of plug.go: \<open>register\<close> is the factory's \<open>RegisterPlugin\<close>.\<close>

definition plug_init :: "(string \<Rightarrow> string \<Rightarrow> (unit \<Rightarrow> 'b PlugSnowflake) \<Rightarrow> 'f \<Rightarrow> 'f) \<Rightarrow> (base_args \<Rightarrow> 'b) \<Rightarrow> 'f \<Rightarrow> 'f" where
  "plug_init register NewBasePlugin factory = register PluginName ConfPrefix (\<lambda>_. newPlugin NewBasePlugin) factory"

definition GetEonIdGenerator :: "'b lynx \<Rightarrow> (helper_error, 'b PlugSnowflake) result" where
  "GetEonIdGenerator app = GetEonIdPlugin app"

text \<open>The helpers find the plugin under the name that \<open>init\<close> registers and the base plugin carries,
  in an application that makes its plugins by the factory's entries.\<close>

lemma helpers_find_registered:
  assumes "factory' = plug_init (\<lambda>name prefix make f. f(name \<mapsto> make)) NewBasePlugin factory"
  shows "GetEonIdPlugin (Some (Some (\<lambda>name. map_option (\<lambda>make. EonIdPlugin (make ())) (factory' name)))) =
      Inr (newPlugin NewBasePlugin)"
    and "ba_id pluginBaseArgs = plugin_ID p" and "ba_weight pluginBaseArgs = plugin_Weight p"
  using assms by (simp_all add: plug_init_def GetEonIdPlugin_def pluginBaseArgs_def plugin_ID_def plugin_Weight_def)

text \<open>A plugin that was only constructed hands out no ID and is not healthy.\<close>

lemma new_plugin_idle:
  "plugin_GenerateID fuel env now startTime (newPlugin B) = Some (Some (Inl GeneratorNotInitialized), newPlugin B)"
  "plugin_CheckHealth (newPlugin B) = Some GeneratorNotInitialized" "GetDependencies (newPlugin B) = [RedisPluginName_const]"
  by (simp_all add: newPlugin_def NewSnowflakePlugin_def plugin_GenerateID_def gate_def plugin_CheckHealth_def GetDependencies_def)

section \<open>Error texts\<close>

definition WorkerIDConflictError_Error :: "int \<Rightarrow> int \<Rightarrow> string \<Rightarrow> string" where
  "WorkerIDConflictError_Error workerID datacenterID conflictWith =
     ''worker ID conflict: worker_id='' @ show_int workerID @ '', datacenter_id='' @ show_int datacenterID @
     '', conflict_with='' @ conflictWith"

section \<open>Contexts with a deadline\<close>

text \<open>Of a context only its deadline matters here. \<open>context.WithTimeout\<close> keeps the parent's
  deadline where that is earlier.\<close>

definition time_Before :: "time \<Rightarrow> time \<Rightarrow> bool" where
  "time_Before t u \<longleftrightarrow> time_diff t u < 0"

definition WithTimeout :: "time \<Rightarrow> time option \<Rightarrow> int \<Rightarrow> time option" where
  "WithTimeout now parent timeout =
     (let d = time_Add now timeout
      in case parent of None \<Rightarrow> Some d | Some cur \<Rightarrow> if time_Before cur d then Some cur else Some d)"

text \<open>The second component: whether cancelling the result cancels a context of its own, and not
  nothing.\<close>

definition createTimeoutContext :: "time \<Rightarrow> time \<Rightarrow> time option \<Rightarrow> int \<Rightarrow> time option \<times> bool" where
  "createTimeoutContext until now parent timeout =
     (case parent of
        Some deadline \<Rightarrow>
          if time_Sub deadline until < timeout then (parent, False) else (WithTimeout now parent timeout, True)
      | None \<Rightarrow> (WithTimeout now parent timeout, True))"

definition startupTimeout :: int where "startupTimeout = 10 * Second"
definition cleanupTimeout :: int where "cleanupTimeout = 5 * Second"

text \<open>However the two readings of the clock fall, the deadline is the earlier one of the parent's
  and the timeout's.\<close>

lemma createTimeoutContext_deadline:
  assumes "mono until = Some a" and "mono now = Some b" and "a \<le> b" and "0 \<le> timeout" and "timeout < 2 ^ 62"
    and "\<And>p. parent = Some p \<Longrightarrow> \<exists>m. mono p = Some m"
  shows "\<exists>d. fst (createTimeoutContext until now parent timeout) = Some d \<and>
    mono d = Some (case parent of None \<Rightarrow> b + timeout | Some p \<Rightarrow> min (the (mono p)) (b + timeout))"
proof (cases parent)
  case None
  then show ?thesis using assms(2) by (simp add: createTimeoutContext_def WithTimeout_def time_Add_def)
next
  case (Some p)
  then obtain m where m: "mono p = Some m" using assms(6) by blast
  have "time_Sub p until = clamp64 (m - a)" using m assms(1) by (simp add: time_Sub_def time_diff_def)
  then have early: "time_Sub p until < timeout \<Longrightarrow> m < a + timeout"
    using assms(4,5) by (auto simp: clamp64_def split: if_splits)
  have "WithTimeout now parent timeout = Some (if m < b + timeout then p else time_Add now timeout)"
    using Some m assms(2) by (auto simp: WithTimeout_def time_Before_def time_diff_def time_Add_def)
  then show ?thesis
    using Some m early assms(2,3) by (auto simp: createTimeoutContext_def time_Add_def min_def)
qed

end
