(* ===== verification/Test_Config.thy ===== *)
theory Test_Config
  imports Plugin_Meta
begin

text \<open>
  The configurations that test_config.go builds for the repository's tests, and the generator it
  makes of one. The builder's methods update the configuration in place and return the builder.
\<close>

record TestConfig =
  tc_DatacenterID :: int
  tc_WorkerID :: int
  tc_Config :: EonId

definition testEpoch :: int where "testEpoch = 1640995200000"

definition createDefaultTestConfig :: "int \<Rightarrow> int \<Rightarrow> EonId" where
  "createDefaultTestConfig datacenterID workerID = zero_EonId\<lparr>
     DatacenterId := i32 datacenterID, WorkerId := i32 workerID, pb_CustomEpoch := testEpoch,
     WorkerIdBits := 5, pb_SequenceBits := 12, pb_EnableClockDriftProtection := False,
     pb_ClockDriftAction := ClockDriftActionWait, pb_EnableSequenceCache := False, pb_SequenceCacheSize := 0,
     AutoRegisterWorkerId := False, RedisKeyPrefix := ''test_worker:'', RedisPluginName := ''default'', RedisDb := 0\<rparr>"

definition NewTestConfig :: "int \<Rightarrow> int \<Rightarrow> TestConfig" where
  "NewTestConfig datacenterID workerID = \<lparr>tc_DatacenterID = datacenterID, tc_WorkerID = workerID,
     tc_Config = createDefaultTestConfig datacenterID workerID\<rparr>"

definition onConfig :: "(EonId \<Rightarrow> EonId) \<Rightarrow> TestConfig \<Rightarrow> TestConfig" where
  "onConfig f tc = tc\<lparr>tc_Config := f (tc_Config tc)\<rparr>"

definition WithRedisConfig :: "string \<Rightarrow> int \<Rightarrow> TestConfig \<Rightarrow> TestConfig" where
  "WithRedisConfig pluginName db = onConfig (\<lambda>c. c\<lparr>RedisPluginName := pluginName, RedisDb := db\<rparr>)"

definition WithCustomEpoch :: "int \<Rightarrow> TestConfig \<Rightarrow> TestConfig" where
  "WithCustomEpoch epoch = onConfig (\<lambda>c. c\<lparr>pb_CustomEpoch := epoch\<rparr>)"

text \<open>The largest drift is an argument that is not used.\<close>

definition WithClockDriftProtection :: "bool \<Rightarrow> int \<Rightarrow> string \<Rightarrow> TestConfig \<Rightarrow> TestConfig" where
  "WithClockDriftProtection enabled maxDrift action =
     onConfig (\<lambda>c. c\<lparr>pb_EnableClockDriftProtection := enabled, pb_ClockDriftAction := action\<rparr>)"

definition WithSequenceCache :: "bool \<Rightarrow> int \<Rightarrow> TestConfig \<Rightarrow> TestConfig" where
  "WithSequenceCache enabled cacheSize =
     onConfig (\<lambda>c. c\<lparr>pb_EnableSequenceCache := enabled, pb_SequenceCacheSize := cacheSize\<rparr>)"

definition WithWorkerConfig :: "bool \<Rightarrow> TestConfig \<Rightarrow> TestConfig" where
  "WithWorkerConfig auto = onConfig (\<lambda>c. c\<lparr>AutoRegisterWorkerId := auto\<rparr>)"

definition WithKeyPrefixes :: "string \<Rightarrow> TestConfig \<Rightarrow> TestConfig" where
  "WithKeyPrefixes redisKeyPrefix = onConfig (\<lambda>c. c\<lparr>RedisKeyPrefix := redisKeyPrefix\<rparr>)"

definition Build :: "TestConfig \<Rightarrow> EonId" where "Build tc = tc_Config tc"

definition testGeneratorConfig :: "EonId \<Rightarrow> GeneratorConfig" where
  "testGeneratorConfig c = \<lparr>CustomEpoch = pb_CustomEpoch c, DatacenterIDBits = 5, WorkerIDBits = WorkerIdBits c,
     SequenceBits = pb_SequenceBits c, EnableClockDriftProtection = pb_EnableClockDriftProtection c, MaxClockDrift = 0,
     ClockDriftAction = pb_ClockDriftAction c, EnableSequenceCache = pb_EnableSequenceCache c,
     SequenceCacheSize = pb_SequenceCacheSize c, EnableMetrics = False\<rparr>"

definition CreateTestGenerator :: "host \<Rightarrow> TestConfig \<Rightarrow> (new_error, Generator) result" where
  "CreateTestGenerator h tc =
     NewSnowflakeGeneratorCore h (tc_DatacenterID tc) (tc_WorkerID tc) (Some (testGeneratorConfig (tc_Config tc)))"

definition CreateTestPlugin :: "(base_args \<Rightarrow> 'b) \<Rightarrow> TestConfig \<Rightarrow> 'b PlugSnowflake" where
  "CreateTestPlugin NewBasePlugin tc = newPlugin NewBasePlugin"

definition MinimalConfig :: "int \<Rightarrow> int \<Rightarrow> EonId" where
  "MinimalConfig datacenterID workerID = zero_EonId\<lparr>DatacenterId := i32 datacenterID, WorkerId := i32 workerID,
     pb_CustomEpoch := testEpoch, WorkerIdBits := 5, pb_SequenceBits := 12\<rparr>"

definition RedisTestConfig :: "int \<Rightarrow> int \<Rightarrow> string \<Rightarrow> EonId" where
  "RedisTestConfig datacenterID workerID redisPluginName = (MinimalConfig datacenterID workerID)\<lparr>
     AutoRegisterWorkerId := True, RedisPluginName := redisPluginName, RedisDb := 0, RedisKeyPrefix := ''test_worker:''\<rparr>"

definition ClockDriftTestConfig :: "int \<Rightarrow> int \<Rightarrow> EonId" where
  "ClockDriftTestConfig datacenterID workerID = (MinimalConfig datacenterID workerID)\<lparr>
     pb_EnableClockDriftProtection := True, pb_ClockDriftAction := ClockDriftActionWait\<rparr>"

definition SequenceCacheTestConfig :: "int \<Rightarrow> int \<Rightarrow> int \<Rightarrow> EonId" where
  "SequenceCacheTestConfig datacenterID workerID cacheSize = (MinimalConfig datacenterID workerID)\<lparr>
     pb_EnableSequenceCache := True, pb_SequenceCacheSize := cacheSize\<rparr>"

section \<open>What the tests are given\<close>

text \<open>For identities of five bits the default test configuration makes a generator.\<close>

theorem default_test_generator:
  assumes "0 \<le> dc" and "dc < 32" and "0 \<le> wk" and "wk < 32" and "epoch_ok h testEpoch" and "testEpoch \<le> UnixMilli (clock h 3)"
  shows "is_ok (CreateTestGenerator h (NewTestConfig dc wk))"
  unfolding CreateTestGenerator_def
  by (rule NewSnowflakeGeneratorCore_accepts)
    (use assms in \<open>simp_all add: Validate_accepts_aux testGeneratorConfig_def NewTestConfig_def createDefaultTestConfig_def
      zero_EonId_def layout_ok_def drift_ok_def cache_ok_def ClockDriftActionWait_def\<close>)

text \<open>With the protection against drifts on it never makes one: the largest drift stays 0, which the validation
  of the generator rejects, whatever was given to \<open>WithClockDriftProtection\<close>.\<close>

theorem protected_test_generator_fails: "\<not> is_ok (CreateTestGenerator h (WithClockDriftProtection True maxDrift action tc))"
  by (simp add: CreateTestGenerator_def NewSnowflakeGeneratorCore_def Let_def testGeneratorConfig_def WithClockDriftProtection_def
      onConfig_def Validate_accepts_aux drift_ok_def split: option.split)

end
