(* ===== verification/Spec2Isabelle.thy ===== *)
theory Spec2Isabelle
  imports Generator_Props Config_Props Worker_Props Lease_Props Fleet_Props Worker_Races Worker_Registry Security_Props
    Plugin_Props Plugin_Health Integration_Props Worker_Liveness Generator_Counts Worker_Json Plugin_Meta Test_Config
begin

text \<open>
  Eon-ID: a verification development for the plugin lynx-eon-id.

  THE PROGRAM. The plugin hands out unique 64-bit IDs in the Snowflake layout: milliseconds
  since an epoch, a datacenter ID, a worker ID and a sequence number. Its parts are:

    - the ID generator (generator.go, metrics.go, prom_metrics.go), which is local to a process;
    - the worker ID manager (worker_manager.go, lua_scripts.go), which leases a worker ID in
      Redis, renews the lease with heartbeats and searches a new one when it is lost;
    - the plugin (types.go, lifecycle_context.go), which loads and completes the configuration,
      builds generator and manager, starts and stops them, and puts a gate before the generator:
      without a healthy manager whose lease still runs no ID is handed out;
    - the security manager (security.go): API keys, a whitelist of addresses, a rate limiter,
      encryption and an audit log;
    - a stand-alone variant and look-ups in the running application (redis_integration.go,
      helper.go), and a validator of the configuration (config_validator.go).

  The generator is told its worker ID by the manager's callback onWorkerIDChange. The
  uniqueness of IDs across processes rests on all of these together: the manager keeps worker
  IDs apart while leases run, the gate shuts when the lease ends, the callback keeps generator
  and lease in step, and the generator never repeats a (millisecond, sequence) pair.

  THE THEORIES, in the order of their imports, and what they model under src/:

    - \<open>Prelude\<close>: Go's integers (\<open>i64\<close>, \<open>i32\<close>: wrap-around written out on \<open>int\<close>, related to
      64-bit words), shifts, truncating division, \<open>time.Time\<close> with wall and monotonic reading,
      and generic lemmas. \<open>Float64\<close>: double precision as rationals that are rounded to 53 bits;
      the locale \<open>rounding\<close> holds what any monotone rounding gives, \<open>fround\<close> is an instance.
    - \<open>Gen_Config\<close>: \<open>GeneratorConfig\<close> and its \<open>Validate\<close>. \<open>Id_Layout\<close>: the expression that
      composes an ID, and the positional number it stands for. \<open>Metrics\<close>, \<open>Prom_Metrics\<close>:
      metrics.go, the declarations of the Prometheus collectors and the calls on them, as a log.
    - \<open>Generator\<close>: the record \<open>Generator\<close> and every method under its mutex, from
      \<open>NewSnowflakeGeneratorCore\<close> over \<open>tryGenerateID\<close> with all its helpers to \<open>ParseID\<close> and
      \<open>Shutdown\<close>. \<open>Generate_Loop\<close>: the retry loops of \<open>GenerateID\<close> and
      \<open>GenerateIDWithMetadata\<close>. \<open>Config_Validator\<close>: the message \<open>EonId\<close>,
      \<open>ValidateSnowflakeConfig\<close> and the two ways from a message to a generator.
    - \<open>Redis\<close>: the commands as a record, the locale \<open>redis_server\<close> with their documented
      behaviour, and an in-memory server that satisfies it. \<open>Lua_Scripts\<close>: both scripts.
      \<open>Worker_Manager\<close>: the record \<open>WorkerIDManager\<close> and every operation of worker_manager.go:
      registration with its retries, \<open>RegisterSpecificWorkerID\<close>, \<open>sendHeartbeat\<close>, one iteration
      of \<open>heartbeatLoop\<close> and the loop, \<open>tryReRegister\<close>, \<open>reacquireFreshWorkerID\<close>,
      \<open>backgroundRecover\<close>, \<open>UnregisterWorkerID\<close>, the registry and the accessors.
    - \<open>Plugin\<close>: the record \<open>PlugSnowflake\<close>, \<open>InitializeResources\<close>, \<open>startupTasksContext\<close>,
      \<open>StartContext\<close>, \<open>doStopCleanupContext\<close>, \<open>stopWithContext\<close>, the gate and the ID methods.
      \<open>Plugin_Health\<close>: \<open>GetHealth\<close>. \<open>Redis_Integration\<close>: redis_integration.go and helper.go.
      \<open>Plugin_Meta\<close>: plugin_meta.go, plug.go and the contexts with their deadlines. \<open>Test_Config\<close>:
      test_config.go.
    - \<open>Json_Text\<close>, \<open>Json_Value\<close>: what Go's encoding/json does with UTF-8, string literals, numbers,
      objects and arrays. \<open>Worker_Json\<close>: \<open>WorkerInfo.String\<close> and \<open>ParseWorkerInfo\<close>, as the tags of the
      struct \<open>WorkerInfo\<close> say.
    - \<open>Rate_Limiter\<close>: token buckets on a heap, the limiter, its clean-up and stop. \<open>Ip_Net\<close>:
      what the whitelist uses of Go's package net. \<open>Security\<close>: the rest of security.go.

  THE LEMMAS.

    - \<open>Generator_Spec\<close>: the generator's invariant, and an abstract attempt, a pure function of
      the clock and of (last timestamp, sequence), which the code's attempt refines: the cache,
      the metrics and the 64-bit arithmetic have no influence on the IDs. \<open>Generator_New\<close>:
      construction establishes the invariant; the locale \<open>id_format\<close> derives what every
      encoding with an inverse gives, and its instance is encode and \<open>ParseID\<close>.
      \<open>Generator_Run\<close>: every method holds the mutex, so that concurrent use is a list of whole
      operations; along every such list the pairs (timestamp, sequence) increase.
      \<open>Own_Ids\<close>: an ID carries the worker ID that was set when it was made.
    - \<open>Worker_Safety\<close>: a rely and a guarantee for every command: an instance leaves the keys
      that others hold alone, and while its lease runs Redis holds its key. \<open>Worker_Exclusion\<close>
      lifts this to whole operations. \<open>Worker_Recovery\<close>: the locale \<open>worker_callback\<close> is the
      contract of \<open>onWorkerIDChange\<close>; under it health implies a registration, and the client
      follows the registered worker ID through failures and recoveries. It is interpreted on
      the generator and on the plugin's own callback.
    - \<open>Lease_Protocol\<close>: the abstract protocol of the leases as a step relation, in which any
      number of instances take their steps one Redis command at a time; its invariant holds in
      all reachable states. \<open>Lease_Refinement\<close>: the manager's operations are runs of it.
      \<open>Lease_Props\<close>: no two managers have running leases on one worker ID, however their
      commands interleave. Its conditions: identities differ, clocks agree with the server's,
      and a reply takes no longer than the slack.
    - \<open>Fleet\<close> puts a generator beside every instance of the protocol: it follows the worker ID that
      the instance is granted and makes IDs while the instance's lease runs, between any two commands.
      \<open>Fleet_Props\<close>: no two IDs of the whole fleet are the same. What the schedule must keep stands
      in the relation \<open>fleet_step\<close>: an ID is made a millisecond and the slack before its lease
      ends, a key is deleted a millisecond or more after the last ID under it, and after an
      overflow a later millisecond is read.
    - \<open>Worker_Json\<close>: a worker's information that is printed is read back, and encoding/json with
      any cjson that keeps to RFC 8259 is a codec as the theorems on the manager assume one
      (\<open>json_codec_ok\<close>). \<open>Generator_Counts\<close>: what one call of \<open>GenerateID\<close> counts on the collectors.
    - \<open>Worker_Liveness\<close>: a lost worker ID is replaced in the third failing heartbeat.
    - \<open>Plugin_Start\<close>: the two outcomes of a start. \<open>Plugin_Ops\<close>: runs of starts, stops, calls,
      new configurations and heartbeats, and what no such run undoes.
    - \<open>Generator_Props\<close>, \<open>Config_Props\<close>, \<open>Worker_Props\<close>, \<open>Worker_Races\<close>, \<open>Worker_Registry\<close>,
      \<open>Security_Props\<close>, \<open>Plugin_Props\<close>, \<open>Integration_Props\<close> hold the properties (some stand at
      the end of their component); each has a number and says in words what is proved.
      \<open>Demo\<close>, \<open>Worker_Demo\<close> and \<open>Plugin_Demo\<close> hold the concrete instances of the witnesses.

  Some of the theorems say what the program does not keep: IDs repeat after an overflow that
  is not waited out (\<open>overflow_repeats_id\<close>), the error action locks an idle generator out for
  good (\<open>idle_lockout\<close>), a lease may outlive its key and a deregistration may delete a
  successor's key (\<open>lease_overrun\<close>, \<open>unregister_race\<close> in \<open>Worker_Races\<close>), a heartbeat's late reply
  revives a deregistered manager (\<open>late_reply_revives\<close>), the gate is checked before and not
  after the clock is read, so that a call held up in between can repeat another instance's ID
  (\<open>same_identity_repeats\<close>), the bucket's refill
  ignores the configured rate (\<open>refill_ignores_rate\<close>), the default widths do not pass the
  validator (\<open>default_bits_rejected\<close>), a second stop gives nothing back (\<open>second_stop_leaks\<close>),
  and a plugin without Redis runs unregistered (\<open>fallback_is_unregistered\<close>).

  ARGUMENTS. What is not under src/ is an argument of the definitions that use it, with its
  documented behaviour as a hypothesis: Redis (\<open>redis_server\<close>), the JSON codec on both sides
  (\<open>codec_ok\<close>; Go's side of it is proved, of cjson \<open>cjson_ok\<close> remains), the framework's base plugin (\<open>base_ok\<close>), its runtime and application (a
  record of look-ups), AES, GCM and SHA-256 (\<open>crypto_ok\<close>). The host enters by the readings of
  its clock and by its calendar. What runs concurrently enters by an environment: for every
  call to Redis what other instances do before it, the server's time and whether request and
  reply arrive; for every iteration of a loop what other callers do in between. The operations of one
  manager are taken one after the other: a heartbeat and a deregistration of the same process
  overlap only in \<open>late_reply_revives\<close>.

  BOUNDS AND FUEL. \<open>clock_sane\<close>: the wall clock lies between 1970 and 2116, so that its readings
  in nanoseconds and milliseconds do not wrap around; \<open>reading_ok\<close> adds that the reading lies
  within the lifetime of the layout, \<open>host_sane\<close> the range of the calendar.
  \<open>EonId_typed\<close> bounds the message's fields by their types. \<open>GenerateID\<close> may wait for ever on
  a clock that stands still and runs on fuel: if the monotonic clock advances by at least
  \<open>delta\<close> per iteration, \<open>rounds delta\<close> iterations, the budget of 2 s divided by \<open>delta\<close>
  plus two, always give a result. Registrations retry a fixed number of times and are
  structural recursions on the retries left. The heartbeat loop runs as long as ticks are given
  to it, and \<open>backgroundRecover\<close> stays in its loop as long as no attempt succeeds and no
  shutdown is signalled: it runs on fuel, and ends in the attempt that sees the shutdown.

  The JSON parser runs on fuel, twice the length of the text, and \<open>value_fuel\<close> shows that
  more changes nothing.

  NOT MODELLED. The generated code of conf/eon-id.pb.go (its message is modelled), the
  Prometheus client behind the logged calls, and log output. A context is its deadline; what
  cancelling it causes appears as calls that do not arrive and attempts that are cancelled.
  Subnormal and infinite floating-point numbers do not occur in the rates that the program
  forms and are left out.
\<close>

end
